(* ===== verification/Prelude.thy ===== *)
theory Prelude
  imports Main "HOL-Library.Word" "HOL-Library.Multiset" "HOL-Library.List_Lexorder"
    "HOL-Library.Char_ord"
begin

text \<open>
  Shared vocabulary of the development: the Python builtins that all four scripts under
  \<open>src/scripts\<close> call (decimal formatting \<open>str(n)\<close> and \<open>f"{n:03d}"\<close>, \<open>int(s)\<close>,
  \<open>range\<close>, list slicing \<open>xs[i:j]\<close>, \<open>str.split\<close>, \<open>str.encode\<close>/\<open>bytes.decode\<close>),
  the byte and file types, the exceptions the scripts can raise, and the generic lemmas
  on them that the component theories use. Collections: \<open>py_simps\<close> holds the
  evaluation equations of these builtins for closed inputs.
\<close>

named_theorems py_simps "evaluation equations of the modelled Python builtins"

section \<open>Bytes, files and exceptions\<close>

type_synonym byte = "8 word"
type_synonym bytes = "byte list"

text \<open>
  A file on disk is either a data file (its bytes) or a zip archive written by
  \<open>zipfile.ZipFile\<close>, recorded by its member names and contents (the compressed
  encoding itself is not modelled). A directory is an association list from file names to
  files, as \<open>Path.glob\<close> sees it (names are distinct; order is irrelevant because every
  script sorts what it lists).
\<close>

datatype disk_file = Blob bytes | Archive "(string \<times> bytes) list"

type_synonym dir = "(string \<times> disk_file) list"

text \<open>
  The Python exceptions the scripts can raise, one constructor per raise site; the
  comment gives Python's message.
\<close>

datatype exc =
    InvalidIntLiteral string  \<comment> \<open>\<open>int(s)\<close>: invalid literal for int() with base 10\<close>
  | RangeStepZero            \<comment> \<open>\<open>range(a, b, 0)\<close>: range() arg 3 must not be zero\<close>
  | MaxWorkersNotPositive    \<comment> \<open>\<open>ThreadPoolExecutor(max_workers=n)\<close>, \<open>n \<le> 0\<close>\<close>
  | NegativeSleep            \<comment> \<open>\<open>time.sleep(t)\<close>, \<open>t < 0\<close>: sleep length must be non-negative\<close>
  | FileNotFound string      \<comment> \<open>\<open>shutil.copytree(src, dst)\<close> on a missing \<open>src\<close>\<close>

text \<open>
  Reading and writing a file of a directory. \<open>file_data\<close> is what \<open>open(p, "rb").read()\<close>
  returns for a data file; the compressed bytes of an archive are not modelled and read as
  empty. \<open>write_file\<close> is \<open>open(p, "w").write(...)\<close>: the file is created or truncated.
\<close>

definition file_data :: "dir \<Rightarrow> string \<Rightarrow> bytes" where
  "file_data d n = (case map_of d n of Some (Blob bs) \<Rightarrow> bs | _ \<Rightarrow> [])"

definition write_file :: "dir \<Rightarrow> string \<Rightarrow> disk_file \<Rightarrow> dir" where
  "write_file d n f = (n, f) # filter (\<lambda>e. fst e \<noteq> n) d"

text \<open>
  The members of a zip archive written with \<open>zf.write(p, arcname=os.path.basename(p))\<close>
  for the files \<open>names\<close> of directory \<open>d\<close>, in order.
\<close>

type_synonym archive = "(string \<times> bytes) list"

definition zip_members :: "dir \<Rightarrow> string list \<Rightarrow> archive" where
  "zip_members d names = map (\<lambda>n. (n, file_data d n)) names"

text \<open>
  \<open>os.path.join(a, b)\<close> (\<open>posixpath.join\<close>): an absolute \<open>b\<close> replaces \<open>a\<close>;
  otherwise \<open>b\<close> is appended, with a \<open>/\<close> unless \<open>a\<close> is empty or ends with one. And
  \<open>os.path.basename(p)\<close>.
\<close>

definition py_path_join :: "string \<Rightarrow> string \<Rightarrow> string" where
  "py_path_join a b =
     (if b \<noteq> [] \<and> hd b = CHR ''/'' then b
      else if a = [] \<or> last a = CHR ''/'' then a @ b else a @ ''/'' @ b)"

definition py_basename :: "string \<Rightarrow> string" where
  "py_basename p = rev (takeWhile (\<lambda>c. c \<noteq> CHR ''/'') (rev p))"

text \<open>
  \<open>os.path.dirname(p)\<close>: the part up to the last \<open>/\<close>, with trailing slashes removed
  unless it consists of slashes only.
\<close>

definition py_dirname :: "string \<Rightarrow> string" where
  "py_dirname p =
     (let head = rev (dropWhile (\<lambda>c. c \<noteq> CHR ''/'') (rev p))
      in if \<exists>c \<in> set head. c \<noteq> CHR ''/'' then rev (dropWhile (\<lambda>c. c = CHR ''/'') (rev head))
         else head)"

section \<open>Directories of directories\<close>

text \<open>
  A file system for the scripts that work on more than one directory: directories by
  path, each a directory of files. Paths are taken as written, without normalisation.
\<close>

type_synonym fs = "(string \<times> dir) list"

definition set_dir :: "fs \<Rightarrow> string \<Rightarrow> dir \<Rightarrow> fs" where
  "set_dir fs p d = (p, d) # filter (\<lambda>e. fst e \<noteq> p) fs"

definition del_dir :: "fs \<Rightarrow> string \<Rightarrow> fs" where
  "del_dir fs p = filter (\<lambda>e. fst e \<noteq> p) fs"

section \<open>Decimal formatting: str(n) and f"{n:03d}"\<close>

definition digit_char :: "nat \<Rightarrow> char" where
  "digit_char d = ''0123456789'' ! d"

definition is_digit :: "char \<Rightarrow> bool" where
  "is_digit c \<longleftrightarrow> CHR ''0'' \<le> c \<and> c \<le> CHR ''9''"

definition digit_val :: "char \<Rightarrow> nat" where
  "digit_val c = of_char c - 48"

fun py_str_of_nat :: "nat \<Rightarrow> string" where
  "py_str_of_nat n =
     (if n < 10 then [digit_char n] else py_str_of_nat (n div 10) @ [digit_char (n mod 10)])"

declare py_str_of_nat.simps [simp del]

definition py_str_of_int :: "int \<Rightarrow> string" where
  "py_str_of_int i = (if i < 0 then CHR ''-'' # py_str_of_nat (nat (- i)) else py_str_of_nat (nat i))"

text \<open>\<open>f"{i:03d}"\<close>: zero padding to a minimum width of 3, the sign counted in the width.\<close>

definition fmt_03d :: "int \<Rightarrow> string" where
  "fmt_03d i =
     (if i < 0 then CHR ''-'' # replicate (2 - length (py_str_of_nat (nat (- i)))) CHR ''0''
                      @ py_str_of_nat (nat (- i))
      else replicate (3 - length (py_str_of_nat (nat i))) CHR ''0'' @ py_str_of_nat (nat i))"

section \<open>Parsing: int(s)\<close>

text \<open>
  Python's \<open>int(s)\<close> for a \<open>str\<close> in base 10: surrounding whitespace is stripped, an
  optional sign follows, then one or more digits with single underscores allowed between
  them; leading zeros are accepted. Anything else raises \<open>ValueError\<close>. The whitespace
  stripped is that of CPython's \<open>PyLong_FromString\<close>: the ASCII space, \<open>\t \n \v \f
  \r\<close>, and the non-ASCII Unicode whitespace a \<open>char\<close> can hold (U+0085, U+00A0), which
  \<open>_PyUnicode_TransformDecimalAndSpaceToASCII\<close> turns into spaces first; the ASCII
  separators U+001C..U+001F are not stripped.
\<close>

definition py_isspace :: "char \<Rightarrow> bool" where
  "py_isspace c \<longleftrightarrow> of_char c \<in> {9, 10, 11, 12, 13, 32, 133, 160::nat}"

definition py_strip :: "string \<Rightarrow> string" where
  "py_strip s = rev (dropWhile py_isspace (rev (dropWhile py_isspace s)))"

fun digit_groups_ok :: "string \<Rightarrow> bool" where
  "digit_groups_ok [] = False"
| "digit_groups_ok [c] = is_digit c"
| "digit_groups_ok (c # d # cs) =
     (is_digit c \<and> (if d = CHR ''_'' then cs \<noteq> [] \<and> is_digit (hd cs) \<and> digit_groups_ok cs
                    else digit_groups_ok (d # cs)))"

definition dec_value :: "string \<Rightarrow> nat" where
  "dec_value s = foldl (\<lambda>n c. 10 * n + digit_val c) 0 (filter is_digit s)"

definition py_int :: "string \<Rightarrow> exc + int" where
  "py_int s =
     (let t = py_strip s in
      case t of
        c # r \<Rightarrow>
          if c = CHR ''-'' then (if digit_groups_ok r then Inr (- int (dec_value r))
                                else Inl (InvalidIntLiteral s))
          else if c = CHR ''+'' then (if digit_groups_ok r then Inr (int (dec_value r))
                                     else Inl (InvalidIntLiteral s))
          else if digit_groups_ok t then Inr (int (dec_value t))
          else Inl (InvalidIntLiteral s)
      | [] \<Rightarrow> Inl (InvalidIntLiteral s))"

section \<open>range, slicing, str.split\<close>

text \<open>\<open>range(start, stop, step)\<close>, with its length formula and the zero-step error.\<close>

definition py_range :: "int \<Rightarrow> int \<Rightarrow> int \<Rightarrow> exc + int list" where
  "py_range start stop step =
     (if step = 0 then Inl RangeStepZero
      else if 0 < step
      then Inr (map (\<lambda>k. start + step * int k) [0..<nat ((stop - start + step - 1) div step)])
      else Inr (map (\<lambda>k. start + step * int k) [0..<nat ((start - stop - step - 1) div (- step))]))"

text \<open>\<open>xs[i:j]\<close>: negative bounds count from the end, bounds are clipped to the list.\<close>

definition py_slice_index :: "nat \<Rightarrow> int \<Rightarrow> int" where
  "py_slice_index n k = (if k < 0 then max 0 (int n + k) else min k (int n))"

definition py_slice :: "'a list \<Rightarrow> int \<Rightarrow> int \<Rightarrow> 'a list" where
  "py_slice xs i j =
     (let a = py_slice_index (length xs) i; b = py_slice_index (length xs) j
      in take (nat (b - a)) (drop (nat a) xs))"

text \<open>\<open>s.split(c)\<close> for a one-character separator: never empty, empty fields kept.\<close>

fun py_split :: "char \<Rightarrow> string \<Rightarrow> string list" where
  "py_split c [] = [[]]"
| "py_split c (x # xs) =
     (let r = py_split c xs in if x = c then [] # r else (x # hd r) # tl r)"

text \<open>\<open>fnmatch\<close> of a name against \<open>"*" + suf\<close> (used by \<open>Path.glob\<close>).\<close>

definition glob_suffix :: "string \<Rightarrow> string \<Rightarrow> bool" where
  "glob_suffix suf n \<longleftrightarrow> length suf \<le> length n \<and> drop (length n - length suf) n = suf"

text \<open>\<open>fnmatch\<close> of a name against \<open>pre + "*" + suf\<close>.\<close>

definition glob_affix :: "string \<Rightarrow> string \<Rightarrow> string \<Rightarrow> bool" where
  "glob_affix pre suf n \<longleftrightarrow> length pre + length suf \<le> length n \<and> take (length pre) n = pre \<and> glob_suffix suf n"

section \<open>Text and bytes\<close>

text \<open>
  \<open>s.encode("utf-8")\<close> for the code points \<open>0..255\<close> a \<open>char\<close> holds (one byte below
  128, two bytes above), and \<open>b.decode("ascii")\<close>, which fails on a byte \<open>\<ge> 128\<close>.
\<close>

definition byte_of_char :: "char \<Rightarrow> byte" where
  "byte_of_char c = word_of_nat (of_char c)"

definition char_of_byte :: "byte \<Rightarrow> char" where
  "char_of_byte b = char_of (unat b)"

definition utf8_encode :: "string \<Rightarrow> bytes" where
  "utf8_encode s =
     concat (map (\<lambda>c. if of_char c < (128::nat) then [byte_of_char c]
                      else [word_of_nat (192 + of_char c div 64), word_of_nat (128 + of_char c mod 64)]) s)"

definition ascii_decode :: "bytes \<Rightarrow> string option" where
  "ascii_decode bs = (if \<forall>b \<in> set bs. unat b < 128 then Some (map char_of_byte bs) else None)"

definition is_ascii :: "string \<Rightarrow> bool" where
  "is_ascii s \<longleftrightarrow> (\<forall>c \<in> set s. of_char c < (128::nat))"

section \<open>Shared lemmas\<close>

declare py_str_of_nat.simps [py_simps] digit_char_def [py_simps] fmt_03d_def [py_simps]
  py_str_of_int_def [py_simps] numeral_eq_Suc [py_simps]

lemma upto_split_at:
  assumes "1 \<le> k" "k \<le> r"
  shows "[1..r] = [1..k - 1] @ k # [k + 1..r]"
  using assms by (metis diff_add_cancel upto_rec1 upto_split1 zle_diff1_eq)

lemma last_upto_1: "1 \<le> r \<Longrightarrow> last [1..r] = r"
  using upto_split_at[of r r] by simp

lemma py_slice_nat:
  "m \<le> length xs \<Longrightarrow> py_slice xs (int m) (int m + int n) = take n (drop m xs)"
  by (simp add: py_slice_def py_slice_index_def Let_def min_def nat_diff_distrib
      flip: of_nat_add)

lemma ceil_div_step:
  assumes "0 < n" "0 < l"
  shows "(l + n - 1) div n = Suc ((l - n + n - 1) div n)"
proof (cases "n \<le> l")
  case True
  then have e: "l + n - 1 = (l - n + n - 1) + n" using assms by arith
  have "((l - n + n - 1) + n) div n = Suc ((l - n + n - 1) div n)"
    using assms(1) by (metis div_add_self2 less_not_refl2 Suc_eq_plus1)
  then show ?thesis using e by metis
next
  case False
  then have "(l + n - 1) div n = 1" using assms by (intro div_nat_eqI) auto
  moreover have "(l - n + n - 1) div n = 0" using assms False by simp
  ultimately show ?thesis by simp
qed

lemma ceil_div_bound:
  fixes n k l :: nat
  assumes "0 < n" "k < (l + n - 1) div n"
  shows "k * n < l"
proof -
  have "Suc k * n \<le> (l + n - 1) div n * n"
    using assms(2) by (intro mult_le_mono1) simp
  also have "\<dots> \<le> l + n - 1" by (rule div_times_less_eq_dividend)
  finally show ?thesis using assms(1) by simp
qed

lemma py_range_pos:
  assumes "0 < step"
  shows "py_range 0 (int l) step =
           Inr (map (\<lambda>k. step * int k) [0..<(l + nat step - 1) div nat step])"
proof -
  have "nat (int l + step - 1) = l + nat step - 1" using assms by arith
  then have "nat ((int l + step - 1) div step) = (l + nat step - 1) div nat step"
    using assms by (simp add: nat_div_distrib)
  then show ?thesis using assms by (simp add: py_range_def)
qed

lemma py_range_neg:
  assumes "step < 0"
  shows "py_range 0 (int l) step = Inr []"
proof -
  have "(- int l - step - 1) div (- step) \<le> 0"
  proof (cases "- int l - step - 1 < 0")
    case True
    then show ?thesis using assms by (simp add: div_neg_pos_less0 less_imp_le)
  next
    case False
    then show ?thesis using assms by (simp add: div_pos_pos_trivial)
  qed
  then show ?thesis using assms by (simp add: py_range_def)
qed

lemma bit_8_cases: "n < 8 \<Longrightarrow> n = 0 \<or> n = 1 \<or> n = 2 \<or> n = 3 \<or> n = 4 \<or> n = 5 \<or> n = 6 \<or> n = 7"
  for n :: nat by linarith

lemma suc_nums: "Suc (Suc 0) = 2" "Suc (Suc (Suc 0)) = 3" by simp_all

lemma takeWhile_index_nth:
  "distinct xs \<Longrightarrow> k < length xs \<Longrightarrow> length (takeWhile (\<lambda>x. x \<noteq> xs ! k) xs) = k"
proof (induction xs arbitrary: k)
  case Nil
  then show ?case by simp
next
  case (Cons x xs)
  then show ?case by (cases k) (auto simp: nth_mem)
qed


lemma map_of_write_file: "map_of (write_file d n f) m = (if m = n then Some f else map_of d m)"
  by (induction d) (auto simp: write_file_def)

lemma file_data_write_other: "m \<noteq> n \<Longrightarrow> file_data (write_file d n f) m = file_data d m"
  by (simp add: file_data_def map_of_write_file)

lemma file_data_write_file:
  "file_data (write_file d n (Blob bs)) m = (if m = n then bs else file_data d m)"
  by (simp add: file_data_def map_of_write_file)


subsection \<open>Decimal strings: int() reads back what str() and 03d write\<close>

lemma digit_char_props:
  assumes "d < 10"
  shows "is_digit (digit_char d)" "digit_val (digit_char d) = d" "\<not> py_isspace (digit_char d)"
    "digit_char d \<noteq> CHR ''-''" "digit_char d \<noteq> CHR ''+''"
proof -
  have "d = 0 \<or> d = 1 \<or> d = 2 \<or> d = 3 \<or> d = 4 \<or> d = 5 \<or> d = 6 \<or> d = 7 \<or> d = 8 \<or> d = 9"
    using assms by (simp add: numeral_eq_Suc less_Suc_eq)
  then show "is_digit (digit_char d)" "digit_val (digit_char d) = d" "\<not> py_isspace (digit_char d)"
    "digit_char d \<noteq> CHR ''-''" "digit_char d \<noteq> CHR ''+''"
    by (auto simp: digit_char_def is_digit_def digit_val_def py_isspace_def)
qed

lemma py_str_of_nat_digits: "\<forall>c \<in> set (py_str_of_nat n). \<exists>d < 10. c = digit_char d"
proof (induction n rule: py_str_of_nat.induct)
  case (1 n)
  then show ?case by (subst py_str_of_nat.simps) (auto intro: exI[of _ "n mod 10"])
qed

lemma py_str_of_nat_nonempty: "py_str_of_nat n \<noteq> []"
  by (subst py_str_of_nat.simps) simp

lemma py_str_of_nat_is_digit: "\<forall>c \<in> set (py_str_of_nat n). is_digit c"
  using py_str_of_nat_digits[of n] digit_char_props(1) by fastforce

lemma is_digit_0: "is_digit CHR ''0''"
  by (simp add: is_digit_def)

lemma dec_value_snoc: "is_digit c \<Longrightarrow> dec_value (s @ [c]) = 10 * dec_value s + digit_val c"
  by (simp add: dec_value_def)

lemma dec_value_py_str_of_nat: "dec_value (py_str_of_nat n) = n"
proof (induction n rule: py_str_of_nat.induct)
  case (1 n)
  show ?case
  proof (cases "n < 10")
    case True
    then show ?thesis by (subst py_str_of_nat.simps) (simp add: dec_value_def digit_char_props)
  next
    case False
    then show ?thesis using 1
      by (subst py_str_of_nat.simps) (simp add: dec_value_snoc digit_char_props)
  qed
qed

lemma dec_value_zeros: "dec_value (replicate k CHR ''0'' @ s) = dec_value s"
  by (induction k) (simp_all add: dec_value_def is_digit_def digit_val_def)

lemma digit_groups_ok_digits: "s \<noteq> [] \<Longrightarrow> \<forall>c \<in> set s. is_digit c \<Longrightarrow> digit_groups_ok s"
  by (induction s rule: digit_groups_ok.induct) (auto simp: is_digit_def)

lemma py_strip_id:
  assumes "s \<noteq> []" "\<not> py_isspace (hd s)" "\<not> py_isspace (last s)"
  shows "py_strip s = s"
proof -
  have "dropWhile py_isspace s = s" using assms by (cases s) auto
  moreover have "dropWhile py_isspace (rev s) = rev s" using assms by (cases "rev s") (auto simp: hd_rev)
  ultimately show ?thesis by (simp add: py_strip_def)
qed

lemma digit_not_special: "is_digit c \<Longrightarrow> \<not> py_isspace c \<and> c \<noteq> CHR ''-'' \<and> c \<noteq> CHR ''+''"
  by (auto simp: is_digit_def py_isspace_def less_eq_char_def)

lemma py_int_digits:
  assumes "s \<noteq> []" "\<forall>c \<in> set s. is_digit c"
  shows "py_int s = Inr (int (dec_value s))" "py_int (CHR ''-'' # s) = Inr (- int (dec_value s))"
proof -
  have hl: "hd s \<in> set s" "last s \<in> set s" using assms(1) by simp_all
  then have "py_strip s = s" using assms digit_not_special by (intro py_strip_id) auto
  moreover have "py_strip (CHR ''-'' # s) = CHR ''-'' # s"
    using assms hl digit_not_special by (intro py_strip_id) (auto simp: py_isspace_def)
  moreover obtain c r where "s = c # r" using assms(1) by (cases s) auto
  ultimately show "py_int s = Inr (int (dec_value s))" "py_int (CHR ''-'' # s) = Inr (- int (dec_value s))"
    using assms digit_not_special[of c] by (simp_all add: py_int_def digit_groups_ok_digits)
qed

lemma padded_digits:
  "replicate k CHR ''0'' @ py_str_of_nat n \<noteq> []"
  "\<forall>c \<in> set (replicate k CHR ''0'' @ py_str_of_nat n). is_digit c"
  "dec_value (replicate k CHR ''0'' @ py_str_of_nat n) = n"
proof -
  have "is_digit CHR ''0''" by (simp add: is_digit_def)
  then show "\<forall>c \<in> set (replicate k CHR ''0'' @ py_str_of_nat n). is_digit c"
    using py_str_of_nat_digits[of n] digit_char_props by auto
qed (simp_all add: py_str_of_nat_nonempty dec_value_zeros dec_value_py_str_of_nat)

lemma py_int_fmt_03d: "py_int (fmt_03d i) = Inr i"
  using py_int_digits[OF padded_digits(1,2)] by (simp add: fmt_03d_def padded_digits(3))


subsection \<open>Digit strings compare as their values\<close>

lemma foldl_dec_shift:
  "foldl (\<lambda>n c. 10 * n + digit_val c) a s = a * 10 ^ length s + foldl (\<lambda>n c. 10 * n + digit_val c) 0 s"
proof (induction s arbitrary: a)
  case (Cons c s)
  have "foldl (\<lambda>n c. 10 * n + digit_val c) a (c # s)
          = (10 * a + digit_val c) * 10 ^ length s + foldl (\<lambda>n c. 10 * n + digit_val c) 0 s"
    using Cons[of "10 * a + digit_val c"] by simp
  moreover have "foldl (\<lambda>n c. 10 * n + digit_val c) 0 (c # s)
          = digit_val c * 10 ^ length s + foldl (\<lambda>n c. 10 * n + digit_val c) 0 s"
    using Cons[of "digit_val c"] by simp
  ultimately show ?case by (simp add: algebra_simps)
qed simp

lemma dec_value_Cons:
  "\<forall>x \<in> set (c # s). is_digit x \<Longrightarrow> dec_value (c # s) = digit_val c * 10 ^ length s + dec_value s"
  by (simp add: dec_value_def foldl_dec_shift[where a = "digit_val c"] filter_id_conv)

lemma digit_val_lt: "is_digit c \<Longrightarrow> digit_val c < 10"
  by (auto simp: is_digit_def digit_val_def less_eq_char_def)

lemma dec_value_bound: "\<forall>x \<in> set s. is_digit x \<Longrightarrow> dec_value s < 10 ^ length s"
proof (induction s)
  case Nil
  then show ?case by (simp add: dec_value_def)
next
  case (Cons c s)
  then have "digit_val c \<le> 9" using digit_val_lt by fastforce
  then have "digit_val c * 10 ^ length s + dec_value s < 9 * 10 ^ length s + 10 ^ length s"
    using Cons by (intro add_le_less_mono) simp_all
  then show ?case using Cons.prems by (simp add: dec_value_Cons)
qed

lemma digit_less: "is_digit c \<Longrightarrow> is_digit d \<Longrightarrow> c < d \<longleftrightarrow> digit_val c < digit_val d"
  by (auto simp: is_digit_def digit_val_def less_eq_char_def less_char_def)

lemma digit_eq:
  assumes "is_digit c" "is_digit d" shows "c = d \<longleftrightarrow> digit_val c = digit_val d"
proof
  assume e: "digit_val c = digit_val d"
  have "48 \<le> (of_char c :: nat)" "48 \<le> (of_char d :: nat)"
    using assms by (simp_all add: is_digit_def less_eq_char_def)
  then have "(of_char c :: nat) = of_char d" using e unfolding digit_val_def by linarith
  then show "c = d" by (simp only: of_char_eq_iff)
qed simp

lemma digits_less_iff:
  "\<forall>x \<in> set s. is_digit x \<Longrightarrow> \<forall>x \<in> set t. is_digit x \<Longrightarrow> length s = length t \<Longrightarrow>
   s < t \<longleftrightarrow> dec_value s < dec_value t"
proof (induction s arbitrary: t)
  case Nil
  then show ?case by simp
next
  case (Cons c s)
  then obtain d t' where t: "t = d # t'" by (cases t) auto
  have b: "dec_value s < 10 ^ length s" "dec_value t' < 10 ^ length s"
    using Cons.prems t dec_value_bound[of s] dec_value_bound[of t'] by auto
  have cd: "is_digit c" "is_digit d" using Cons.prems t by auto
  consider "digit_val c < digit_val d" | "digit_val c = digit_val d" | "digit_val d < digit_val c" by linarith
  then show ?case
  proof cases
    case 1
    then have "Suc (digit_val c) * 10 ^ length s \<le> digit_val d * 10 ^ length s"
      by (intro mult_le_mono1) simp
    then have "digit_val c * 10 ^ length s + 10 ^ length s \<le> digit_val d * 10 ^ length s" by simp
    moreover have "dec_value (c # s) < digit_val c * 10 ^ length s + 10 ^ length s"
      using Cons.prems b by (simp add: dec_value_Cons)
    moreover have "digit_val d * 10 ^ length s \<le> dec_value t"
      using Cons.prems t by (simp add: dec_value_Cons)
    ultimately show ?thesis using 1 cd t by (simp add: digit_less)
  next
    case 2
    have "c = d" using 2 cd digit_eq by blast
    moreover have "s < t' \<longleftrightarrow> dec_value s < dec_value t'" using Cons t by simp
    ultimately show ?thesis using 2 Cons.prems t by (simp add: dec_value_Cons)
  next
    case 3
    then have "Suc (digit_val d) * 10 ^ length s \<le> digit_val c * 10 ^ length s"
      by (intro mult_le_mono1) simp
    then have "digit_val d * 10 ^ length s + 10 ^ length s \<le> digit_val c * 10 ^ length s" by simp
    moreover have "dec_value t < digit_val d * 10 ^ length s + 10 ^ length s"
      using Cons.prems t b by (simp add: dec_value_Cons)
    moreover have "digit_val c * 10 ^ length s \<le> dec_value (c # s)"
      using Cons.prems by (simp add: dec_value_Cons)
    moreover have "\<not> c < d" "c \<noteq> d" using 3 cd digit_less digit_eq by auto
    ultimately show ?thesis using 3 t by auto
  qed
qed

lemma length_py_str_of_nat: "n < 10 ^ k \<Longrightarrow> 0 < k \<Longrightarrow> length (py_str_of_nat n) \<le> k"
proof (induction n arbitrary: k rule: py_str_of_nat.induct)
  case (1 n)
  show ?case
  proof (cases "n < 10")
    case False
    then have "n div 10 < 10 ^ (k - 1)" "0 < k - 1" using 1(2,3)
      by (auto simp: less_mult_imp_div_less power_eq_if split: if_splits)
    then show ?thesis using 1 False by (subst py_str_of_nat.simps) fastforce
  qed (use 1 in \<open>simp add: py_str_of_nat.simps\<close>)
qed

subsection \<open>Writing a sequence of files\<close>

lemma file_data_fold_write:
  assumes "distinct (map f xs)" "x \<in> set xs"
  shows "file_data (fold (\<lambda>x d. write_file d (f x) (Blob (g x))) xs d) (f x) = g x"
  using assms
proof (induction xs arbitrary: d rule: rev_induct)
  case (snoc y xs)
  then show ?case by (cases "x = y") (auto simp: file_data_write_file image_iff)
qed simp

lemma file_data_fold_write_some:
  "n \<in> f ` set xs \<Longrightarrow>
   \<exists>x \<in> set xs. f x = n \<and> file_data (fold (\<lambda>x d. write_file d (f x) (Blob (g x))) xs d) n = g x"
proof (induction xs arbitrary: d rule: rev_induct)
  case (snoc y xs)
  then show ?case by (cases "f y = n") (auto simp: file_data_write_file)
qed simp

lemma map_of_fold_write:
  "map_of (fold (\<lambda>x d. write_file d (f x) (v x)) xs d) m =
     (if m \<in> f ` set xs then map_of (fold (\<lambda>x d. write_file d (f x) (v x)) xs []) m else map_of d m)"
proof (induction xs arbitrary: d)
  case (Cons x xs)
  show ?case using Cons[of d] Cons[of "write_file d (f x) (v x)"] Cons[of "write_file [] (f x) (v x)"]
    by (auto simp: map_of_write_file)
qed simp

lemma names_write_file: "set (map fst (write_file d n f)) = insert n (set (map fst d))"
  by (auto simp: write_file_def)

lemma names_fold_write:
  "set (map fst (fold (\<lambda>x d. write_file d (f x) (v x)) xs d)) = set (map fst d) \<union> f ` set xs"
  by (induction xs arbitrary: d) (auto simp: write_file_def)

lemma distinct_write_file: "distinct (map fst d) \<Longrightarrow> distinct (map fst (write_file d n v))"
  by (auto simp: write_file_def distinct_map_filter)

lemma distinct_fold_write:
  "distinct (map fst d) \<Longrightarrow> distinct (map fst (fold (\<lambda>x d. write_file d (f x) (v x)) xs d))"
  by (induction xs arbitrary: d) (simp_all add: distinct_write_file)


subsection \<open>File systems\<close>

lemma map_of_set_dir: "map_of (set_dir fs p d) q = (if q = p then Some d else map_of fs q)"
  by (induction fs) (auto simp: set_dir_def)

lemma map_of_del_dir: "map_of (del_dir fs p) q = (if q = p then None else map_of fs q)"
  by (induction fs) (auto simp: del_dir_def)

lemma del_dir_absent: "p \<notin> set (map fst fs) \<Longrightarrow> del_dir fs p = fs"
  by (auto simp: del_dir_def filter_id_conv)


subsection \<open>Paths and names\<close>

lemma list_less_append_same_len:
  "x < y \<Longrightarrow> length x = length y \<Longrightarrow> p @ x @ s < p @ y @ (t :: 'a :: linorder list)"
proof (induction p)
  case Nil
  then show ?case
  proof (induction x arbitrary: y)
    case (Cons a x)
    then obtain b y' where "y = b # y'" by (cases y) auto
    with Cons show ?case by auto
  qed simp
qed simp

lemma basename_join:
  assumes "CHR ''/'' \<notin> set b" shows "py_basename (py_path_join a b) = b"
proof -
  have tb: "takeWhile (\<lambda>c. c \<noteq> CHR ''/'') (rev b @ r) = rev b @ takeWhile (\<lambda>c. c \<noteq> CHR ''/'') r" for r
    using assms by (intro takeWhile_append2) auto
  have nb: "py_path_join x b = (if x = [] \<or> last x = CHR ''/'' then x @ b else x @ ''/'' @ b)" for x
    using assms by (cases b) (auto simp: py_path_join_def)
  show ?thesis
  proof (cases "a = [] \<or> last a = CHR ''/''")
    case True
    then consider "a = []" | a' where "a = a' @ [CHR ''/'']" by (metis append_butlast_last_id)
    moreover have t0: "takeWhile (\<lambda>c. c \<noteq> CHR ''/'') (rev b) = rev b" using tb[of "[]"] by simp
    ultimately show ?thesis
      by cases (simp_all add: py_basename_def nb t0 tb)
  next
    case False
    then show ?thesis using tb[of "CHR ''/'' # rev a"] by (simp add: py_basename_def nb)
  qed
qed


subsection \<open>str.split and fnmatch\<close>

lemma py_split_no_sep: "c \<notin> set ys \<Longrightarrow> py_split c ys = [ys]"
  by (induction ys) (auto simp: Let_def)

lemma py_split_nonempty: "py_split c s \<noteq> []"
  by (induction s) (auto simp: Let_def)

lemma length_py_split: "c \<in> set s \<Longrightarrow> 2 \<le> length (py_split c s)"
proof (induction s)
  case (Cons x s)
  have "py_split c s \<noteq> []" by (rule py_split_nonempty)
  then show ?case using Cons by (cases "x = c") (auto simp: Let_def py_split_no_sep Suc_le_eq)
qed simp

lemma last_py_split_append:
  "c \<notin> set ys \<Longrightarrow> last (py_split c (xs @ c # ys)) = ys"
proof (induction xs)
  case Nil
  then show ?case by (simp add: py_split_no_sep)
next
  case (Cons x xs)
  have "2 \<le> length (py_split c (xs @ c # ys))" by (rule length_py_split) simp
  then have "tl (py_split c (xs @ c # ys)) \<noteq> []" by (cases "py_split c (xs @ c # ys)") auto
  then show ?case using Cons by (auto simp: Let_def last_tl)
qed

lemma glob_suffix_append: "glob_suffix suf (p @ suf)"
  by (simp add: glob_suffix_def)

end
