(* ===== verification/Uploader.thy ===== *)
theory Uploader
  imports Prelude
begin

text \<open>
  Model of \<open>src/scripts/upload_items_to_fabric.py\<close>: the HTTP request built by
  \<open>post_item\<close>, the retry loop of \<open>worker\<close>, the generator \<open>chunked\<close>, and \<open>main\<close>
  with its dry-run and token checks, the batch loop, the inter-batch pause and the summary.
  The network is an oracle \<open>net f a\<close>: the outcome of attempt \<open>a\<close> for file \<open>f\<close>
  (a response with status and text, or a transport fault with its message). The order in
  which \<open>as_completed\<close> hands back the futures of batch \<open>n\<close> is an oracle
  \<open>sched n batch\<close>; the theorems assume only that it is a permutation of the batch, as
  every completion order of a \<open>ThreadPoolExecutor\<close> is. What the program does is a trace of events:
  requests posted, sleeps and printed lines.
\<close>

section \<open>Requests, outcomes, events\<close>

record http_request =
  req_url :: string
  req_headers :: "(string \<times> string) list"
  req_body :: bytes
  req_timeout :: int

datatype outcome = Response int string | Fault string

datatype event = Post string http_request | Sleep int | Print string

text \<open>
  \<open>post_item\<close>: the headers, the bytes of \<open>filepath\<close> read from the directory \<open>d\<close>, and
  the request \<open>session.post\<close> is given; what \<open>session.post\<close> returns or raises is the
  network oracle, applied by \<open>worker_loop\<close>.
\<close>

definition post_item :: "string \<Rightarrow> string \<Rightarrow> dir \<Rightarrow> string \<Rightarrow> int \<Rightarrow> http_request" where
  "post_item endpoint token d filepath timeout =
     (let headers = [(''Authorization'', ''Bearer '' @ token), (''Content-Type'', ''application/json'')];
          data = file_data d filepath
      in \<lparr>req_url = endpoint, req_headers = headers, req_body = data, req_timeout = timeout\<rparr>)"

section \<open>The retry loop: worker\<close>

type_synonym worker_result = "bool \<times> int option \<times> string"

text \<open>\<open>str(last_exc)\<close>: the message of the last fault, or \<open>"None"\<close> when no attempt ran.\<close>

definition str_last_exc :: "string option \<Rightarrow> string" where
  "str_last_exc e = (case e of None \<Rightarrow> ''None'' | Some m \<Rightarrow> m)"

text \<open>
  \<open>for attempt in range(1, retries + 1)\<close>: a response returns at once (whatever its
  status); a fault records the exception and sleeps \<open>1 * attempt\<close> seconds, also after the
  last attempt; when the attempts are exhausted the worker returns the failure triple.
\<close>

fun worker_loop ::
  "string \<Rightarrow> http_request \<Rightarrow> (int \<Rightarrow> outcome) \<Rightarrow> int list \<Rightarrow> string option
     \<Rightarrow> event list \<times> worker_result" where
  "worker_loop f req net [] last_exc = ([], (False, None, str_last_exc last_exc))"
| "worker_loop f req net (attempt # attempts) last_exc =
     (case net attempt of
        Response status text \<Rightarrow> ([Post f req], (True, Some status, text))
      | Fault e \<Rightarrow>
          (let (evs, r) = worker_loop f req net attempts (Some e)
           in (Post f req # Sleep (1 * attempt) # evs, r)))"

definition worker ::
  "string \<Rightarrow> string \<Rightarrow> dir \<Rightarrow> string \<Rightarrow> int \<Rightarrow> (int \<Rightarrow> outcome)
     \<Rightarrow> event list \<times> worker_result" where
  "worker endpoint token d f retries net =
     worker_loop f (post_item endpoint token d f 30) net [1..retries] None"

section \<open>Batches: chunked\<close>

text \<open>\<open>chunked(iterable, size)\<close> (the parameter \<open>size\<close> is \<open>step\<close> here).\<close>

definition chunked :: "'a list \<Rightarrow> int \<Rightarrow> exc + 'a list list" where
  "chunked xs step =
     (case py_range 0 (int (length xs)) step of
        Inl e \<Rightarrow> Inl e
      | Inr starts \<Rightarrow> Inr (map (\<lambda>i. py_slice xs i (i + step)) starts))"

section \<open>main\<close>

record upload_args =
  arg_endpoint :: string
  arg_token :: "string option"
  arg_src :: string
  arg_concurrency :: int
  arg_retries :: int
  arg_dry_run :: bool
  arg_batch_size :: int
  arg_sleep_after :: int

type_synonym upload_result = "string \<times> bool \<times> int option \<times> string"

text \<open>\<open>sorted(src.glob("*.json"))\<close>, by file name (all paths share the directory).\<close>

definition json_files :: "dir \<Rightarrow> string list" where
  "json_files d = sort (filter (glob_suffix ''.json'') (map fst d))"

definition str_status :: "int option \<Rightarrow> string" where
  "str_status s = (case s of None \<Rightarrow> ''None'' | Some c \<Rightarrow> py_str_of_int c)"

text \<open>\<open>files.index(x)\<close>: the position of the first occurrence (every batch element occurs).\<close>

definition py_index :: "'a list \<Rightarrow> 'a \<Rightarrow> nat" where
  "py_index xs x = length (takeWhile (\<lambda>y. y \<noteq> x) xs)"

definition start_msg :: "nat \<Rightarrow> string list \<Rightarrow> string list \<Rightarrow> string" where
  "start_msg n batch files =
     ''Starting batch '' @ py_str_of_nat n @ '': '' @ py_str_of_nat (length batch)
     @ '' items (files '' @ py_str_of_nat (py_index files (hd batch) + 1) @ ''..''
     @ py_str_of_nat (py_index files (last batch) + 1) @ '' of ''
     @ py_str_of_nat (length files) @ '')''"

text \<open>
  The \<open>as_completed\<close> loop of one batch: for each future in the order it is handed back,
  the worker's events, the printed line, and the result with the text cut to 200
  characters. (The \<open>except Exception\<close> branch around \<open>fut.result()\<close> is unreachable:
  \<open>worker\<close> catches every \<open>Exception\<close> itself.)
\<close>

fun collect ::
  "(string \<Rightarrow> event list \<times> worker_result) \<Rightarrow> string list \<Rightarrow> event list \<times> upload_result list" where
  "collect run [] = ([], [])"
| "collect run (fp # fps) =
     (let (evs, (success, status, text)) = run fp;
          (evs', rs) = collect run fps
      in (evs @ [Print (fp @ '' -> '' @ (if success then ''OK'' else ''FAILED'') @ '' ''
                        @ str_status status)] @ evs',
          (fp, success, status, take 200 text) # rs))"

definition run_file :: "upload_args \<Rightarrow> dir \<Rightarrow> string \<Rightarrow> (string \<Rightarrow> int \<Rightarrow> outcome)
     \<Rightarrow> string \<Rightarrow> event list \<times> worker_result" where
  "run_file a d token net fp =
     worker (arg_endpoint a) token d fp (arg_retries a) (net fp)"

definition pause_msg :: "nat \<Rightarrow> int \<Rightarrow> int \<Rightarrow> string" where
  "pause_msg n secs remaining =
     ''Batch '' @ py_str_of_nat n @ '' complete. Sleeping '' @ py_str_of_int secs
     @ '' seconds before next batch... ('' @ py_str_of_int remaining @ '' items remaining)''"

text \<open>
  The loop over the batches. The trace and the results accumulate; the result carries the
  exception that ended the run, if any (\<open>ThreadPoolExecutor\<close> with no workers,
  \<open>time.sleep\<close> of a negative pause).
\<close>

fun run_batches ::
  "upload_args \<Rightarrow> dir \<Rightarrow> string \<Rightarrow> (string \<Rightarrow> int \<Rightarrow> outcome)
     \<Rightarrow> (nat \<Rightarrow> string list \<Rightarrow> string list) \<Rightarrow> string list \<Rightarrow> nat \<Rightarrow> string list list
     \<Rightarrow> event list \<Rightarrow> upload_result list \<Rightarrow> event list \<times> upload_result list \<times> exc option" where
  "run_batches a d token net sched files n [] trace results = (trace, results, None)"
| "run_batches a d token net sched files n (batch # batches) trace results =
     (let n' = Suc n;
          trace1 = trace @ [Print (start_msg n' batch files)]
      in if arg_concurrency a \<le> 0 then (trace1, results, Some MaxWorkersNotPositive)
         else
           (let (evs, rs) = collect (run_file a d token net) (sched n' batch);
                results' = results @ rs;
                trace2 = trace1 @ evs;
                remaining = int (length files) - int (length results')
            in if 0 < remaining then
                 (let msg = pause_msg n' (arg_sleep_after a) remaining
                  in if arg_sleep_after a < 0 then (trace2 @ [Print msg], results', Some NegativeSleep)
                     else run_batches a d token net sched files n' batches
                            (trace2 @ [Print msg, Sleep (arg_sleep_after a)]) results')
               else run_batches a d token net sched files n' batches trace2 results'))"

definition dry_run_trace :: "upload_args \<Rightarrow> string list \<Rightarrow> event list" where
  "dry_run_trace a files =
     [Print (''Dry-run: '' @ py_str_of_nat (length files) @ '' files found. Showing first 10:'')]
     @ map (\<lambda>f. Print ('' - '' @ f)) (take 10 files)
     @ [Print (''Batch size: '' @ py_str_of_int (arg_batch_size a) @ '', sleep after each batch: ''
               @ py_str_of_int (arg_sleep_after a) @ ''s'')]"

definition summary_msg :: "upload_result list \<Rightarrow> string" where
  "summary_msg rs =
     ''Uploaded '' @ py_str_of_nat (length (filter (\<lambda>r. fst (snd r)) rs)) @ ''/''
     @ py_str_of_nat (length rs) @ '' items''"

definition upload_main ::
  "upload_args \<Rightarrow> dir \<Rightarrow> (string \<Rightarrow> int \<Rightarrow> outcome) \<Rightarrow> (nat \<Rightarrow> string list \<Rightarrow> string list)
     \<Rightarrow> event list \<times> upload_result list \<times> exc option" where
  "upload_main a d net sched =
     (let files = json_files d in
      if files = [] then ([Print (''No JSON files found in '' @ arg_src a)], [], None)
      else if arg_dry_run a then (dry_run_trace a files, [], None)
      else case arg_token a of
        None \<Rightarrow> ([Print ''Error: --token is required for actual upload''], [], None)
      | Some token \<Rightarrow>
          if token = [] then ([Print ''Error: --token is required for actual upload''], [], None)
          else (case chunked files (arg_batch_size a) of
            Inl e \<Rightarrow> ([], [], Some e)
          | Inr batches \<Rightarrow>
              (let (tr, rs, err) = run_batches a d token net sched files 0 batches [] []
               in (case err of
                    Some e \<Rightarrow> (tr, rs, Some e)
                  | None \<Rightarrow> (tr @ [Print (summary_msg rs)], rs, None)))))"

section \<open>Reference behaviour\<close>

text \<open>
  What the batch loop should do, stated without its bookkeeping: the sorted files cut into
  consecutive chunks of \<open>n\<close>; for each chunk, one segment of the trace (the start line,
  the workers' events and result lines, and the pause unless it is the last chunk); the
  results of the chunks one after the other.
\<close>

function chunks :: "nat \<Rightarrow> 'a list \<Rightarrow> 'a list list" where
  "chunks n xs = (if n = 0 \<or> xs = [] then [] else take n xs # chunks n (drop n xs))"
  by pat_completeness auto
termination by (relation "measure (\<lambda>(n, xs). length xs)") auto

declare chunks.simps [simp del]

definition attempt_events :: "string \<Rightarrow> http_request \<Rightarrow> int list \<Rightarrow> event list" where
  "attempt_events f req attempts = concat (map (\<lambda>a. [Post f req, Sleep a]) attempts)"

definition posted :: "event list \<Rightarrow> string list" where
  "posted evs = concat (map (\<lambda>e. case e of Post f _ \<Rightarrow> [f] | _ \<Rightarrow> []) evs)"

fun batch_segments ::
  "upload_args \<Rightarrow> dir \<Rightarrow> string \<Rightarrow> (string \<Rightarrow> int \<Rightarrow> outcome)
     \<Rightarrow> (nat \<Rightarrow> string list \<Rightarrow> string list) \<Rightarrow> string list \<Rightarrow> nat \<Rightarrow> string list list
     \<Rightarrow> event list list" where
  "batch_segments a d token net sched files n [] = []"
| "batch_segments a d token net sched files n (b # bs) =
     ([Print (start_msg (Suc n) b files)]
      @ fst (collect (run_file a d token net) (sched (Suc n) b))
      @ (if bs = [] then []
         else [Print (pause_msg (Suc n) (arg_sleep_after a) (int (length (concat bs)))),
               Sleep (arg_sleep_after a)]))
     # batch_segments a d token net sched files (Suc n) bs"

fun batch_results ::
  "upload_args \<Rightarrow> dir \<Rightarrow> string \<Rightarrow> (string \<Rightarrow> int \<Rightarrow> outcome)
     \<Rightarrow> (nat \<Rightarrow> string list \<Rightarrow> string list) \<Rightarrow> nat \<Rightarrow> string list list \<Rightarrow> upload_result list" where
  "batch_results a d token net sched n [] = []"
| "batch_results a d token net sched n (b # bs) =
     snd (collect (run_file a d token net) (sched (Suc n) b))
     @ batch_results a d token net sched (Suc n) bs"

text \<open>The printed line and the recorded tuple of one result, as \<open>collect\<close> builds them.\<close>

definition result_line :: "string \<Rightarrow> worker_result \<Rightarrow> string" where
  "result_line f r =
     f @ '' -> '' @ (if fst r then ''OK'' else ''FAILED'') @ '' '' @ str_status (fst (snd r))"

definition to_result :: "string \<Rightarrow> worker_result \<Rightarrow> upload_result" where
  "to_result f r = (f, fst r, fst (snd r), take 200 (snd (snd r)))"

text \<open>
  The arguments of a run that uploads: not a dry run, a non-empty token, positive batch
  size and pool size, a pause that \<open>time.sleep\<close> accepts. \<open>perm_sched\<close>: the
  completion order of every batch is a permutation of it.
\<close>

definition good_args :: "upload_args \<Rightarrow> string \<Rightarrow> bool" where
  "good_args a token \<longleftrightarrow> \<not> arg_dry_run a \<and> arg_token a = Some token \<and> token \<noteq> []
     \<and> 0 < arg_batch_size a \<and> 0 < arg_concurrency a \<and> 0 \<le> arg_sleep_after a"

definition perm_sched :: "(nat \<Rightarrow> string list \<Rightarrow> string list) \<Rightarrow> bool" where
  "perm_sched sched \<longleftrightarrow> (\<forall>n b. mset (sched n b) = mset b)"

definition is_print :: "event \<Rightarrow> bool" where
  "is_print e \<longleftrightarrow> (case e of Print _ \<Rightarrow> True | _ \<Rightarrow> False)"

subsection \<open>Example inputs\<close>

text \<open>
  A directory of three item files and the archive the rewriter leaves beside them, the
  default arguments of \<open>main\<close> with a batch size of 2, a network on which the first
  attempt for the second file times out, and a pool that completes each batch in reverse.
\<close>

definition ex_dir :: dir where
  "ex_dir = [(''item_notebook_002.json'', Blob [50]), (''item_notebook_001.json'', Blob [49]),
             (''item_notebook_003.json'', Blob [51]), (''updated_items.zip'', Archive [])]"

definition ex_args :: upload_args where
  "ex_args = \<lparr>arg_endpoint = ''https://api.example/items'', arg_token = Some ''tok'',
     arg_src = ''generated_items'', arg_concurrency = 4, arg_retries = 3, arg_dry_run = False,
     arg_batch_size = 2, arg_sleep_after = 45\<rparr>"

definition ex_net :: "string \<Rightarrow> int \<Rightarrow> outcome" where
  "ex_net f a =
     (if f = ''item_notebook_002.json'' \<and> a = 1 then Fault ''Read timed out.'' else Response 201 ''{}'')"

definition ex_sched :: "nat \<Rightarrow> string list \<Rightarrow> string list" where
  "ex_sched n b = rev b"

lemmas ex_defs = ex_dir_def ex_args_def ex_net_def ex_sched_def good_args_def perm_sched_def
  json_files_def glob_suffix_def

section \<open>The retry loop\<close>

lemma worker_loop_all_faults:
  assumes "\<forall>a \<in> set as. net a = Fault (msg a)"
  shows "worker_loop f req net as le =
           (attempt_events f req as,
            (False, None, str_last_exc (if as = [] then le else Some (msg (last as)))))"
  using assms by (induction as arbitrary: le) (simp_all add: attempt_events_def)

lemma worker_loop_first_response:
  assumes "\<forall>a \<in> set pre. net a = Fault (msg a)" and "net k = Response s t"
  shows "worker_loop f req net (pre @ k # post) le =
           (attempt_events f req pre @ [Post f req], (True, Some s, t))"
  using assms by (induction pre arbitrary: le) (simp_all add: attempt_events_def)

lemma worker_loop_posted:
  "as \<noteq> [] \<Longrightarrow> set (posted (fst (worker_loop f req net as le))) = {f}"
proof (induction as arbitrary: le)
  case Nil
  then show ?case by simp
next
  case (Cons a as)
  then show ?case
    by (cases as) (auto simp: posted_def split: outcome.splits prod.splits)
qed

lemma worker_posted:
  "set (posted (fst (worker endpoint token d f retries net))) = (if 1 \<le> retries then {f} else {})"
proof (cases "1 \<le> retries")
  case True
  then have "[1..retries] \<noteq> []" by simp
  then show ?thesis using True by (simp add: worker_def worker_loop_posted)
next
  case False
  then show ?thesis by (simp add: worker_def posted_def)
qed

section \<open>Batching\<close>

lemma chunks_Nil [simp]: "chunks n [] = []"
  by (simp add: chunks.simps)

lemma chunks_Cons: "0 < n \<Longrightarrow> xs \<noteq> [] \<Longrightarrow> chunks n xs = take n xs # chunks n (drop n xs)"
  by (simp add: chunks.simps)

lemma chunks_as_map:
  "0 < n \<Longrightarrow> chunks n xs = map (\<lambda>k. take n (drop (k * n) xs)) [0..<(length xs + n - 1) div n]"
proof (induction n xs rule: chunks.induct)
  case (1 n xs)
  show ?case
  proof (cases "xs = []")
    case True
    with "1.prems" show ?thesis by simp
  next
    case False
    let ?m = "(length (drop n xs) + n - 1) div n"
    have m: "(length xs + n - 1) div n = Suc ?m"
      using False "1.prems" ceil_div_step[of n "length xs"] by simp
    have "chunks n xs = take n xs # map (\<lambda>k. take n (drop (k * n) (drop n xs))) [0..<?m]"
      using "1.IH" "1.prems" False by (simp add: chunks_Cons)
    also have "\<dots> = map (\<lambda>k. take n (drop (k * n) xs)) [0..<Suc ?m]"
      by (simp del: upt_Suc add: map_upt_Suc add.commute)
    finally show ?thesis using m by simp
  qed
qed

lemma concat_chunks: "0 < n \<Longrightarrow> concat (chunks n xs) = xs"
proof (induction n xs rule: chunks.induct)
  case (1 n xs)
  then show ?case by (cases "xs = []") (simp_all add: chunks_Cons)
qed

lemma chunks_elem: "c \<in> set (chunks n xs) \<Longrightarrow> c \<noteq> [] \<and> length c \<le> n"
proof (induction n xs rule: chunks.induct)
  case (1 n xs)
  then show ?case
    by (cases "n = 0 \<or> xs = []") (auto simp: chunks.simps[of n xs])
qed

lemma chunked_pos: "0 < step \<Longrightarrow> chunked xs step = Inr (chunks (nat step) xs)"
proof -
  assume s: "0 < step"
  let ?n = "nat step"
  have slice: "py_slice xs (step * int k) (step * int k + step) = take ?n (drop (k * ?n) xs)"
    if "k < (length xs + ?n - 1) div ?n" for k
  proof -
    have "k * ?n < length xs" using that s by (intro ceil_div_bound) simp_all
    moreover have "step * int k = int (k * ?n)" and "step = int ?n" using s by simp_all
    ultimately show ?thesis by (metis py_slice_nat less_imp_le)
  qed
  show ?thesis
    using s by (simp add: chunked_def py_range_pos chunks_as_map slice)
qed

section \<open>One batch and the batch loop\<close>

lemma collect_eq:
  "collect run ord =
     (concat (map (\<lambda>f. fst (run f) @ [Print (result_line f (snd (run f)))]) ord),
      map (\<lambda>f. to_result f (snd (run f))) ord)"
  by (induction ord) (auto simp: result_line_def to_result_def split: prod.splits)

lemma length_collect: "length (snd (collect run ord)) = length ord"
  by (simp add: collect_eq)

lemma perm_sched_length: "perm_sched sched \<Longrightarrow> length (sched n b) = length b"
  by (metis perm_sched_def size_mset)

lemma run_batches_spec:
  assumes "0 < arg_concurrency a" "0 \<le> arg_sleep_after a"
    and "\<forall>n b. length (sched n b) = length b"
    and "\<forall>b \<in> set bs. b \<noteq> []"
    and "length rs + length (concat bs) = length files"
  shows "run_batches a d token net sched files n bs tr rs =
           (tr @ concat (batch_segments a d token net sched files n bs),
            rs @ batch_results a d token net sched n bs, None)"
  using assms(4,5)
proof (induction bs arbitrary: n tr rs)
  case Nil
  then show ?case by simp
next
  case (Cons b bs)
  obtain evs rs' where c: "collect (run_file a d token net) (sched (Suc n) b) = (evs, rs')"
    by (cases "collect (run_file a d token net) (sched (Suc n) b)")
  have len: "length rs + length rs' + length (concat bs) = length files"
    using Cons.prems assms(3) length_collect[of "run_file a d token net" "sched (Suc n) b"] c
    by simp
  have IH: "run_batches a d token net sched files (Suc n) bs tr' (rs @ rs') =
              (tr' @ concat (batch_segments a d token net sched files (Suc n) bs),
               (rs @ rs') @ batch_results a d token net sched (Suc n) bs, None)" for tr'
    using Cons.IH Cons.prems(1) len by simp
  show ?case
  proof (cases "bs = []")
    case True
    then show ?thesis using len c assms(1) by (simp add: Let_def)
  next
    case False
    then have "0 < length (concat bs)" using Cons.prems(1) by (cases bs) auto
    then have lt: "length rs + length rs' < length files"
      and rv: "int (length files) - (int (length rs) + int (length rs')) = int (length (concat bs))"
      using len by linarith+
    show ?thesis using False c IH lt rv assms(1,2) by (simp add: Let_def)
  qed
qed

lemma upload_main_spec:
  assumes "good_args a token" "perm_sched sched" "json_files d \<noteq> []"
  shows "upload_main a d net sched =
    (let files = json_files d; bs = chunks (nat (arg_batch_size a)) files;
         rs = batch_results a d token net sched 0 bs
     in (concat (batch_segments a d token net sched files 0 bs) @ [Print (summary_msg rs)], rs, None))"
proof -
  let ?files = "json_files d" and ?n = "nat (arg_batch_size a)"
  have n: "0 < ?n" using assms(1) by (simp add: good_args_def)
  have ne: "\<forall>b \<in> set (chunks ?n ?files). b \<noteq> []" using chunks_elem by blast
  have len: "length [] + length (concat (chunks ?n ?files)) = length ?files"
    using n by (simp add: concat_chunks)
  have rb: "run_batches a d token net sched ?files 0 (chunks ?n ?files) [] [] =
      (concat (batch_segments a d token net sched ?files 0 (chunks ?n ?files)),
       batch_results a d token net sched 0 (chunks ?n ?files), None)"
    using run_batches_spec[OF _ _ _ ne len] assms(1,2) perm_sched_length
    by (simp add: good_args_def)
  show ?thesis
    using assms rb by (simp add: upload_main_def good_args_def chunked_pos Let_def)
qed

lemma mset_batch_results:
  "perm_sched sched \<Longrightarrow>
     mset (batch_results a d token net sched n bs) =
     mset (map (\<lambda>f. to_result f (snd (run_file a d token net f))) (concat bs))"
  by (induction bs arbitrary: n) (simp_all add: collect_eq perm_sched_def)


lemma worker_first_response:
  "1 \<le> retries \<Longrightarrow> net 1 = Response s t \<Longrightarrow>
     snd (worker endpoint token d f retries net) = (True, Some s, t)"
  using worker_loop_first_response[of "[]" net _ 1 s t] upto_split_at[of 1 retries]
  by (simp add: worker_def)

lemma length_chunks: "0 < n \<Longrightarrow> length (chunks n xs) = (length xs + n - 1) div n"
  by (simp add: chunks_as_map)

lemma chunks_full:
  assumes "0 < n" "Suc k < length (chunks n xs)"
  shows "length (chunks n xs ! k) = n"
proof -
  have "Suc k * n < length xs"
    using assms by (intro ceil_div_bound) (simp_all add: chunks_as_map)
  then show ?thesis using assms by (simp add: chunks_as_map min_def)
qed

lemma length_batch_segments [simp]: "length (batch_segments a d token net sched files n bs) = length bs"
  by (induction bs arbitrary: n) simp_all

lemma batch_segments_nth:
  "k < length bs \<Longrightarrow> batch_segments a d token net sched files n bs ! k =
     [Print (start_msg (Suc (n + k)) (bs ! k) files)]
     @ fst (collect (run_file a d token net) (sched (Suc (n + k)) (bs ! k)))
     @ (if Suc k < length bs
        then [Print (pause_msg (Suc (n + k)) (arg_sleep_after a) (int (length (concat (drop (Suc k) bs))))),
              Sleep (arg_sleep_after a)]
        else [])"
proof (induction bs arbitrary: n k)
  case Nil
  then show ?case by simp
next
  case (Cons b bs)
  then show ?case by (cases k) (auto simp: drop_Suc)
qed

lemma posted_append [simp]: "posted (xs @ ys) = posted xs @ posted ys"
  by (simp add: posted_def)

lemma posted_simps [simp]:
  "posted [] = []" "posted (Print m # evs) = posted evs" "posted (Sleep t # evs) = posted evs"
  "posted (Post f r # evs) = f # posted evs"
  by (simp_all add: posted_def)

lemma posted_collect_run_file:
  "1 \<le> arg_retries a \<Longrightarrow> set (posted (fst (collect (run_file a d token net) ord))) = set ord"
  by (induction ord) (auto simp: collect_eq run_file_def worker_posted)

lemma ex_main_split:
  "upload_main a d net sched = (fst (upload_main a d net sched), fst (snd (upload_main a d net sched)),
     snd (snd (upload_main a d net sched)))"
  by simp

section \<open>Properties of the uploader\<close>

text \<open>
  C1. A run with usable arguments produces exactly one result per item file, the one the
  file's own worker returned (text cut to 200 characters), ends without an exception, and
  prints the summary last.
\<close>

theorem upload_results_one_per_file:
  assumes "good_args a token" "perm_sched sched" "json_files d \<noteq> []"
    and "upload_main a d net sched = (tr, rs, err)"
  shows "err = None \<and> last tr = Print (summary_msg rs)
         \<and> mset rs = mset (map (\<lambda>f. to_result f (snd (run_file a d token net f))) (json_files d))"
proof -
  let ?bs = "chunks (nat (arg_batch_size a)) (json_files d)"
  have rs: "rs = batch_results a d token net sched 0 ?bs" and "err = None"
    and "last tr = Print (summary_msg rs)"
    using upload_main_spec[OF assms(1-3), of net] assms(4) by (auto simp: Let_def)
  moreover have "concat ?bs = json_files d"
    using assms(1) by (simp add: good_args_def concat_chunks)
  ultimately show ?thesis using mset_batch_results[OF assms(2)] by simp
qed

theorem upload_results_one_per_file_witness:
  "good_args ex_args ''tok'' \<and> perm_sched ex_sched \<and> json_files ex_dir \<noteq> []
   \<and> snd (snd (upload_main ex_args ex_dir ex_net ex_sched)) = None"
proof -
  have h: "good_args ex_args ''tok''" "perm_sched ex_sched" "json_files ex_dir \<noteq> []"
    by (simp_all add: ex_defs)
  show ?thesis using h upload_results_one_per_file[OF h ex_main_split] by simp
qed

text \<open>
  C2. Batches run strictly one after the other: the trace is one segment per batch followed
  by the summary, and the requests posted in segment \<open>k\<close> are for exactly the files of
  batch \<open>k\<close>, so no file of a later batch is posted before every file of an earlier batch
  has finished.
\<close>

theorem upload_batches_sequential:
  assumes "good_args a token" "perm_sched sched" "json_files d \<noteq> []" "1 \<le> arg_retries a"
    and "upload_main a d net sched = (tr, rs, err)"
  shows "\<exists>segs. tr = concat segs @ [Print (summary_msg rs)] \<and> err = None
           \<and> length segs = length (chunks (nat (arg_batch_size a)) (json_files d))
           \<and> (\<forall>k < length segs. set (posted (segs ! k)) = set (chunks (nat (arg_batch_size a)) (json_files d) ! k))"
proof -
  let ?bs = "chunks (nat (arg_batch_size a)) (json_files d)"
  let ?segs = "batch_segments a d token net sched (json_files d) 0 ?bs"
  have tr: "tr = concat ?segs @ [Print (summary_msg rs)]" and err: "err = None"
    using upload_main_spec[OF assms(1-3), of net] assms(5) by (simp_all add: Let_def)
  have "set (posted (?segs ! k)) = set (?bs ! k)" if "k < length ?segs" for k
  proof -
    have "set (sched (Suc k) (?bs ! k)) = set (?bs ! k)"
      using assms(2) by (metis perm_sched_def set_mset_mset)
    then show ?thesis
      using that assms(4) by (simp add: batch_segments_nth posted_collect_run_file)
  qed
  then show ?thesis using tr err by (intro exI[of _ ?segs]) simp
qed

theorem upload_batches_sequential_witness:
  "good_args ex_args ''tok'' \<and> perm_sched ex_sched \<and> json_files ex_dir \<noteq> [] \<and> 1 \<le> arg_retries ex_args
   \<and> (\<exists>segs. fst (upload_main ex_args ex_dir ex_net ex_sched)
          = concat segs @ [Print (summary_msg (fst (snd (upload_main ex_args ex_dir ex_net ex_sched))))]
        \<and> length segs = 2)"
proof -
  have h: "good_args ex_args ''tok''" "perm_sched ex_sched" "json_files ex_dir \<noteq> []"
      "1 \<le> arg_retries ex_args"
    by (simp_all add: ex_defs)
  have l: "length (chunks (nat (arg_batch_size ex_args)) (json_files ex_dir)) = 2"
    by (simp add: ex_defs chunks.simps)
  show ?thesis using h upload_batches_sequential[OF h ex_main_split[of _ _ ex_net]] l by auto
qed

text \<open>
  C3. Each segment is the batch's start line, its workers' events and result lines, and the
  pause (the message with the number of files still to go, then \<open>time.sleep\<close>) exactly when
  another batch follows.
\<close>

theorem upload_pause_between_batches:
  assumes "good_args a token" "perm_sched sched" "json_files d \<noteq> []"
    and "upload_main a d net sched = (tr, rs, err)"
  shows "\<exists>segs. tr = concat segs @ [Print (summary_msg rs)]
     \<and> length segs = length (chunks (nat (arg_batch_size a)) (json_files d))
     \<and> (\<forall>k < length segs. segs ! k =
           [Print (start_msg (Suc k) (chunks (nat (arg_batch_size a)) (json_files d) ! k) (json_files d))]
           @ fst (collect (run_file a d token net)
                   (sched (Suc k) (chunks (nat (arg_batch_size a)) (json_files d) ! k)))
           @ (if Suc k < length segs
              then [Print (pause_msg (Suc k) (arg_sleep_after a)
                     (int (length (concat (drop (Suc k) (chunks (nat (arg_batch_size a)) (json_files d))))))),
                    Sleep (arg_sleep_after a)]
              else []))"
proof -
  let ?bs = "chunks (nat (arg_batch_size a)) (json_files d)"
  let ?segs = "batch_segments a d token net sched (json_files d) 0 ?bs"
  have "tr = concat ?segs @ [Print (summary_msg rs)]"
    using upload_main_spec[OF assms(1-3), of net] assms(4) by (simp add: Let_def)
  then show ?thesis by (intro exI[of _ ?segs]) (simp add: batch_segments_nth)
qed

theorem upload_pause_between_batches_witness:
  "good_args ex_args ''tok'' \<and> perm_sched ex_sched \<and> json_files ex_dir \<noteq> []
   \<and> (\<exists>segs. fst (upload_main ex_args ex_dir ex_net ex_sched)
          = concat segs @ [Print (summary_msg (fst (snd (upload_main ex_args ex_dir ex_net ex_sched))))]
        \<and> length segs = 2)"
proof -
  have h: "good_args ex_args ''tok''" "perm_sched ex_sched" "json_files ex_dir \<noteq> []"
    by (simp_all add: ex_defs)
  have l: "length (chunks (nat (arg_batch_size ex_args)) (json_files ex_dir)) = 2"
    by (simp add: ex_defs chunks.simps)
  show ?thesis using h upload_pause_between_batches[OF h ex_main_split] l by auto
qed

text \<open>
  C4. A file whose every attempt raises a transport fault is posted exactly \<open>retries\<close>
  times, with a backoff of \<open>a\<close> seconds after attempt \<open>a\<close> (the last one included), and is
  reported failed with the last fault's message.
\<close>

theorem worker_exhausts_retries:
  assumes "1 \<le> retries" and "\<forall>a. 1 \<le> a \<and> a \<le> retries \<longrightarrow> net a = Fault (msg a)"
  shows "worker endpoint token d f retries net =
           (attempt_events f (post_item endpoint token d f 30) [1..retries],
            (False, None, msg retries))"
proof -
  have "\<forall>a \<in> set [1..retries]. net a = Fault (msg a)" using assms(2) by simp
  moreover have "last [1..retries] = retries" using assms(1)
    by (metis upto_split_at[OF assms(1) order.refl] last_snoc upto_empty diff_add_cancel append.right_neutral
         le_less_trans less_add_one not_le)
  ultimately show ?thesis
    using worker_loop_all_faults[of "[1..retries]" net msg] assms(1) by (simp add: worker_def str_last_exc_def)
qed

theorem worker_exhausts_retries_witness:
  "1 \<le> (3::int)
   \<and> snd (worker ''https://api.example/items'' ''tok'' [] ''item_a.json'' 3 (\<lambda>_. Fault ''Connection refused''))
       = (False, None, ''Connection refused'')"
proof -
  have h: "1 \<le> (3::int)"
    "\<forall>a. 1 \<le> a \<and> a \<le> 3 \<longrightarrow> (\<lambda>_. Fault ''Connection refused'') a = Fault ((\<lambda>_. ''Connection refused'') a)"
    by simp_all
  show ?thesis using worker_exhausts_retries[OF h, of "''https://api.example/items''" "''tok''"
      "[]" "''item_a.json''"] by simp
qed

text \<open>
  C5. A file whose first response comes at attempt \<open>k \<le> retries\<close> is posted \<open>k\<close> times and
  reported with that response's status and text; it is not retried further.
\<close>

theorem worker_succeeds_at:
  assumes "1 \<le> k" "k \<le> retries"
    and "\<forall>a. 1 \<le> a \<and> a < k \<longrightarrow> net a = Fault (msg a)" and "net k = Response s t"
  shows "worker endpoint token d f retries net =
           (attempt_events f (post_item endpoint token d f 30) [1..k - 1] @
              [Post f (post_item endpoint token d f 30)],
            (True, Some s, t))"
proof -
  have "\<forall>a \<in> set [1..k - 1]. net a = Fault (msg a)" using assms(3) by simp
  then show ?thesis
    using worker_loop_first_response[of "[1..k - 1]" net msg k s t] assms
    by (simp add: worker_def upto_split_at[OF assms(1,2)])
qed

theorem worker_succeeds_at_witness:
  "1 \<le> (2::int) \<and> 2 \<le> arg_retries ex_args
   \<and> ex_net ''item_notebook_002.json'' 1 = Fault ''Read timed out.''
   \<and> ex_net ''item_notebook_002.json'' 2 = Response 201 ''{}''
   \<and> snd (worker ''https://api.example/items'' ''tok'' [(''item_notebook_002.json'', Blob [50])]
          ''item_notebook_002.json'' (arg_retries ex_args)
          (ex_net ''item_notebook_002.json'')) = (True, Some 201, ''{}'')"
proof -
  have h: "1 \<le> (2::int)" "2 \<le> arg_retries ex_args"
    "\<forall>a. 1 \<le> a \<and> a < 2 \<longrightarrow> ex_net ''item_notebook_002.json'' a = Fault ((\<lambda>_. ''Read timed out.'') a)"
    "ex_net ''item_notebook_002.json'' 2 = Response 201 ''{}''"
    by (auto simp: ex_defs)
  have "ex_net ''item_notebook_002.json'' 1 = Fault ''Read timed out.''" by (simp add: ex_defs)
  then show ?thesis using h worker_succeeds_at[OF h, of "''https://api.example/items''" "''tok''"
      "[(''item_notebook_002.json'', Blob [50])]" "''item_notebook_002.json''"] by simp
qed

text \<open>
  C6. \<open>chunked\<close> (a \<open>range\<close> of start indices and slices) is the plain cut into
  consecutive chunks for a positive size, raises on size 0 and yields nothing for a negative
  size.
\<close>

theorem chunked_spec:
  "chunked xs step =
     (if step = 0 then Inl RangeStepZero else if step < 0 then Inr [] else Inr (chunks (nat step) xs))"
proof (cases step "0::int" rule: linorder_cases)
  case less
  then show ?thesis by (simp add: chunked_def py_range_neg)
next
  case equal
  then show ?thesis by (simp add: chunked_def py_range_def)
next
  case greater
  then show ?thesis by (simp add: chunked_pos)
qed

text \<open>
  C7. For a positive size the batches are non-empty, at most \<open>size\<close> long, all but the
  last exactly \<open>size\<close> long, \<open>ceil(n / size)\<close> of them, and together they are the files in
  order.
\<close>

theorem chunked_shape:
  assumes "0 < step" "chunked xs step = Inr bs"
  shows "concat bs = xs \<and> (\<forall>b \<in> set bs. b \<noteq> [] \<and> length b \<le> nat step)
         \<and> length bs = (length xs + nat step - 1) div nat step
         \<and> (\<forall>k. Suc k < length bs \<longrightarrow> length (bs ! k) = nat step)"
proof -
  have bs: "bs = chunks (nat step) xs" and n: "0 < nat step"
    using assms by (simp_all add: chunked_pos)
  show ?thesis
    using n chunks_elem[of _ "nat step" xs] chunks_full[OF n, of _ xs]
    by (simp add: bs concat_chunks length_chunks)
qed

theorem chunked_shape_witness:
  "0 < (50::int) \<and> chunked [1..125::int] 50 = Inr [[1..50], [51..100], [101..125]]
   \<and> map length [[1..50], [51..100], [101..125::int]] = [50, 50, 25]"
proof -
  have "chunked [1..125::int] 50 = Inr [[1..50], [51..100], [101..125]]"
    by code_simp
  then show ?thesis using chunked_shape[of 50 "[1..125::int]"] by simp
qed

text \<open>
  C8. A dry run only prints: the count line, at most ten names and the batch settings; no
  request, no sleep, no result.
\<close>

theorem upload_dry_run_offline:
  assumes "arg_dry_run a" "json_files d \<noteq> []" "upload_main a d net sched = (tr, rs, err)"
  shows "(\<forall>e \<in> set tr. is_print e) \<and> rs = [] \<and> err = None
         \<and> length tr = min 10 (length (json_files d)) + 2"
  using assms by (auto simp: upload_main_def dry_run_trace_def is_print_def Let_def)

theorem upload_dry_run_offline_witness:
  "arg_dry_run (ex_args\<lparr>arg_dry_run := True\<rparr>) \<and> json_files ex_dir \<noteq> []
   \<and> fst (snd (upload_main (ex_args\<lparr>arg_dry_run := True\<rparr>) ex_dir ex_net ex_sched)) = []"
proof -
  have h: "arg_dry_run (ex_args\<lparr>arg_dry_run := True\<rparr>)" "json_files ex_dir \<noteq> []"
    by (simp_all add: ex_defs)
  show ?thesis using h upload_dry_run_offline[OF h ex_main_split] by simp
qed

text \<open>
  C9. Without a token (absent or empty) a real run prints the error and posts nothing.
\<close>

theorem upload_missing_token:
  assumes "\<not> arg_dry_run a" "json_files d \<noteq> []" "arg_token a \<in> {None, Some []}"
  shows "upload_main a d net sched = ([Print ''Error: --token is required for actual upload''], [], None)"
  using assms by (auto simp: upload_main_def)

theorem upload_missing_token_witness:
  "\<not> arg_dry_run (ex_args\<lparr>arg_token := None\<rparr>) \<and> json_files ex_dir \<noteq> []
   \<and> arg_token (ex_args\<lparr>arg_token := None\<rparr>) \<in> {None, Some []}
   \<and> fst (upload_main (ex_args\<lparr>arg_token := None\<rparr>) ex_dir ex_net ex_sched)
       = [Print ''Error: --token is required for actual upload'']"
proof -
  have h: "\<not> arg_dry_run (ex_args\<lparr>arg_token := None\<rparr>)" "json_files ex_dir \<noteq> []"
    "arg_token (ex_args\<lparr>arg_token := None\<rparr>) \<in> {None, Some []}"
    by (simp_all add: ex_defs)
  show ?thesis using h upload_missing_token[OF h] by simp
qed

text \<open>
  C10. A batch size of 0 makes \<open>range\<close> raise before any request is made.
\<close>

theorem upload_zero_batch_size:
  assumes "\<not> arg_dry_run a" "json_files d \<noteq> []" "arg_token a = Some token" "token \<noteq> []"
    and "arg_batch_size a = 0"
  shows "upload_main a d net sched = ([], [], Some RangeStepZero)"
  using assms by (simp add: upload_main_def chunked_def py_range_def)

theorem upload_zero_batch_size_witness:
  "\<not> arg_dry_run (ex_args\<lparr>arg_batch_size := 0\<rparr>) \<and> json_files ex_dir \<noteq> []
   \<and> arg_token (ex_args\<lparr>arg_batch_size := 0\<rparr>) = Some ''tok'' \<and> ''tok'' \<noteq> []
   \<and> arg_batch_size (ex_args\<lparr>arg_batch_size := 0\<rparr>) = 0
   \<and> snd (snd (upload_main (ex_args\<lparr>arg_batch_size := 0\<rparr>) ex_dir ex_net ex_sched)) = Some RangeStepZero"
proof -
  have h: "\<not> arg_dry_run (ex_args\<lparr>arg_batch_size := 0\<rparr>)" "json_files ex_dir \<noteq> []"
    "arg_token (ex_args\<lparr>arg_batch_size := 0\<rparr>) = Some ''tok''" "''tok'' \<noteq> []"
    "arg_batch_size (ex_args\<lparr>arg_batch_size := 0\<rparr>) = 0"
    by (simp_all add: ex_defs)
  show ?thesis using h upload_zero_batch_size[OF h] by simp
qed

text \<open>
  C11. A pool size \<open>\<le> 0\<close> makes \<open>ThreadPoolExecutor\<close> raise right after the first start
  line, before any request.
\<close>

theorem upload_no_workers:
  assumes "\<not> arg_dry_run a" "json_files d \<noteq> []" "arg_token a = Some token" "token \<noteq> []"
    and "0 < arg_batch_size a" "arg_concurrency a \<le> 0"
  shows "upload_main a d net sched =
    ([Print (start_msg 1 (take (nat (arg_batch_size a)) (json_files d)) (json_files d))], [],
     Some MaxWorkersNotPositive)"
  using assms by (simp add: upload_main_def chunked_pos chunks_Cons Let_def)

theorem upload_no_workers_witness:
  "\<not> arg_dry_run (ex_args\<lparr>arg_concurrency := 0\<rparr>) \<and> json_files ex_dir \<noteq> []
   \<and> arg_token (ex_args\<lparr>arg_concurrency := 0\<rparr>) = Some ''tok'' \<and> ''tok'' \<noteq> []
   \<and> 0 < arg_batch_size (ex_args\<lparr>arg_concurrency := 0\<rparr>) \<and> arg_concurrency (ex_args\<lparr>arg_concurrency := 0\<rparr>) \<le> 0
   \<and> snd (snd (upload_main (ex_args\<lparr>arg_concurrency := 0\<rparr>) ex_dir ex_net ex_sched)) = Some MaxWorkersNotPositive"
proof -
  have h: "\<not> arg_dry_run (ex_args\<lparr>arg_concurrency := 0\<rparr>)" "json_files ex_dir \<noteq> []"
    "arg_token (ex_args\<lparr>arg_concurrency := 0\<rparr>) = Some ''tok''" "''tok'' \<noteq> []"
    "0 < arg_batch_size (ex_args\<lparr>arg_concurrency := 0\<rparr>)" "arg_concurrency (ex_args\<lparr>arg_concurrency := 0\<rparr>) \<le> 0"
    by (simp_all add: ex_defs)
  show ?thesis using h upload_no_workers[OF h] by simp
qed

text \<open>
  C12. A response is a success whatever its status: when every file gets a response on its
  first attempt (say HTTP 500), the summary reports all files uploaded.
\<close>

theorem upload_counts_http_errors_as_uploaded:
  assumes "good_args a token" "perm_sched sched" "json_files d \<noteq> []" "1 \<le> arg_retries a"
    and "\<forall>f. \<exists>s t. net f 1 = Response s t"
    and "upload_main a d net sched = (tr, rs, err)"
  shows "last tr = Print (''Uploaded '' @ py_str_of_nat (length (json_files d)) @ ''/''
                          @ py_str_of_nat (length (json_files d)) @ '' items'')"
proof -
  let ?bs = "chunks (nat (arg_batch_size a)) (json_files d)"
  have rs: "rs = batch_results a d token net sched 0 ?bs" and tr: "last tr = Print (summary_msg rs)"
    using upload_main_spec[OF assms(1-3), of net] assms(6) by (auto simp: Let_def)
  have "concat ?bs = json_files d"
    using assms(1) by (simp add: good_args_def concat_chunks)
  then have m: "mset rs = mset (map (\<lambda>f. to_result f (snd (run_file a d token net f))) (json_files d))"
    using rs mset_batch_results[OF assms(2)] by simp
  have ok: "fst (snd (to_result f (snd (run_file a d token net f))))" for f
  proof -
    obtain s t where "net f 1 = Response s t" using assms(5) by blast
    then show ?thesis
      using assms(4) by (simp add: run_file_def to_result_def worker_first_response)
  qed
  have "\<forall>r \<in> set rs. fst (snd r)" using mset_eq_setD[OF m] ok by auto
  moreover have "length rs = length (json_files d)" using m by (metis length_map size_mset)
  ultimately show ?thesis using tr by (simp add: summary_msg_def)
qed

theorem upload_counts_http_errors_as_uploaded_witness:
  "good_args ex_args ''tok'' \<and> perm_sched ex_sched \<and> json_files ex_dir \<noteq> [] \<and> 1 \<le> arg_retries ex_args
   \<and> (\<forall>f. \<exists>s t. (\<lambda>f a. Response 500 ''Internal Server Error'') f 1 = Response s t)
   \<and> last (fst (upload_main ex_args ex_dir (\<lambda>f a. Response 500 ''Internal Server Error'') ex_sched))
       = Print ''Uploaded 3/3 items''"
proof -
  have h: "good_args ex_args ''tok''" "perm_sched ex_sched" "json_files ex_dir \<noteq> []"
    "1 \<le> arg_retries ex_args" "\<forall>f. \<exists>s t. (\<lambda>f a. Response 500 ''Internal Server Error'') f 1 = Response s t"
    by (simp_all add: ex_defs)
  have n: "length (json_files ex_dir) = 3" by (simp add: ex_defs)
  show ?thesis using h upload_counts_http_errors_as_uploaded[OF h ex_main_split] n by (simp add: py_simps)
qed

text \<open>
  C13. With \<open>retries \<le> 0\<close> the worker makes no attempt and reports failure with the
  message \<open>"None"\<close> (\<open>str(None)\<close>).
\<close>

theorem worker_no_attempts:
  "retries \<le> 0 \<Longrightarrow> worker endpoint token d f retries net = ([], (False, None, ''None''))"
  by (simp add: worker_def str_last_exc_def)

theorem worker_no_attempts_witness:
  "(0::int) \<le> 0 \<and> worker ''https://api.example/items'' ''tok'' [] ''item_a.json'' 0 (\<lambda>_. Response 201 ''{}'')
     = ([], (False, None, ''None''))"
  using worker_no_attempts[of 0] by simp

text \<open>
  C14. A negative batch size yields no batch: nothing is posted and the run reports
  \<open>Uploaded 0/0 items\<close>.
\<close>

theorem upload_negative_batch_size:
  assumes "\<not> arg_dry_run a" "json_files d \<noteq> []" "arg_token a = Some token" "token \<noteq> []"
    and "arg_batch_size a < 0"
  shows "upload_main a d net sched = ([Print ''Uploaded 0/0 items''], [], None)"
  using assms by (simp add: upload_main_def chunked_def py_range_neg summary_msg_def py_simps)

theorem upload_negative_batch_size_witness:
  "\<not> arg_dry_run (ex_args\<lparr>arg_batch_size := -1\<rparr>) \<and> json_files ex_dir \<noteq> []
   \<and> arg_token (ex_args\<lparr>arg_batch_size := -1\<rparr>) = Some ''tok'' \<and> ''tok'' \<noteq> []
   \<and> arg_batch_size (ex_args\<lparr>arg_batch_size := -1\<rparr>) < 0
   \<and> upload_main (ex_args\<lparr>arg_batch_size := -1\<rparr>) ex_dir ex_net ex_sched = ([Print ''Uploaded 0/0 items''], [], None)"
proof -
  have h: "\<not> arg_dry_run (ex_args\<lparr>arg_batch_size := -1\<rparr>)" "json_files ex_dir \<noteq> []"
    "arg_token (ex_args\<lparr>arg_batch_size := -1\<rparr>) = Some ''tok''" "''tok'' \<noteq> []"
    "arg_batch_size (ex_args\<lparr>arg_batch_size := -1\<rparr>) < 0"
    by (simp_all add: ex_defs)
  show ?thesis using h upload_negative_batch_size[OF h] by simp
qed

text \<open>
  C15. A negative pause is accepted by the parser; when a second batch follows, the run
  uploads the first batch and then dies in \<open>time.sleep\<close>, before the summary.
\<close>

theorem upload_negative_pause_stops:
  assumes "\<not> arg_dry_run a" "arg_token a = Some token" "token \<noteq> []"
    and "0 < arg_batch_size a" "0 < arg_concurrency a" "arg_sleep_after a < 0"
    and "perm_sched sched" "nat (arg_batch_size a) < length (json_files d)"
  shows "\<exists>tr. upload_main a d net sched =
     (tr, snd (collect (run_file a d token net) (sched 1 (take (nat (arg_batch_size a)) (json_files d)))),
      Some NegativeSleep)"
proof -
  let ?n = "nat (arg_batch_size a)" and ?files = "json_files d"
  let ?b = "take ?n ?files"
  have ne: "?files \<noteq> []" using assms(8) by auto
  obtain evs rs' where c: "collect (run_file a d token net) (sched 1 ?b) = (evs, rs')"
    by (cases "collect (run_file a d token net) (sched 1 ?b)")
  have "length rs' = ?n"
    using c assms(7,8) length_collect[of "run_file a d token net" "sched 1 ?b"]
    by (simp add: perm_sched_length)
  then have rem: "0 < int (length ?files) - int (length rs')" using assms(8) by linarith
  have rb: "run_batches a d token net sched ?files 0 (?b # chunks ?n (drop ?n ?files)) [] [] =
      ([Print (start_msg 1 ?b ?files)] @ evs
         @ [Print (pause_msg 1 (arg_sleep_after a) (int (length ?files) - int (length rs')))],
       rs', Some NegativeSleep)"
    using c rem assms(5,6) by (simp add: Let_def)
  show ?thesis
    using assms(1-4) ne rb c by (simp add: upload_main_def chunked_pos chunks_Cons Let_def)
qed

theorem upload_negative_pause_stops_witness:
  "\<not> arg_dry_run (ex_args\<lparr>arg_sleep_after := -1\<rparr>) \<and> arg_token (ex_args\<lparr>arg_sleep_after := -1\<rparr>) = Some ''tok''
   \<and> ''tok'' \<noteq> [] \<and> 0 < arg_batch_size (ex_args\<lparr>arg_sleep_after := -1\<rparr>)
   \<and> 0 < arg_concurrency (ex_args\<lparr>arg_sleep_after := -1\<rparr>) \<and> arg_sleep_after (ex_args\<lparr>arg_sleep_after := -1\<rparr>) < 0
   \<and> perm_sched ex_sched \<and> nat (arg_batch_size (ex_args\<lparr>arg_sleep_after := -1\<rparr>)) < length (json_files ex_dir)
   \<and> snd (snd (upload_main (ex_args\<lparr>arg_sleep_after := -1\<rparr>) ex_dir ex_net ex_sched)) = Some NegativeSleep"
proof -
  have h: "\<not> arg_dry_run (ex_args\<lparr>arg_sleep_after := -1\<rparr>)" "arg_token (ex_args\<lparr>arg_sleep_after := -1\<rparr>) = Some ''tok''"
    "''tok'' \<noteq> []" "0 < arg_batch_size (ex_args\<lparr>arg_sleep_after := -1\<rparr>)"
    "0 < arg_concurrency (ex_args\<lparr>arg_sleep_after := -1\<rparr>)" "arg_sleep_after (ex_args\<lparr>arg_sleep_after := -1\<rparr>) < 0"
    "perm_sched ex_sched" "nat (arg_batch_size (ex_args\<lparr>arg_sleep_after := -1\<rparr>)) < length (json_files ex_dir)"
    by (simp_all add: ex_defs)
  show ?thesis using h upload_negative_pause_stops[OF h, of ex_net] by auto
qed

end
