(* ===== verification/Json.thy ===== *)
theory Json
  imports Prelude
begin

text \<open>
  JSON values as the scripts build them (Python dicts keep insertion order, so an object is
  an association list), and the two serialisations they use: \<open>json.dump(obj, f,
  indent=2)\<close> for every file they write and \<open>json.dumps(obj, separators=(",", ":"))\<close>
  for the platform metadata. Both are \<open>json\<close>'s default encoder with
  \<open>ensure_ascii=True\<close>: strings are quoted with the escapes of
  \<open>encode_basestring_ascii\<close>. A reference decoder \<open>json_load\<close> models
  \<open>json.load\<close>; the lemmas show that the indented output is ASCII and that
  \<open>json_load\<close> reads every written file back as the value written.
\<close>

datatype json =
    JNull
  | JBool bool
  | JInt int
  | JStr string
  | JArr "json list"
  | JObj "(string \<times> json) list"

section \<open>String escapes (encode_basestring_ascii)\<close>

definition hex_digit :: "nat \<Rightarrow> char" where
  "hex_digit d = ''0123456789abcdef'' ! d"

text \<open>\<open>"\\u%04x" % n\<close> for a code point below 256.\<close>

definition u_escape :: "char \<Rightarrow> string" where
  "u_escape c = [CHR 0x5C, CHR ''u'', CHR ''0'', CHR ''0'',
                 hex_digit (of_char c div 16), hex_digit (of_char c mod 16)]"

text \<open>The escape of one character; \<open>CHR 0x5C\<close> is the backslash, \<open>CHR 0x22\<close> the quote.\<close>

definition json_esc_char :: "char \<Rightarrow> string" where
  "json_esc_char c =
     (if c = CHR 0x5C then [CHR 0x5C, CHR 0x5C]
      else if c = CHR 0x22 then [CHR 0x5C, CHR 0x22]
      else if c = CHR 0x0A then [CHR 0x5C, CHR ''n'']
      else if c = CHR 0x0D then [CHR 0x5C, CHR ''r'']
      else if c = CHR 0x09 then [CHR 0x5C, CHR ''t'']
      else if c = CHR 0x08 then [CHR 0x5C, CHR ''b'']
      else if c = CHR 0x0C then [CHR 0x5C, CHR ''f'']
      else if of_char c < (32::nat) \<or> (126::nat) < of_char c then u_escape c
      else [c])"

definition json_quote :: "string \<Rightarrow> string" where
  "json_quote s = CHR 0x22 # concat (map json_esc_char s) @ [CHR 0x22]"

section \<open>Serialisers\<close>

definition join :: "string \<Rightarrow> string list \<Rightarrow> string" where
  "join sep xs = (case xs of [] \<Rightarrow> [] | x # ys \<Rightarrow> x @ concat (map (\<lambda>y. sep @ y) ys))"

definition json_scalar :: "json \<Rightarrow> string" where
  "json_scalar v =
     (case v of JNull \<Rightarrow> ''null'' | JBool b \<Rightarrow> (if b then ''true'' else ''false'')
      | JInt i \<Rightarrow> py_str_of_int i | JStr s \<Rightarrow> json_quote s | _ \<Rightarrow> [])"

text \<open>\<open>json.dumps(v, separators=(",", ":"))\<close>.\<close>

fun dumps_compact :: "json \<Rightarrow> string" where
  "dumps_compact (JArr vs) = ''['' @ join '','' (map dumps_compact vs) @ '']''"
| "dumps_compact (JObj kvs) =
     ''{'' @ join '','' (map (\<lambda>(k, v). json_quote k @ '':'' @ dumps_compact v) kvs) @ ''}''"
| "dumps_compact v = json_scalar v"

text \<open>
  \<open>json.dump(v, f, indent=2)\<close> at nesting level \<open>lvl\<close>: an empty list or object is
  \<open>[]\<close>/\<open>{}\<close>; otherwise each item goes on its own line indented by \<open>2 * (lvl + 1)\<close>
  spaces, items are separated by \<open>","\<close> and keys by \<open>": "\<close>, and the closing bracket
  goes on a line indented by \<open>2 * lvl\<close>.
\<close>

definition newline_indent :: "nat \<Rightarrow> string" where
  "newline_indent lvl = CHR 0x0A # replicate (2 * lvl) CHR '' ''"

fun dumps_indent :: "nat \<Rightarrow> json \<Rightarrow> string" where
  "dumps_indent lvl (JArr vs) =
     (if vs = [] then ''[]''
      else ''['' @ newline_indent (Suc lvl)
           @ join ('','' @ newline_indent (Suc lvl)) (map (dumps_indent (Suc lvl)) vs)
           @ newline_indent lvl @ '']'')"
| "dumps_indent lvl (JObj kvs) =
     (if kvs = [] then ''{}''
      else ''{'' @ newline_indent (Suc lvl)
           @ join ('','' @ newline_indent (Suc lvl))
                (map (\<lambda>(k, v). json_quote k @ '': '' @ dumps_indent (Suc lvl) v) kvs)
           @ newline_indent lvl @ ''}'')"
| "dumps_indent lvl v = json_scalar v"

text \<open>
  What \<open>json.dump(obj, f, indent=2)\<close> leaves in a file opened with
  \<open>encoding="utf-8"\<close>: the serialisation, encoded.
\<close>

definition json_file :: "json \<Rightarrow> bytes" where
  "json_file v = utf8_encode (dumps_indent 0 v)"

text \<open>Member lookup in an object, as \<open>obj[k]\<close> reads the value of the last write.\<close>

definition json_get :: "json \<Rightarrow> string \<Rightarrow> json option" where
  "json_get v k = (case v of JObj kvs \<Rightarrow> map_of (rev kvs) k | _ \<Rightarrow> None)"

section \<open>Reading back: json.loads\<close>

text \<open>
  A reference decoder for the JSON text the scripts write, following \<open>json.loads\<close>
  (\<open>json.scanner\<close> and \<open>json.decoder\<close>): whitespace is space, newline, carriage
  return and tab; strings take the backslash escapes of a quote, a backslash, \<open>/\<close>,
  \<open>b f n r t\<close>, and \<open>u\<close> with four hex digits for the code points a \<open>char\<close> holds, and reject raw control characters;
  an integer has no leading zero. The \<open>json\<close> type has no floats, so a fraction or
  exponent is left unread and the text is rejected. The recursion over nesting and over
  the items of a container is bounded by a fuel argument; \<open>json_loads\<close> gives the
  length of the text plus one, which the lemmas show is always enough for text
  written by \<open>dumps_indent\<close>.
\<close>

definition is_ws :: "char \<Rightarrow> bool" where
  "is_ws c \<longleftrightarrow> c = CHR '' '' \<or> c = CHR 0x0A \<or> c = CHR 0x0D \<or> c = CHR 0x09"

definition skip_ws :: "string \<Rightarrow> string" where
  "skip_ws s = dropWhile is_ws s"

definition hex_val :: "char \<Rightarrow> nat option" where
  "hex_val c =
     (if is_digit c then Some (of_char c - 48)
      else if CHR ''a'' \<le> c \<and> c \<le> CHR ''f'' then Some (of_char c - 87)
      else if CHR ''A'' \<le> c \<and> c \<le> CHR ''F'' then Some (of_char c - 55)
      else None)"

definition unescape :: "char \<Rightarrow> char option" where
  "unescape e =
     (if e = CHR 0x22 then Some (CHR 0x22) else if e = CHR 0x5C then Some (CHR 0x5C)
      else if e = CHR ''/'' then Some (CHR ''/'') else if e = CHR ''b'' then Some (CHR 0x08)
      else if e = CHR ''f'' then Some (CHR 0x0C) else if e = CHR ''n'' then Some (CHR 0x0A)
      else if e = CHR ''r'' then Some (CHR 0x0D) else if e = CHR ''t'' then Some (CHR 0x09)
      else None)"

definition hex4 :: "string \<Rightarrow> char option" where
  "hex4 s =
     (case map hex_val s of
        [Some 0, Some 0, Some h, Some l] \<Rightarrow> Some (char_of (16 * h + l))
      | _ \<Rightarrow> None)"

fun parse_str :: "string \<Rightarrow> (string \<times> string) option" where
  "parse_str [] = None"
| "parse_str (c # s) =
     (if c = CHR 0x22 then Some ([], s)
      else if c = CHR 0x5C then
        (case s of
           [] \<Rightarrow> None
         | e # s' \<Rightarrow>
             (case (if e = CHR ''u'' then hex4 (take 4 s') else unescape e) of
                None \<Rightarrow> None
              | Some x \<Rightarrow> map_option (\<lambda>(t, r). (x # t, r))
                            (parse_str (if e = CHR ''u'' then drop 4 s' else s'))))
      else if of_char c < (32::nat) then None
      else map_option (\<lambda>(t, r). (c # t, r)) (parse_str s))"

definition expect :: "char \<Rightarrow> string \<Rightarrow> string option" where
  "expect c s = (case skip_ws s of d # r \<Rightarrow> if d = c then Some r else None | [] \<Rightarrow> None)"

definition parse_nat :: "string \<Rightarrow> (nat \<times> string) option" where
  "parse_nat t =
     (let ds = (if t \<noteq> [] \<and> hd t = CHR ''0'' then ''0'' else takeWhile is_digit t)
      in if ds = [] then None else Some (dec_value ds, drop (length ds) t))"

definition parse_int :: "string \<Rightarrow> (json \<times> string) option" where
  "parse_int s =
     (case s of
        [] \<Rightarrow> None
      | c # t \<Rightarrow>
          if c = CHR ''-'' then map_option (\<lambda>(k, r). (JInt (- int k), r)) (parse_nat t)
          else map_option (\<lambda>(k, r). (JInt (int k), r)) (parse_nat s))"

fun parse_val :: "nat \<Rightarrow> string \<Rightarrow> (json \<times> string) option"
and parse_elems :: "nat \<Rightarrow> string \<Rightarrow> (json list \<times> string) option"
and parse_members :: "nat \<Rightarrow> string \<Rightarrow> ((string \<times> json) list \<times> string) option" where
  "parse_val 0 s = None"
| "parse_val (Suc n) s =
     (case skip_ws s of
        [] \<Rightarrow> None
      | c # r \<Rightarrow>
          if c = CHR ''['' then
            (case expect CHR '']'' r of
               Some r' \<Rightarrow> Some (JArr [], r')
             | None \<Rightarrow> map_option (\<lambda>(vs, r'). (JArr vs, r')) (parse_elems n r))
          else if c = CHR ''{'' then
            (case expect CHR ''}'' r of
               Some r' \<Rightarrow> Some (JObj [], r')
             | None \<Rightarrow> map_option (\<lambda>(kvs, r'). (JObj kvs, r')) (parse_members n r))
          else if c = CHR 0x22 then map_option (\<lambda>(t, r'). (JStr t, r')) (parse_str r)
          else if c # take 3 r = ''null'' then Some (JNull, drop 3 r)
          else if c # take 3 r = ''true'' then Some (JBool True, drop 3 r)
          else if c # take 4 r = ''false'' then Some (JBool False, drop 4 r)
          else parse_int (c # r))"
| "parse_elems 0 s = None"
| "parse_elems (Suc n) s =
     (case parse_val n s of
        None \<Rightarrow> None
      | Some (v, r) \<Rightarrow>
          (case expect CHR '','' r of
             Some r' \<Rightarrow> map_option (\<lambda>(vs, r''). (v # vs, r'')) (parse_elems n r')
           | None \<Rightarrow> map_option (\<lambda>r'. ([v], r')) (expect CHR '']'' r)))"
| "parse_members 0 s = None"
| "parse_members (Suc n) s =
     (case expect (CHR 0x22) s of
        None \<Rightarrow> None
      | Some r \<Rightarrow>
          (case parse_str r of
             None \<Rightarrow> None
           | Some (k, r1) \<Rightarrow>
               (case expect CHR '':'' r1 of
                  None \<Rightarrow> None
                | Some r2 \<Rightarrow>
                    (case parse_val n r2 of
                       None \<Rightarrow> None
                     | Some (v, r3) \<Rightarrow>
                         (case expect CHR '','' r3 of
                            Some r4 \<Rightarrow> map_option (\<lambda>(kvs, r5). ((k, v) # kvs, r5)) (parse_members n r4)
                          | None \<Rightarrow> map_option (\<lambda>r4. ([(k, v)], r4)) (expect CHR ''}'' r3))))))"

definition json_loads :: "string \<Rightarrow> json option" where
  "json_loads s =
     (case parse_val (Suc (length s)) s of
        Some (v, r) \<Rightarrow> if skip_ws r = [] then Some v else None
      | None \<Rightarrow> None)"

definition json_load :: "bytes \<Rightarrow> json option" where
  "json_load bs = (case ascii_decode bs of Some s \<Rightarrow> json_loads s | None \<Rightarrow> None)"

section \<open>Lemmas: the output is ASCII and reads back\<close>

lemma hex_val_hex_digit_all: "list_all (\<lambda>d. hex_val (hex_digit d) = Some d) [0..<16]"
  by code_simp

lemma hex_val_hex_digit: "d < 16 \<Longrightarrow> hex_val (hex_digit d) = Some d"
  using hex_val_hex_digit_all by (simp add: list_all_iff)

lemma hex_val_0: "hex_val CHR ''0'' = Some 0"
  by (simp add: hex_val_def is_digit_def)

lemma hex4_u_escape: "hex4 (take 4 (drop 2 (u_escape c))) = Some c"
proof -
  have "of_char c < (256::nat)" by (rule nat_of_char_less_256)
  hence "of_char c div 16 < (16::nat)" by (simp add: less_mult_imp_div_less)
  moreover have "of_char c mod 16 < (16::nat)" by simp
  moreover have "char_of (16 * (of_char c div 16) + of_char c mod 16 :: nat) = c" by simp
  ultimately show ?thesis
    by (simp add: u_escape_def hex4_def hex_val_hex_digit hex_val_0)
qed

lemma parse_str_u_escape:
  "parse_str (u_escape c @ r) = map_option (\<lambda>(t, r). (c # t, r)) (parse_str r)"
proof -
  define h where "h = hex_digit (of_char c div 16)"
  define l where "l = hex_digit (of_char c mod 16)"
  have u: "u_escape c = [CHR 0x5C, CHR ''u'', CHR ''0'', CHR ''0'', h, l]"
    by (simp add: u_escape_def h_def l_def)
  have "hex4 [CHR ''0'', CHR ''0'', h, l] = Some c" using hex4_u_escape[of c] by (simp add: u)
  then show ?thesis by (simp add: u)
qed

lemma parse_str_esc_char:
  "parse_str (json_esc_char c @ r) = map_option (\<lambda>(t, r). (c # t, r)) (parse_str r)"
proof (cases "of_char c < (32::nat) \<or> (126::nat) < of_char c")
  case True
  then show ?thesis
    by (auto simp: json_esc_char_def unescape_def parse_str_u_escape)
next
  case False
  then show ?thesis
    by (auto simp: json_esc_char_def unescape_def)
qed

lemma parse_str_quoted:
  "parse_str (concat (map json_esc_char s) @ CHR 0x22 # r) = Some (s, r)"
  by (induction s) (simp_all add: parse_str_esc_char)

lemma parse_str_json_quote:
  "json_quote s @ r = CHR 0x22 # concat (map json_esc_char s) @ CHR 0x22 # r"
  by (simp add: json_quote_def)

lemma py_str_of_nat_0: "py_str_of_nat 0 = ''0''"
  by (simp add: py_str_of_nat.simps digit_char_def)

lemma hd_py_str_of_nat: "0 < k \<Longrightarrow> hd (py_str_of_nat k) \<noteq> CHR ''0''"
proof (induction k rule: py_str_of_nat.induct)
  case (1 k)
  show ?case
  proof (cases "k < 10")
    case True
    have "digit_val (digit_char k) = k" using True by (rule digit_char_props)
    then have "digit_char k \<noteq> CHR ''0''" using "1.prems" by (auto simp: digit_val_def)
    then show ?thesis using True by (subst py_str_of_nat.simps) simp
  next
    case False
    then show ?thesis using "1.IH" py_str_of_nat_nonempty
      by (subst py_str_of_nat.simps) simp
  qed
qed

lemma parse_nat_str:
  assumes "takeWhile is_digit rest = []"
  shows "parse_nat (py_str_of_nat k @ rest) = Some (k, rest)"
proof (cases "k = 0")
  case True
  then show ?thesis using dec_value_py_str_of_nat[of 0] by (simp add: parse_nat_def py_str_of_nat_0)
next
  case False
  have "takeWhile is_digit (py_str_of_nat k @ rest) = py_str_of_nat k"
    using assms py_str_of_nat_is_digit by (simp add: takeWhile_append2)
  then show ?thesis using False hd_py_str_of_nat py_str_of_nat_nonempty
    by (simp add: parse_nat_def dec_value_py_str_of_nat)
qed

lemma parse_int_str:
  assumes "takeWhile is_digit rest = []"
  shows "parse_int (py_str_of_int i @ rest) = Some (JInt i, rest)"
proof (cases "i < 0")
  case True
  then show ?thesis using parse_nat_str[OF assms, of "nat (- i)"]
    by (simp add: parse_int_def py_str_of_int_def)
next
  case False
  obtain c t where ct: "py_str_of_nat (nat i) = c # t"
    using py_str_of_nat_nonempty by (cases "py_str_of_nat (nat i)") auto
  then have "c \<noteq> CHR ''-''" using py_str_of_nat_is_digit[of "nat i"] digit_not_special by auto
  then show ?thesis using False parse_nat_str[OF assms, of "nat i"] ct
    by (simp add: parse_int_def py_str_of_int_def)
qed

lemma skip_ws_ws: "list_all is_ws w \<Longrightarrow> skip_ws (w @ s) = skip_ws s"
  by (induction w) (simp_all add: skip_ws_def)

lemma skip_ws_start: "\<not> is_ws c \<Longrightarrow> skip_ws (c # s) = c # s"
  by (simp add: skip_ws_def)

lemma newline_indent_ws: "list_all is_ws (newline_indent l)"
  by (simp add: newline_indent_def is_ws_def list_all_iff)

lemma expect_ws:
  "list_all is_ws w \<Longrightarrow> \<not> is_ws d \<Longrightarrow> expect c (w @ d # r) = (if d = c then Some r else None)"
  by (simp add: expect_def skip_ws_ws skip_ws_start)

lemma expect_here: "\<not> is_ws d \<Longrightarrow> expect c (d # r) = (if d = c then Some r else None)"
  by (simp add: expect_def skip_ws_start)

lemma digit_not_delim:
  "is_digit c \<Longrightarrow> \<not> is_ws c \<and> c \<noteq> CHR '']'' \<and> c \<noteq> CHR ''}'' \<and> c \<noteq> CHR '','' \<and> c \<noteq> CHR ''-''"
  by (auto simp: is_digit_def is_ws_def)

lemma py_str_of_int_start: "\<exists>c r. py_str_of_int i = c # r \<and> (c = CHR ''-'' \<or> is_digit c)"
proof -
  obtain c r where "py_str_of_nat (nat \<bar>i\<bar>) = c # r"
    using py_str_of_nat_nonempty by (cases "py_str_of_nat (nat \<bar>i\<bar>)") auto
  moreover have "is_digit c" using calculation py_str_of_nat_is_digit[of "nat \<bar>i\<bar>"] by simp
  ultimately show ?thesis by (auto simp: py_str_of_int_def)
qed

lemma dumps_start:
  "\<exists>c r. dumps_indent lvl v = c # r \<and> \<not> is_ws c \<and> c \<noteq> CHR '']'' \<and> c \<noteq> CHR ''}''"
proof (cases v)
  case (JInt i)
  then show ?thesis using py_str_of_int_start[of i] digit_not_delim
    by (auto simp: json_scalar_def is_ws_def)
qed (auto simp: json_scalar_def is_ws_def json_quote_def)

lemma expect_dumps:
  "list_all is_ws w \<Longrightarrow> c = CHR '']'' \<or> c = CHR ''}'' \<Longrightarrow> expect c (w @ dumps_indent lvl v @ r) = None"
  using dumps_start[of lvl v] by (auto simp: expect_ws)

lemma join_map_Cons:
  "join sep (map f (x # ys)) = f x @ (if ys = [] then [] else sep @ join sep (map f ys))"
  by (cases ys) (simp_all add: join_def)

lemma join_simps:
  "join sep [x] = x" "ys \<noteq> [] \<Longrightarrow> join sep (x # ys) = x @ sep @ join sep ys"
  by (simp add: join_def, cases ys) (simp_all add: join_def)

lemma delims_not_ws:
  "\<not> is_ws CHR '']''" "\<not> is_ws CHR ''}''" "\<not> is_ws CHR '',''" "\<not> is_ws CHR '':''"
  "\<not> is_ws (CHR 0x22)" "\<not> is_ws CHR ''[''" "\<not> is_ws CHR ''{''"
  "\<not> is_ws CHR ''n''" "\<not> is_ws CHR ''t''" "\<not> is_ws CHR ''f''"
  by (simp_all add: is_ws_def)

lemma takeWhile_digit_delim:
  "takeWhile is_digit (newline_indent l @ r) = []" "takeWhile is_digit (CHR '','' # r) = []"
  by (simp_all add: newline_indent_def is_digit_def)

lemma parse_elems_dumps:
  assumes el: "\<And>v w n rest. v \<in> set vs \<Longrightarrow> list_all is_ws w \<Longrightarrow> size v < n \<Longrightarrow>
                 takeWhile is_digit rest = [] \<Longrightarrow>
                 parse_val n (w @ dumps_indent (Suc lvl) v @ rest) = Some (v, rest)"
    and "vs \<noteq> []" and "size (JArr vs) \<le> m"
  shows "parse_elems m (newline_indent (Suc lvl)
           @ join ('','' @ newline_indent (Suc lvl)) (map (dumps_indent (Suc lvl)) vs)
           @ newline_indent lvl @ '']'' @ rest) = Some (vs, rest)"
  using assms
proof (induction vs arbitrary: m)
  case Nil
  then show ?case by simp
next
  case (Cons v ws)
  obtain m' where m: "m = Suc m'" and sz: "size v + size (JArr ws) \<le> m'"
    using Cons.prems(3) by (cases m) auto
  have ind: "list_all is_ws (newline_indent (Suc lvl))" by (rule newline_indent_ws)
  show ?case
  proof (cases "ws = []")
    case True
    have "parse_val m' (newline_indent (Suc lvl) @ dumps_indent (Suc lvl) v
            @ newline_indent lvl @ '']'' @ rest) = Some (v, newline_indent lvl @ '']'' @ rest)"
      using sz True by (intro Cons.prems(1)) (simp_all add: ind takeWhile_digit_delim)
    then show ?thesis using True m
      by (simp add: join_simps expect_ws newline_indent_ws delims_not_ws)
  next
    case False
    let ?tail = "'','' @ newline_indent (Suc lvl)
           @ join ('','' @ newline_indent (Suc lvl)) (map (dumps_indent (Suc lvl)) ws)
           @ newline_indent lvl @ '']'' @ rest"
    have "parse_val m' (newline_indent (Suc lvl) @ dumps_indent (Suc lvl) v @ ?tail) = Some (v, ?tail)"
      using sz False by (intro Cons.prems(1)) (simp_all add: ind is_digit_def)
    moreover have "parse_elems m' (newline_indent (Suc lvl)
           @ join ('','' @ newline_indent (Suc lvl)) (map (dumps_indent (Suc lvl)) ws)
           @ newline_indent lvl @ '']'' @ rest) = Some (ws, rest)"
      using sz False Cons.prems(1) by (intro Cons.IH) auto
    ultimately show ?thesis using False m
      by (simp add: join_simps expect_here delims_not_ws)
  qed
qed

lemma parse_member_key:
  "list_all is_ws w \<Longrightarrow>
   parse_members (Suc m) (w @ json_quote k @ CHR '':'' # CHR '' '' # x) =
     (case parse_val m (CHR '' '' # x) of
        None \<Rightarrow> None
      | Some (v, r3) \<Rightarrow>
          (case expect CHR '','' r3 of
             Some r4 \<Rightarrow> map_option (\<lambda>(kvs, r5). ((k, v) # kvs, r5)) (parse_members m r4)
           | None \<Rightarrow> map_option (\<lambda>r4. ([(k, v)], r4)) (expect CHR ''}'' r3)))"
  by (simp add: json_quote_def expect_ws delims_not_ws parse_str_quoted expect_here)

lemma parse_members_dumps:
  assumes el: "\<And>k v w n rest. (k, v) \<in> set kvs \<Longrightarrow> list_all is_ws w \<Longrightarrow> size v < n \<Longrightarrow>
                 takeWhile is_digit rest = [] \<Longrightarrow>
                 parse_val n (w @ dumps_indent (Suc lvl) v @ rest) = Some (v, rest)"
    and "kvs \<noteq> []" and "size (JObj kvs) \<le> m"
  shows "parse_members m (newline_indent (Suc lvl)
           @ join ('','' @ newline_indent (Suc lvl))
               (map (\<lambda>(k, v). json_quote k @ '': '' @ dumps_indent (Suc lvl) v) kvs)
           @ newline_indent lvl @ ''}'' @ rest) = Some (kvs, rest)"
  using assms
proof (induction kvs arbitrary: m)
  case Nil
  then show ?case by simp
next
  case (Cons kv kvs)
  obtain k v where kv: "kv = (k, v)" by fastforce
  obtain m' where m: "m = Suc m'" and sz: "size v + size (JObj kvs) < m'"
    using Cons.prems(3) kv by (cases m) auto
  have ind: "list_all is_ws (newline_indent (Suc lvl))" by (rule newline_indent_ws)
  have sp: "list_all is_ws '' ''" by (simp add: is_ws_def)
  show ?case
  proof (cases "kvs = []")
    case True
    have "parse_val m' ('' '' @ dumps_indent (Suc lvl) v
            @ newline_indent lvl @ ''}'' @ rest) = Some (v, newline_indent lvl @ ''}'' @ rest)"
      using sz True kv by (intro Cons.prems(1)[of k]) (simp_all add: is_ws_def takeWhile_digit_delim)
    then show ?thesis using True m kv ind
      by (simp add: join_simps parse_member_key expect_ws newline_indent_ws delims_not_ws
               del: parse_members.simps)
  next
    case False
    let ?tail = "'','' @ newline_indent (Suc lvl)
           @ join ('','' @ newline_indent (Suc lvl))
               (map (\<lambda>(k, v). json_quote k @ '': '' @ dumps_indent (Suc lvl) v) kvs)
           @ newline_indent lvl @ ''}'' @ rest"
    have "parse_val m' ('' '' @ dumps_indent (Suc lvl) v @ ?tail) = Some (v, ?tail)"
      using sz False kv by (intro Cons.prems(1)[of k]) (simp_all add: is_ws_def is_digit_def)
    moreover have "parse_members m' (newline_indent (Suc lvl)
           @ join ('','' @ newline_indent (Suc lvl))
               (map (\<lambda>(k, v). json_quote k @ '': '' @ dumps_indent (Suc lvl) v) kvs)
           @ newline_indent lvl @ ''}'' @ rest) = Some (kvs, rest)"
      using sz False by (intro Cons.IH) (auto intro: Cons.prems(1))
    ultimately show ?thesis using False m kv ind
      by (simp add: join_simps parse_member_key expect_here delims_not_ws del: parse_members.simps)
  qed
qed

lemma parse_val_dumps:
  "list_all is_ws w \<Longrightarrow> size v < n \<Longrightarrow> takeWhile is_digit rest = [] \<Longrightarrow>
   parse_val n (w @ dumps_indent lvl v @ rest) = Some (v, rest)"
proof (induction v arbitrary: lvl n w rest)
  case JNull
  then show ?case by (cases n) (simp_all add: skip_ws_ws skip_ws_start json_scalar_def delims_not_ws)
next
  case (JBool b)
  then show ?case by (cases n) (simp_all add: skip_ws_ws skip_ws_start json_scalar_def delims_not_ws)
next
  case (JInt i)
  obtain c r where cr: "py_str_of_int i = c # r" and c: "c = CHR ''-'' \<or> is_digit c"
    using py_str_of_int_start by blast
  then have "\<not> is_ws c" "c \<noteq> CHR ''[''" "c \<noteq> CHR ''{''" "c \<noteq> CHR 0x22" "c \<noteq> CHR ''n''"
    "c \<noteq> CHR ''t''" "c \<noteq> CHR ''f''"
    by (auto simp: is_ws_def is_digit_def)
  moreover have "parse_int (c # r @ rest) = Some (JInt i, rest)"
    using parse_int_str[OF JInt.prems(3), of i] cr by simp
  ultimately show ?case using JInt.prems cr
    by (cases n) (simp_all add: skip_ws_ws skip_ws_start json_scalar_def)
next
  case (JStr s)
  then show ?case
    by (cases n) (simp_all add: skip_ws_ws skip_ws_start json_scalar_def json_quote_def
                    delims_not_ws parse_str_quoted)
next
  case (JArr vs)
  then obtain n' where n: "n = Suc n'" and sz: "size (JArr vs) \<le> n'" by (cases n) auto
  show ?case
  proof (cases "vs = []")
    case True
    then show ?thesis using JArr.prems n
      by (simp add: skip_ws_ws skip_ws_start delims_not_ws expect_here)
  next
    case False
    then obtain v1 vs' where vs: "vs = v1 # vs'" by (cases vs) auto
    have "expect CHR '']'' (newline_indent (Suc lvl)
            @ join ('','' @ newline_indent (Suc lvl)) (map (dumps_indent (Suc lvl)) vs) @ x) = None" for x
      using vs by (simp add: join_def expect_dumps newline_indent_ws)
    moreover have "parse_elems n' (newline_indent (Suc lvl)
           @ join ('','' @ newline_indent (Suc lvl)) (map (dumps_indent (Suc lvl)) vs)
           @ newline_indent lvl @ '']'' @ rest) = Some (vs, rest)"
      using False sz by (intro parse_elems_dumps JArr.IH) auto
    ultimately show ?thesis using JArr.prems n False
      by (simp add: skip_ws_ws skip_ws_start delims_not_ws)
  qed
next
  case (JObj kvs)
  then obtain n' where n: "n = Suc n'" and sz: "size (JObj kvs) \<le> n'" by (cases n) auto
  show ?case
  proof (cases "kvs = []")
    case True
    then show ?thesis using JObj.prems n
      by (simp add: skip_ws_ws skip_ws_start delims_not_ws expect_here)
  next
    case False
    then obtain k1 v1 kvs' where kvs: "kvs = (k1, v1) # kvs'" by (cases kvs) auto
    have "expect CHR ''}'' (newline_indent (Suc lvl)
            @ join ('','' @ newline_indent (Suc lvl))
               (map (\<lambda>(k, v). json_quote k @ '': '' @ dumps_indent (Suc lvl) v) kvs) @ x) = None" for x
      using kvs by (simp add: join_def expect_ws newline_indent_ws json_quote_def delims_not_ws)
    moreover have "parse_members n' (newline_indent (Suc lvl)
           @ join ('','' @ newline_indent (Suc lvl))
               (map (\<lambda>(k, v). json_quote k @ '': '' @ dumps_indent (Suc lvl) v) kvs)
           @ newline_indent lvl @ ''}'' @ rest) = Some (kvs, rest)"
      using False sz by (intro parse_members_dumps JObj.IH) auto
    ultimately show ?thesis using JObj.prems n False
      by (simp add: skip_ws_ws skip_ws_start delims_not_ws)
  qed
qed

lemma length_join:
  "xs \<noteq> [] \<Longrightarrow> length (join sep xs) + length sep = sum_list (map (\<lambda>x. length sep + length x) xs)"
proof (induction xs)
  case (Cons a xs)
  then show ?case by (cases "xs = []") (simp_all add: join_simps)
qed simp

lemma sum_list_Suc: "sum_list (map (\<lambda>x. Suc (f x)) xs) = sum_list (map f xs) + length xs"
  by (induction xs) simp_all

lemma size_le_dumps: "size v \<le> length (dumps_indent lvl v)"
proof (induction v arbitrary: lvl)
  case (JArr vs)
  let ?sep = "'','' @ newline_indent (Suc lvl)"
  let ?L = "length (join ?sep (map (dumps_indent (Suc lvl)) vs))"
  have le: "sum_list (map (\<lambda>v. size v + 1) vs)
        \<le> sum_list (map (\<lambda>v. length ?sep + length (dumps_indent (Suc lvl) v)) vs)"
    by (intro sum_list_mono) (auto simp: newline_indent_def intro!: le_SucI trans_le_add2 JArr.IH)
  show ?case
  proof (cases "vs = []")
    case False
    have "?L + length ?sep = sum_list (map (\<lambda>v. length ?sep + length (dumps_indent (Suc lvl) v)) vs)"
      using length_join[OF _, of "map (dumps_indent (Suc lvl)) vs" ?sep] False by (simp add: comp_def)
    moreover have "size (JArr vs) = sum_list (map (\<lambda>v. size v + 1) vs) + 1"
      by (simp add: size_list_conv_sum_list sum_list_Suc)
    moreover have "length (dumps_indent lvl (JArr vs)) \<ge> 1 + length ?sep + ?L"
      using False by (simp add: newline_indent_def)
    ultimately show ?thesis using le by linarith
  qed simp
next
  case (JObj kvs)
  let ?sep = "'','' @ newline_indent (Suc lvl)"
  let ?f = "\<lambda>(k, v). json_quote k @ '': '' @ dumps_indent (Suc lvl) v"
  let ?L = "length (join ?sep (map ?f kvs))"
  have le: "sum_list (map (\<lambda>kv. size_prod (\<lambda>x. 0) size kv + 1) kvs)
        \<le> sum_list (map (\<lambda>kv. length ?sep + length (?f kv)) kvs)"
    by (intro sum_list_mono)
       (auto simp: newline_indent_def json_quote_def intro!: le_SucI trans_le_add2 JObj.IH)
  show ?case
  proof (cases "kvs = []")
    case False
    have "?L + length ?sep = sum_list (map (\<lambda>kv. length ?sep + length (?f kv)) kvs)"
      using length_join[OF _, of "map ?f kvs" ?sep] False by (simp add: comp_def)
    moreover have "size (JObj kvs) = sum_list (map (\<lambda>kv. size_prod (\<lambda>x. 0) size kv + 1) kvs) + 1"
      by (simp add: size_list_conv_sum_list sum_list_Suc)
    moreover have "length (dumps_indent lvl (JObj kvs)) \<ge> 1 + length ?sep + ?L"
      using False by (simp add: newline_indent_def)
    ultimately show ?thesis using le by linarith
  qed simp
qed simp_all

lemma json_loads_dumps: "json_loads (dumps_indent 0 v) = Some v"
  using parse_val_dumps[of "[]" v "Suc (length (dumps_indent 0 v))" "[]" 0] size_le_dumps[of v 0]
  by (simp add: json_loads_def skip_ws_def)

lemma is_ascii_append [simp]: "is_ascii (xs @ ys) \<longleftrightarrow> is_ascii xs \<and> is_ascii ys"
  by (auto simp: is_ascii_def)

lemma is_ascii_Cons [simp]: "is_ascii (c # xs) \<longleftrightarrow> of_char c < (128::nat) \<and> is_ascii xs"
  by (simp add: is_ascii_def)

lemma is_ascii_Nil [simp]: "is_ascii []"
  by (simp add: is_ascii_def)

lemma is_ascii_join: "is_ascii sep \<Longrightarrow> \<forall>x \<in> set xs. is_ascii x \<Longrightarrow> is_ascii (join sep xs)"
  by (cases xs) (auto simp: join_def is_ascii_def)

lemma hex_digit_ascii: "d < 16 \<Longrightarrow> of_char (hex_digit d) < (128::nat)"
proof -
  assume "d < 16"
  then have "hex_digit d \<in> set ''0123456789abcdef''" by (simp add: hex_digit_def del: set_simps)
  then show ?thesis by auto
qed

lemma json_quote_ascii: "is_ascii (json_quote s)"
proof -
  have "of_char c div 16 < (16::nat)" for c
    using nat_of_char_less_256[of c] by (simp add: less_mult_imp_div_less)
  then have "is_ascii (json_esc_char c)" for c
    by (auto simp: json_esc_char_def u_escape_def hex_digit_ascii)
  then show ?thesis by (induction s) (simp_all add: json_quote_def)
qed

lemma py_str_of_int_ascii: "is_ascii (py_str_of_int i)"
proof -
  have "is_ascii (py_str_of_nat n)" for n
    using py_str_of_nat_is_digit[of n] by (auto simp: is_ascii_def is_digit_def less_eq_char_def)
  then show ?thesis by (simp add: py_str_of_int_def)
qed

lemma newline_indent_ascii: "is_ascii (newline_indent l)"
  by (simp add: newline_indent_def is_ascii_def)

lemma dumps_indent_ascii: "is_ascii (dumps_indent lvl v)"
proof (induction v arbitrary: lvl)
  case (JArr vs)
  then show ?case
    by (auto simp: newline_indent_ascii intro!: is_ascii_join)
next
  case (JObj kvs)
  then show ?case
    by (auto simp: newline_indent_ascii json_quote_ascii intro!: is_ascii_join)
qed (simp_all add: json_scalar_def json_quote_ascii py_str_of_int_ascii)

lemma ascii_decode_utf8: "is_ascii s \<Longrightarrow> ascii_decode (utf8_encode s) = Some s"
proof -
  assume a: "is_ascii s"
  have "utf8_encode s = map byte_of_char s"
    using a by (induction s) (simp_all add: utf8_encode_def)
  moreover have "unat (byte_of_char c) = of_char c" for c
    using nat_of_char_less_256[of c] by (simp add: byte_of_char_def unat_of_nat)
  ultimately show ?thesis using a
    by (simp add: ascii_decode_def char_of_byte_def is_ascii_def comp_def map_idI)
qed

end
