(* ===== verification/Base64.thy ===== *)
theory Base64
  imports Prelude
begin

unbundle bit_operations_syntax

text \<open>
  \<open>base64.b64encode(data).decode("ascii")\<close>, used by \<open>encode_file_to_base64\<close> and
  for the platform metadata in \<open>convert_to_fabric_items.py\<close>: every three bytes become
  four characters of the standard alphabet, a final group of one or two bytes is padded with
  \<open>=\<close>. The encoder works on \<open>8 word\<close>s with the shifts and masks of RFC 4648. The
  decoder is the reference the round trip is stated against (what
  \<open>base64.b64decode\<close> and the service do with a payload); it rejects anything that
  is not a well-formed padded encoding.
\<close>

definition b64_alphabet :: string where
  "b64_alphabet = ''ABCDEFGHIJKLMNOPQRSTUVWXYZabcdefghijklmnopqrstuvwxyz0123456789+/''"

definition b64_char :: "byte \<Rightarrow> char" where
  "b64_char w = b64_alphabet ! unat w"

text \<open>The four sextets of a group \<open>a b c\<close>, as the encoder computes them.\<close>

definition sext1 :: "byte \<Rightarrow> byte" where
  "sext1 a = drop_bit 2 a"

definition sext2 :: "byte \<Rightarrow> byte \<Rightarrow> byte" where
  "sext2 a b = push_bit 4 (a AND 3) OR drop_bit 4 b"

definition sext3 :: "byte \<Rightarrow> byte \<Rightarrow> byte" where
  "sext3 b c = push_bit 2 (b AND 15) OR drop_bit 6 c"

definition sext4 :: "byte \<Rightarrow> byte" where
  "sext4 c = c AND 63"

fun b64encode :: "bytes \<Rightarrow> string" where
  "b64encode (a # b # c # rest) =
     [b64_char (sext1 a), b64_char (sext2 a b), b64_char (sext3 b c), b64_char (sext4 c)]
     @ b64encode rest"
| "b64encode [a, b] = [b64_char (sext1 a), b64_char (sext2 a b), b64_char (sext3 b 0), CHR ''='']"
| "b64encode [a] = [b64_char (sext1 a), b64_char (sext2 a 0), CHR ''='', CHR ''='']"
| "b64encode [] = []"

section \<open>Reference decoder\<close>

definition b64_val :: "char \<Rightarrow> byte option" where
  "b64_val c =
     (let i = length (takeWhile (\<lambda>x. x \<noteq> c) b64_alphabet)
      in if i < 64 then Some (word_of_nat i) else None)"

text \<open>The bytes a decoder rebuilds from the sextets \<open>s1 .. s4\<close> of a group.\<close>

definition unsext1 :: "byte \<Rightarrow> byte \<Rightarrow> byte" where
  "unsext1 s1 s2 = push_bit 2 s1 OR drop_bit 4 s2"

definition unsext2 :: "byte \<Rightarrow> byte \<Rightarrow> byte" where
  "unsext2 s2 s3 = push_bit 4 s2 OR drop_bit 2 s3"

definition unsext3 :: "byte \<Rightarrow> byte \<Rightarrow> byte" where
  "unsext3 s3 s4 = push_bit 6 s3 OR s4"

fun b64decode :: "string \<Rightarrow> bytes option" where
  "b64decode (c1 # c2 # c3 # c4 # rest) =
     (case (b64_val c1, b64_val c2) of
        (Some s1, Some s2) \<Rightarrow>
          (if rest = [] \<and> c3 = CHR ''='' \<and> c4 = CHR ''=''
           then Some [unsext1 s1 s2]
           else if rest = [] \<and> c4 = CHR ''=''
           then (case b64_val c3 of
                   Some s3 \<Rightarrow> Some [unsext1 s1 s2, unsext2 s2 s3]
                 | None \<Rightarrow> None)
           else (case (b64_val c3, b64_val c4, b64decode rest) of
                   (Some s3, Some s4, Some bs) \<Rightarrow>
                     Some ([unsext1 s1 s2, unsext2 s2 s3, unsext3 s3 s4] @ bs)
                 | _ \<Rightarrow> None))
      | _ \<Rightarrow> None)"
| "b64decode [] = Some []"
| "b64decode _ = None"

section \<open>The round trip\<close>

lemma sextet1: "unsext1 (sext1 a) (sext2 a b) = a"
  unfolding sext1_def sext2_def unsext1_def
  by (rule bit_word_eqI) (auto simp: bit_simps suc_nums dest!: bit_8_cases)
lemma sextet2: "unsext2 (sext2 a b) (sext3 b c) = b"
  unfolding sext2_def sext3_def unsext2_def
  by (rule bit_word_eqI) (auto simp: bit_simps suc_nums dest!: bit_8_cases)
lemma sextet3: "unsext3 (sext3 b c) (sext4 c) = c"
  unfolding sext3_def sext4_def unsext3_def
  by (rule bit_word_eqI) (auto simp: bit_simps suc_nums dest!: bit_8_cases)
lemma masked_lt_64:
  assumes "w AND 63 = (w::byte)" shows "unat w < 64"
proof -
  have "unat (w AND 63) \<le> unat (63::byte)"
    by (rule word_and_le1 [THEN word_le_nat_alt [THEN iffD1]])
  then show ?thesis using assms by simp
qed

lemma sextet_bounds:
  "unat (sext1 a) < 64" "unat (sext2 a b) < 64" "unat (sext3 b c) < 64" "unat (sext4 c) < 64"
  unfolding sext1_def sext2_def sext3_def sext4_def
  by (rule masked_lt_64; rule bit_word_eqI;
      auto simp: bit_simps suc_nums dest: bit_imp_le_length dest!: bit_8_cases)+

lemma b64_alphabet_facts: "distinct b64_alphabet" "length b64_alphabet = 64" "CHR ''='' \<notin> set b64_alphabet"
  by (simp_all add: b64_alphabet_def)

lemma b64_val_char: "unat w < 64 \<Longrightarrow> b64_val (b64_char w) = Some w"
  by (simp add: b64_val_def b64_char_def takeWhile_index_nth b64_alphabet_facts)

lemma b64_char_not_pad:
  assumes "unat w < 64" shows "b64_char w \<noteq> CHR ''=''"
proof -
  have "b64_alphabet ! unat w \<in> set b64_alphabet"
    using assms by (intro nth_mem) (simp add: b64_alphabet_facts)
  then show ?thesis using b64_alphabet_facts(3) by (auto simp: b64_char_def)
qed

lemmas b64_group = sextet_bounds b64_val_char b64_char_not_pad sextet1 sextet2 sextet3

theorem b64_roundtrip: "b64decode (b64encode bs) = Some bs"
proof (induction bs rule: b64encode.induct)
  case (1 a b c rest)
  then show ?case by (cases rest) (simp_all add: b64_group)
qed (simp_all add: b64_group)

theorem b64_length: "length (b64encode bs) = 4 * ((length bs + 2) div 3)"
  by (induction bs rule: b64encode.induct) (simp_all, presburger)

end
