(* ===== verification/Converter.thy ===== *)
theory Converter
  imports Json Base64
begin

text \<open>
  Model of \<open>src/scripts/convert_to_fabric_items.py\<close>. \<open>convert_all\<close> reads the
  \<open>*.ipynb\<close> files of the source directory in sorted order; for each it base64-encodes
  the file, parses the number after the last underscore of the file's stem with
  \<open>int()\<close>, builds the platform metadata for it, and writes \<open>item_<stem>.json\<close> into the
  output directory; afterwards it tries to zip the created files. \<open>int()\<close> raising stops
  the run with the items written so far left in place. Whether \<open>zipfile\<close> succeeds is
  an oracle (\<open>zip_ok\<close>); a failure only sets \<open>zip_path = None\<close>. The source and output
  directories are distinct (the defaults are \<open>generated_notebooks\<close> and
  \<open>generated_items\<close>). \<open>conv_main\<close> is the script's \<open>main\<close> on a file system of
  directories: it runs \<open>convert_all\<close> and places the archive beside the output
  directory.
\<close>

section \<open>Path helpers\<close>

text \<open>\<open>s.rfind(c)\<close>: the index of the last occurrence, if any.\<close>

definition py_rfind :: "char \<Rightarrow> string \<Rightarrow> nat option" where
  "py_rfind c s =
     (if c \<in> set s then Some (length s - 1 - length (takeWhile (\<lambda>x. x \<noteq> c) (rev s))) else None)"

text \<open>
  \<open>PurePath.stem\<close>: the name without its suffix, where the suffix starts at the last dot
  unless that dot is the first or the last character.
\<close>

definition py_stem :: "string \<Rightarrow> string" where
  "py_stem name =
     (case py_rfind CHR ''.'' name of
        Some i \<Rightarrow> if 0 < i \<and> i < length name - 1 then take i name else name
      | None \<Rightarrow> name)"

section \<open>Items\<close>

definition encode_file_to_base64 :: "dir \<Rightarrow> string \<Rightarrow> string" where
  "encode_file_to_base64 d path = b64encode (file_data d path)"

definition inline_part :: "string \<Rightarrow> string \<Rightarrow> json" where
  "inline_part path payload =
     JObj [(''path'', JStr path), (''payload'', JStr payload), (''payloadType'', JStr ''InlineBase64'')]"

text \<open>\<open>make_item\<close>: the platform part is added when \<open>platform_b64\<close> is truthy (given and non-empty).\<close>

definition make_item :: "string \<Rightarrow> string option \<Rightarrow> json" where
  "make_item json_b64 platform_b64 =
     (let parts = [inline_part ''artifact.content.ipynb'' json_b64]
                  @ (case platform_b64 of
                       Some p \<Rightarrow> if p \<noteq> [] then [inline_part ''.platform'' p] else []
                     | None \<Rightarrow> [])
      in JObj [(''format'', JStr ''ipynb''), (''parts'', JArr parts)])"

definition platform_obj :: "int \<Rightarrow> json" where
  "platform_obj idx =
     JObj [(''kernel_info'', JObj [(''name'', JStr ''synapse_pyspark'')]),
           (''dependencies'', JObj []),
           (''displayName'', JStr (''Generated Notebook '' @ py_str_of_int idx)),
           (''metadata'', JObj [(''language'', JStr ''python''),
                                (''language_group'', JStr ''synapse_pyspark'')])]"

definition platform_b64 :: "int \<Rightarrow> string" where
  "platform_b64 idx = b64encode (utf8_encode (dumps_compact (platform_obj idx)))"

text \<open>\<open>idx = fp.stem.split("_")[-1]\<close> (the list is never empty).\<close>

definition stem_index :: "string \<Rightarrow> string" where
  "stem_index name = last (py_split CHR ''_'' (py_stem name))"

definition item_name :: "string \<Rightarrow> string" where
  "item_name name = ''item_'' @ py_stem name @ ''.json''"

text \<open>The loop body of \<open>convert_all\<close>, over the sorted source names.\<close>

fun convert_loop :: "dir \<Rightarrow> string list \<Rightarrow> dir \<Rightarrow> string list \<Rightarrow> dir \<times> (exc + string list)" where
  "convert_loop src [] out created = (out, Inr created)"
| "convert_loop src (fp # fps) out created =
     (let b64 = encode_file_to_base64 src fp
      in case py_int (stem_index fp) of
           Inl e \<Rightarrow> (out, Inl e)
         | Inr idx \<Rightarrow>
             (let item = make_item b64 (Some (platform_b64 idx))
              in convert_loop src fps (write_file out (item_name fp) (Blob (json_file item)))
                   (created @ [item_name fp])))"

definition ipynb_files :: "dir \<Rightarrow> string list" where
  "ipynb_files d = sort (filter (glob_suffix ''.ipynb'') (map fst d))"

definition convert_all :: "dir \<Rightarrow> dir \<Rightarrow> bool \<Rightarrow> dir \<times> (exc + string list \<times> archive option)" where
  "convert_all src out zip_ok =
     (case convert_loop src (ipynb_files src) out [] of
        (out', Inl e) \<Rightarrow> (out', Inl e)
      | (out', Inr created) \<Rightarrow>
          (out', Inr (created, if zip_ok then Some (zip_members out' created) else None)))"

text \<open>
  \<open>main()\<close>: \<open>convert_all(args.src, args.out)\<close> on a file system, then the report. A
  missing source directory globs as empty; \<open>ensure_dir\<close> creates the output directory;
  the archive goes to \<open>os.path.join(os.path.dirname(out), os.path.basename(out) + ".zip")\<close>,
  whose directory exists because \<open>os.makedirs\<close> created the parents of \<open>out\<close>; whether
  \<open>zipfile\<close> fails (the handler sets \<open>zip_path = None\<close>) is the oracle \<open>zip_ok\<close>. An exception of \<open>int()\<close> propagates out of
  \<open>main\<close> after the items written so far. The result is the list of lines printed.
\<close>

definition conv_main :: "fs \<Rightarrow> string \<Rightarrow> string \<Rightarrow> bool \<Rightarrow> fs \<times> (exc + string list)" where
  "conv_main fs src out zip_ok =
     (let src_d = (case map_of fs src of Some d \<Rightarrow> d | None \<Rightarrow> []);
          out_d = (case map_of fs out of Some d \<Rightarrow> d | None \<Rightarrow> []);
          zdir = py_dirname out;
          zip_path = py_path_join zdir (py_basename out @ ''.zip'')
      in case convert_all src_d out_d zip_ok of
           (out', Inl e) \<Rightarrow> (set_dir fs out out', Inl e)
         | (out', Inr (created, z)) \<Rightarrow>
             (let fs1 = set_dir fs out out';
                  msg = ''Created '' @ py_str_of_nat (length created) @ '' item JSON files in: '' @ out;
                  zd = (case map_of fs1 zdir of Some zd \<Rightarrow> zd | None \<Rightarrow> [])
              in case z of
                   Some arc \<Rightarrow>
                     (set_dir fs1 zdir (write_file zd (py_basename zip_path) (Archive arc)),
                      Inr [msg, ''Zip created: '' @ zip_path])
                 | None \<Rightarrow> (fs1, Inr [msg])))"

text \<open>The payload of the \<open>i\<close>-th part of an item.\<close>

definition part_payload :: "json \<Rightarrow> nat \<Rightarrow> string option" where
  "part_payload item i =
     (case json_get item ''parts'' of
        Some (JArr ps) \<Rightarrow>
          if i < length ps then (case json_get (ps ! i) ''payload'' of Some (JStr p) \<Rightarrow> Some p | _ \<Rightarrow> None)
          else None
      | _ \<Rightarrow> None)"


section \<open>What a successful run writes\<close>

text \<open>
  The item \<open>convert_all\<close> builds for notebook \<open>fp\<close> with index \<open>idx\<close>, and the output
  directory after the items of a list of (notebook, index) pairs have been written in order.
\<close>

definition conv_item :: "dir \<Rightarrow> string \<Rightarrow> int \<Rightarrow> json" where
  "conv_item src fp idx = make_item (encode_file_to_base64 src fp) (Some (platform_b64 idx))"

definition write_items :: "dir \<Rightarrow> (string \<times> int) list \<Rightarrow> dir \<Rightarrow> dir" where
  "write_items src fis out =
     fold (\<lambda>(fp, i) d. write_file d (item_name fp) (Blob (json_file (conv_item src fp i)))) fis out"

section \<open>Example\<close>

definition ex_src :: dir where
  "ex_src = [(''notebook_002.ipynb'', Blob [65]), (''notebook_001.ipynb'', Blob [66]), (''readme.md'', Blob [])]"

definition ex_fis :: "(string \<times> int) list" where
  "ex_fis = [(''notebook_001.ipynb'', 1), (''notebook_002.ipynb'', 2)]"

section \<open>The loop\<close>

lemmas conv_eval = stem_index_def py_stem_def py_rfind_def item_name_def ipynb_files_def glob_suffix_def
  py_int_def py_strip_def py_isspace_def is_digit_def dec_value_def digit_val_def

lemma py_rfind_append:
  "c \<notin> set ys \<Longrightarrow> py_rfind c (xs @ c # ys) = Some (length xs)"
proof -
  assume c: "c \<notin> set ys"
  have "takeWhile (\<lambda>x. x \<noteq> c) (rev ys @ c # rev xs) = rev ys"
    using c by (subst takeWhile_append2) auto
  then show ?thesis by (simp add: py_rfind_def)
qed

lemma convert_loop_ok:
  "list_all (\<lambda>(fp, i). py_int (stem_index fp) = Inr i) fis \<Longrightarrow>
   convert_loop src (map fst fis) out created = (write_items src fis out, Inr (created @ map (item_name \<circ> fst) fis))"
  by (induction fis arbitrary: out created) (auto simp: write_items_def conv_item_def)

lemma convert_loop_error:
  "list_all (\<lambda>(fp, i). py_int (stem_index fp) = Inr i) fis \<Longrightarrow> py_int (stem_index fp) = Inl e \<Longrightarrow>
   convert_loop src (map fst fis @ fp # rest) out created = (write_items src fis out, Inl e)"
  by (induction fis arbitrary: out created) (auto simp: write_items_def conv_item_def)

lemma file_data_write_items:
  "distinct (map (item_name \<circ> fst) fis) \<Longrightarrow> (fp, i) \<in> set fis \<Longrightarrow>
   file_data (write_items src fis out) (item_name fp) = json_file (conv_item src fp i)"
proof (induction fis arbitrary: out rule: rev_induct)
  case Nil
  then show ?case by simp
next
  case (snoc x fis)
  obtain fp' i' where x: "x = (fp', i')" by (cases x)
  show ?case
  proof (cases "(fp, i) = x")
    case True
    then show ?thesis using x by (simp add: write_items_def file_data_write_file)
  next
    case False
    then have "(fp, i) \<in> set fis" using snoc.prems by simp
    moreover have "item_name fp \<noteq> item_name fp'"
      using snoc.prems calculation x by (auto simp: image_iff)
    ultimately show ?thesis using snoc x by (simp add: write_items_def file_data_write_file)
  qed
qed

lemma payload_make_item:
  "part_payload (make_item b (Some p)) 0 = Some b"
  "p \<noteq> [] \<Longrightarrow> part_payload (make_item b (Some p)) 1 = Some p"
  by (simp_all add: part_payload_def make_item_def json_get_def inline_part_def)

lemma b64encode_nonempty: "bs \<noteq> [] \<Longrightarrow> b64encode bs \<noteq> []"
  using b64_length[of bs] by (cases bs) auto

lemma utf8_encode_nonempty: "s \<noteq> [] \<Longrightarrow> utf8_encode s \<noteq> []"
  by (cases s) (simp_all add: utf8_encode_def)

lemma platform_b64_nonempty: "platform_b64 i \<noteq> []"
  by (simp add: platform_b64_def b64encode_nonempty utf8_encode_nonempty platform_obj_def)

lemma convert_all_ok:
  assumes "map fst fis = ipynb_files src" "list_all (\<lambda>(fp, i). py_int (stem_index fp) = Inr i) fis"
  shows "convert_all src out zip_ok =
           (write_items src fis out,
            Inr (map item_name (ipynb_files src),
                 if zip_ok then Some (zip_members (write_items src fis out) (map item_name (ipynb_files src)))
                 else None))"
proof -
  have "convert_loop src (ipynb_files src) out [] = (write_items src fis out, Inr (map (item_name \<circ> fst) fis))"
    using convert_loop_ok[OF assms(2)] assms(1) by simp
  then show ?thesis using assms(1) by (simp add: convert_all_def flip: map_map)
qed

lemma conv_item_payloads:
  "part_payload (conv_item src fp i) 0 = Some (encode_file_to_base64 src fp)"
  "part_payload (conv_item src fp i) 1 = Some (platform_b64 i)"
  using payload_make_item platform_b64_nonempty by (simp_all add: conv_item_def)

lemma ex_src_facts:
  "map fst [(''notebook_001.ipynb'', 1::int), (''notebook_002.ipynb'', 2)] = ipynb_files ex_src"
  "list_all (\<lambda>(fp, i). py_int (stem_index fp) = Inr i) [(''notebook_001.ipynb'', 1::int), (''notebook_002.ipynb'', 2)]"
  "distinct (map (item_name \<circ> fst) [(''notebook_001.ipynb'', 1::int), (''notebook_002.ipynb'', 2)])"
  by (simp_all add: conv_eval ex_src_def)

section \<open>Properties of convert_all\<close>

text \<open>
  C16. When every notebook's index parses and the item names are distinct, \<open>convert_all\<close>
  succeeds, reports one item per notebook in sorted order (zipped exactly when the archive
  could be written), and each item file holds the item built from its notebook and index.
\<close>

theorem convert_all_creates_items:
  assumes "map fst fis = ipynb_files src" "list_all (\<lambda>(fp, i). py_int (stem_index fp) = Inr i) fis"
    and "distinct (map (item_name \<circ> fst) fis)" and "convert_all src out zip_ok = (out', r)"
  shows "r = Inr (map item_name (ipynb_files src),
                  if zip_ok then Some (zip_members out' (map item_name (ipynb_files src))) else None)
         \<and> (\<forall>(fp, i) \<in> set fis. file_data out' (item_name fp) = json_file (conv_item src fp i))"
  using convert_all_ok[OF assms(1,2), of out zip_ok] assms(4) file_data_write_items[OF assms(3)] by auto

theorem convert_all_creates_items_witness:
  "snd (convert_all ex_src [] False) = Inr ([''item_notebook_001.json'', ''item_notebook_002.json''], None)
   \<and> file_data (fst (convert_all ex_src [] False)) ''item_notebook_002.json''
       = json_file (conv_item ex_src ''notebook_002.ipynb'' 2)"
  using convert_all_creates_items[OF ex_src_facts, of "[]" False "fst (convert_all ex_src [] False)"
          "snd (convert_all ex_src [] False)"]
  by (simp add: conv_eval ex_src_def)

text \<open>
  C17. Round trip: in the item written for a notebook, the first part's payload decodes to
  the notebook's bytes and the second part's payload to the compact JSON of the platform
  metadata for the notebook's index.
\<close>

theorem convert_payload_roundtrip:
  assumes "map fst fis = ipynb_files src" "list_all (\<lambda>(fp, i). py_int (stem_index fp) = Inr i) fis"
    and "distinct (map (item_name \<circ> fst) fis)" and "convert_all src out zip_ok = (out', r)"
    and "(fp, i) \<in> set fis"
  shows "\<exists>item. file_data out' (item_name fp) = json_file item
           \<and> map_option b64decode (part_payload item 0) = Some (Some (file_data src fp))
           \<and> map_option b64decode (part_payload item 1)
                 = Some (Some (utf8_encode (dumps_compact (platform_obj i))))"
proof -
  have "out' = write_items src fis out" using convert_all_ok[OF assms(1,2)] assms(4) by simp
  then have "file_data out' (item_name fp) = json_file (conv_item src fp i)"
    using file_data_write_items[OF assms(3,5)] by simp
  then show ?thesis using conv_item_payloads[of src fp i]
    by (intro exI[of _ "conv_item src fp i"])
       (simp add: b64_roundtrip encode_file_to_base64_def platform_b64_def)
qed

theorem convert_payload_roundtrip_witness:
  "\<exists>item. file_data (fst (convert_all ex_src [] True)) ''item_notebook_002.json'' = json_file item
     \<and> map_option b64decode (part_payload item 0) = Some (Some [65])
     \<and> map_option b64decode (part_payload item 1) = Some (Some (utf8_encode (dumps_compact (platform_obj 2))))"
  using convert_payload_roundtrip[OF ex_src_facts, of "[]" True "fst (convert_all ex_src [] True)"
          "snd (convert_all ex_src [] True)" "''notebook_002.ipynb''" 2]
  by (simp add: conv_eval ex_src_def file_data_def)

text \<open>
  C18. Error path: the first notebook whose index \<open>int()\<close> rejects stops the run with
  that exception; the items of the notebooks before it stay written and no archive is made.
\<close>

theorem convert_stops_at_bad_index:
  assumes "ipynb_files src = map fst fis @ fp # rest"
    and "list_all (\<lambda>(fp, i). py_int (stem_index fp) = Inr i) fis" "py_int (stem_index fp) = Inl e"
  shows "convert_all src out zip_ok = (write_items src fis out, Inl e)"
  using convert_loop_error[OF assms(2,3)] assms(1) by (simp add: convert_all_def)

theorem convert_stops_at_bad_index_witness:
  "convert_all (ex_src @ [(''notebook_x.ipynb'', Blob [])]) [] True
     = (write_items (ex_src @ [(''notebook_x.ipynb'', Blob [])]) ex_fis [], Inl (InvalidIntLiteral ''x''))"
  using convert_stops_at_bad_index[of "ex_src @ [(''notebook_x.ipynb'', Blob [])]" ex_fis
          "''notebook_x.ipynb''" "[]" "InvalidIntLiteral ''x''" "[]" True]
  by (simp add: conv_eval ex_src_def ex_fis_def)

text \<open>
  The example of the specification: a single \<open>notebook_007.ipynb\<close> gives the single item
  \<open>item_notebook_007.json\<close>, whose platform payload decodes to metadata that names the
  notebook \<open>Generated Notebook 7\<close> (the leading zeros are dropped by \<open>int()\<close>).
\<close>

theorem convert_notebook_007:
  assumes "convert_all [(''notebook_007.ipynb'', Blob bs)] out zip_ok = (out', r)"
  shows "fst (projr r) = [''item_notebook_007.json'']
    \<and> (\<exists>item. file_data out' ''item_notebook_007.json'' = json_file item
         \<and> map_option b64decode (part_payload item 1) = Some (Some (utf8_encode (dumps_compact (platform_obj 7)))))
    \<and> json_get (platform_obj 7) ''displayName'' = Some (JStr ''Generated Notebook 7'')"
proof -
  let ?src = "[(''notebook_007.ipynb'', Blob bs)]" and ?fis = "[(''notebook_007.ipynb'', 7::int)]"
  have h: "map fst ?fis = ipynb_files ?src"
    "list_all (\<lambda>(fp, i). py_int (stem_index fp) = Inr i) ?fis"
    "distinct (map (item_name \<circ> fst) ?fis)"
    by (simp_all add: conv_eval)
  have n: "item_name ''notebook_007.ipynb'' = ''item_notebook_007.json''" by (simp add: conv_eval)
  have c: "convert_all ?src out zip_ok = (write_items ?src ?fis out,
      Inr (map item_name (map fst ?fis),
           if zip_ok then Some (zip_members (write_items ?src ?fis out) (map item_name (map fst ?fis))) else None))"
    using convert_all_ok[OF h(1,2), of out zip_ok] unfolding h(1) .
  then have o: "out' = write_items ?src ?fis out" and r: "fst (projr r) = [''item_notebook_007.json'']"
    using assms n by auto
  have f: "file_data out' ''item_notebook_007.json'' = json_file (conv_item ?src ''notebook_007.ipynb'' 7)"
    using file_data_write_items[OF h(3), of "''notebook_007.ipynb''" 7] o n by simp
  show ?thesis using r f conv_item_payloads(2)[of ?src "''notebook_007.ipynb''" 7]
    by (auto simp: b64_roundtrip platform_b64_def json_get_def platform_obj_def py_simps)
qed

theorem convert_notebook_007_witness:
  "fst (projr (snd (convert_all [(''notebook_007.ipynb'', Blob [1, 2])] [] True))) = [''item_notebook_007.json'']"
  using convert_notebook_007[of "[1, 2]" "[]" True "fst (convert_all [(''notebook_007.ipynb'', Blob [1, 2])] [] True)"
          "snd (convert_all [(''notebook_007.ipynb'', Blob [1, 2])] [] True)"]
  by simp

text \<open>
  C31. A source directory without notebooks, or no source directory at all, is not reported
  as an error: \<open>main\<close> prints that 0 items were created and the output directory exists
  afterwards with its previous content (and, when the archive can be written, an empty
  archive is created beside it).
\<close>

theorem convert_empty_source_not_reported:
  assumes "ipynb_files (case map_of fs src of Some d \<Rightarrow> d | None \<Rightarrow> []) = []" "py_dirname out \<noteq> out"
  shows "(\<exists>ms. snd (conv_main fs src out zip_ok) = Inr ((''Created 0 item JSON files in: '' @ out) # ms))
         \<and> map_of (fst (conv_main fs src out zip_ok)) out
             = Some (case map_of fs out of Some d \<Rightarrow> d | None \<Rightarrow> [])"
  using assms
  by (auto simp: conv_main_def convert_all_def Let_def py_str_of_nat_0 map_of_set_dir split: option.splits)

theorem convert_empty_source_not_reported_witness:
  "(\<exists>ms. snd (conv_main [('''', [])] ''generated_notebooks'' ''generated_items'' True)
          = Inr (''Created 0 item JSON files in: generated_items'' # ms))
   \<and> map_of (fst (conv_main [('''', [])] ''generated_notebooks'' ''generated_items'' True)) ''generated_items''
       = Some []"
  using convert_empty_source_not_reported[of "[('''', [])]" "''generated_notebooks''" "''generated_items''" True]
  by (simp add: ipynb_files_def py_dirname_def)

end
