(* ===== verification/Generator.thy ===== *)
theory Generator
  imports Json
begin

text \<open>
  Model of \<open>src/scripts/generate_notebooks.py\<close>. \<open>TEMPLATE\<close> is the notebook every file
  starts from; \<open>generate_data\<close> is the dictionary \<open>generate_notebook\<close> builds from it
  (\<open>deepcopy\<close> is the identity on values; dictionary assignment keeps the position of an
  existing key and appends a new one, \<open>setdefault\<close> only adds a missing key);
  \<open>generate_notebook\<close> writes it with \<open>json.dump(indent=2)\<close> as
  \<open>notebook_{index:03d}.ipynb\<close>; \<open>gen_main\<close> is \<open>main\<close> over an existing or new output
  directory. The lemmas show the number, names and content of the files, that a second run
  changes nothing, and that the sorted order of the names, which the converter and the
  uploader use, is the order of the indices up to 999 and not beyond.
\<close>

section \<open>The template\<close>

definition tmpl_cells :: "json list" where
  "tmpl_cells =
     [JObj [(''cell_type'', JStr ''markdown''),
            (''metadata'', JObj [(''language'', JStr ''markdown'')]),
            (''source'', JArr [JStr ''# Notebook'',
                               JStr ''This notebook was generated for import into Microsoft Fabric.''])],
      JObj [(''cell_type'', JStr ''code''),
            (''metadata'', JObj [(''language'', JStr ''python'')]),
            (''execution_count'', JNull),
            (''outputs'', JArr []),
            (''source'', JArr [JStr ''# Sample cell'',
                               JStr (''print('' @ [CHR 0x22] @ ''Hello from generated notebook'' @ [CHR 0x22] @ '')'')])]]"

text \<open>The module constant \<open>TEMPLATE\<close>, as its items.\<close>

definition TEMPLATE :: "(string \<times> json) list" where
  "TEMPLATE =
     [(''nbformat'', JInt 4), (''nbformat_minor'', JInt 5), (''cells'', JArr tmpl_cells),
      (''metadata'', JObj [(''language_info'', JObj [(''name'', JStr ''python'')])])]"

text \<open>
  \<open>d[k] = v\<close> and \<open>d.setdefault(k, v)\<close> on a dictionary: an existing key keeps its position,
  a new key goes last.
\<close>

definition obj_set :: "(string \<times> json) list \<Rightarrow> string \<Rightarrow> json \<Rightarrow> (string \<times> json) list" where
  "obj_set kvs k v =
     (if k \<in> set (map fst kvs) then map (\<lambda>(k', v'). if k' = k then (k', v) else (k', v')) kvs
      else kvs @ [(k, v)])"

definition obj_setdefault :: "(string \<times> json) list \<Rightarrow> string \<Rightarrow> json \<Rightarrow> (string \<times> json) list" where
  "obj_setdefault kvs k v = (if k \<in> set (map fst kvs) then kvs else kvs @ [(k, v)])"

text \<open>The marker line of the first cell, \<open>f"Generated notebook #{index} for Fabric import."\<close>.\<close>

definition marker :: "int \<Rightarrow> string" where
  "marker index = ''Generated notebook #'' @ py_str_of_int index @ '' for Fabric import.''"

text \<open>The dictionary \<open>data\<close> that \<open>generate_notebook\<close> dumps.\<close>

definition generate_data :: "int \<Rightarrow> json" where
  "generate_data index =
     (let data = obj_set TEMPLATE ''cells'' (JArr tmpl_cells);
          cells = (case tmpl_cells of
                     JObj c0 # rest \<Rightarrow>
                       JObj (obj_set c0 ''source'' (JArr [JStr ''# Notebook'', JStr (marker index)])) # rest
                   | cs \<Rightarrow> cs);
          data = obj_set data ''cells'' (JArr cells);
          data = obj_setdefault data ''nbformat'' (JInt 4);
          data = obj_setdefault data ''nbformat_minor'' (JInt 5);
          data = obj_setdefault data ''metadata'' (JObj [(''language_info'', JObj [(''name'', JStr ''python'')])])
      in JObj data)"

text \<open>\<open>name = f"notebook_{index:03d}.ipynb"\<close>.\<close>

definition nb_name :: "int \<Rightarrow> string" where
  "nb_name index = ''notebook_'' @ fmt_03d index @ ''.ipynb''"

text \<open>
  \<open>generate_notebook(path, index)\<close> on the directory \<open>d\<close> at \<open>path\<close>: writes the notebook
  and returns the path it wrote.
\<close>

definition generate_notebook :: "string \<Rightarrow> dir \<Rightarrow> int \<Rightarrow> dir \<times> string" where
  "generate_notebook path d index =
     (let name = nb_name index; out = py_path_join path name
      in (write_file d name (Blob (json_file (generate_data index))), out))"

text \<open>
  \<open>main()\<close>: \<open>d\<close> is the content of \<open>outdir\<close> (empty when \<open>ensure_dir\<close> creates it);
  \<open>range(1, args.count + 1)\<close> is \<open>[1..count_arg]\<close> (see \<open>py_range_gen\<close>). Whether
  \<open>zipfile\<close> succeeds is the oracle \<open>zip_ok\<close>; the archive, written beside \<open>outdir\<close>,
  is returned with the printed lines.
\<close>

definition gen_main :: "string \<Rightarrow> string \<Rightarrow> int \<Rightarrow> dir \<Rightarrow> bool \<Rightarrow> dir \<times> archive option \<times> string list" where
  "gen_main repo_root outarg count_arg d zip_ok =
     (let outdir = py_path_join repo_root outarg;
          (d', created) = fold (\<lambda>i (d, created). let (d', p) = generate_notebook outdir d i in (d', created @ [p]))
                            [1..count_arg] (d, []);
          zip_path = py_path_join repo_root (outarg @ ''.zip'')
      in (d', if zip_ok then Some (zip_members d' (map py_basename created)) else None,
          [''Created '' @ py_str_of_nat (length created) @ '' notebooks in: '' @ outdir]
          @ (if zip_ok then [''Zip created: '' @ zip_path] else [])))"

section \<open>Reference definitions\<close>

text \<open>The directory after the notebooks of the indices \<open>is\<close> have been written in order.\<close>

definition nb_writes :: "int list \<Rightarrow> dir \<Rightarrow> dir" where
  "nb_writes is d = fold (\<lambda>i d. write_file d (nb_name i) (Blob (json_file (generate_data i)))) is d"

section \<open>Names\<close>

lemma fmt_03d_chars: "c \<in> set (fmt_03d i) \<Longrightarrow> is_digit c \<or> c = CHR ''-''"
  using py_str_of_nat_is_digit is_digit_0 by (auto simp: fmt_03d_def split: if_splits)

lemma fmt_03d_3:
  assumes "0 \<le> i" "i \<le> 999"
  shows "length (fmt_03d i) = 3" "\<forall>c \<in> set (fmt_03d i). is_digit c" "dec_value (fmt_03d i) = nat i"
proof -
  have "length (py_str_of_nat (nat i)) \<le> 3" using assms by (intro length_py_str_of_nat) auto
  then show "length (fmt_03d i) = 3" using assms by (simp add: fmt_03d_def)
qed (use assms padded_digits in \<open>simp_all add: fmt_03d_def\<close>)

lemma nb_name_mono:
  assumes "0 \<le> i" "i < j" "j \<le> 999" shows "nb_name i < nb_name j"
proof -
  have l: "length (fmt_03d i) = length (fmt_03d j)" using fmt_03d_3(1) assms by simp
  have "fmt_03d i < fmt_03d j"
    using fmt_03d_3[of i] fmt_03d_3[of j] assms by (subst digits_less_iff) auto
  from list_less_append_same_len[OF this l] show ?thesis unfolding nb_name_def .
qed

lemma nb_name_inj:
  assumes "nb_name i = nb_name j" shows "i = j"
proof -
  have "fmt_03d i = fmt_03d j" using assms unfolding nb_name_def by (simp only: same_append_eq append_same_eq)
  then have "Inr i = (Inr j :: exc + int)" by (metis py_int_fmt_03d)
  then show ?thesis by simp
qed

lemma nb_name_no_slash: "CHR ''/'' \<notin> set (nb_name i)"
proof -
  have "\<not> is_digit CHR ''/''" by (simp add: is_digit_def less_eq_char_def)
  then show ?thesis using fmt_03d_chars[of "CHR ''/''" i] by (auto simp: nb_name_def)
qed

lemma gen_fold:
  "fold (\<lambda>i (d, created). let (d', p) = generate_notebook outdir d i in (d', created @ [p])) is (d, cs)
   = (nb_writes is d, cs @ map (\<lambda>i. py_path_join outdir (nb_name i)) is)"
  by (induction "is" arbitrary: d cs) (simp_all add: generate_notebook_def nb_writes_def Let_def)

lemma gen_main_eq:
  "gen_main repo_root outarg n d zip_ok =
     (nb_writes [1..n] d,
      if zip_ok then Some (zip_members (nb_writes [1..n] d) (map nb_name [1..n])) else None,
      [''Created '' @ py_str_of_nat (nat n) @ '' notebooks in: '' @ py_path_join repo_root outarg]
      @ (if zip_ok then [''Zip created: '' @ py_path_join repo_root (outarg @ ''.zip'')] else []))"
  unfolding gen_main_def Let_def gen_fold[unfolded Let_def]
  by (simp add: comp_def basename_join nb_name_no_slash)

lemma nb_writes_fresh:
  "distinct (map fst (nb_writes [1..n] []))" "set (map fst (nb_writes [1..n] [])) = nb_name ` {1..n}"
  "length (nb_writes [1..n] []) = nat n"
proof -
  show d: "distinct (map fst (nb_writes [1..n] []))" by (simp add: nb_writes_def distinct_fold_write)
  show s: "set (map fst (nb_writes [1..n] [])) = nb_name ` {1..n}" unfolding nb_writes_def names_fold_write by simp
  have "inj_on nb_name {1..n}" using nb_name_inj by (auto intro: inj_onI)
  then have "card (set (map fst (nb_writes [1..n] []))) = nat n" unfolding s by (simp add: card_image)
  then show "length (nb_writes [1..n] []) = nat n" using distinct_card[OF d] by simp
qed

lemma file_data_nb_writes:
  "i \<in> set is \<Longrightarrow> distinct is \<Longrightarrow> file_data (nb_writes is d) (nb_name i) = json_file (generate_data i)"
  unfolding nb_writes_def
  by (rule file_data_fold_write) (auto simp: distinct_map intro: inj_onI nb_name_inj)

lemma nb_name_1000_before_101: "nb_name 1000 < nb_name 101"
  by code_simp

section \<open>Properties of the generator\<close>

text \<open>
  C20. Generating \<open>n\<close> notebooks into a fresh directory writes exactly \<open>max 0 n\<close> files,
  named \<open>nb_name 1\<close> to \<open>nb_name n\<close>; file \<open>i\<close> holds notebook \<open>i\<close> as
  \<open>json.dump\<close> writes it, and the first line printed reports the count.
\<close>

theorem generate_creates_n:
  assumes "gen_main repo_root outarg n [] zip_ok = (d, z, out)"
  shows "length d = nat n \<and> set (map fst d) = nb_name ` {1..n}
         \<and> (\<forall>i \<in> {1..n}. file_data d (nb_name i) = json_file (generate_data i))
         \<and> hd out = ''Created '' @ py_str_of_nat (nat n) @ '' notebooks in: '' @ py_path_join repo_root outarg"
proof -
  have "d = nb_writes [1..n] []"
    and "hd out = ''Created '' @ py_str_of_nat (nat n) @ '' notebooks in: '' @ py_path_join repo_root outarg"
    using assms unfolding gen_main_eq by auto
  then show ?thesis using nb_writes_fresh file_data_nb_writes[of _ "[1..n]" "[]"] by simp
qed

theorem generate_creates_n_witness:
  "length (fst (gen_main ''/repo'' ''generated_notebooks'' 3 [] True)) = 3
   \<and> file_data (fst (gen_main ''/repo'' ''generated_notebooks'' 3 [] True)) (nb_name 2) = json_file (generate_data 2)"
  using generate_creates_n[of "''/repo''" "''generated_notebooks''" 3 True
          "fst (gen_main ''/repo'' ''generated_notebooks'' 3 [] True)"
          "fst (snd (gen_main ''/repo'' ''generated_notebooks'' 3 [] True))"
          "snd (snd (gen_main ''/repo'' ''generated_notebooks'' 3 [] True))"]
  by simp

text \<open>
  C21. Every generated notebook has the template's format fields and exactly two cells: a
  markdown cell whose source carries the per-notebook marker, and the template's code cell.
\<close>

theorem generate_data_shape:
  "generate_data index =
     JObj [(''nbformat'', JInt 4), (''nbformat_minor'', JInt 5),
           (''cells'', JArr [JObj [(''cell_type'', JStr ''markdown''),
                                  (''metadata'', JObj [(''language'', JStr ''markdown'')]),
                                  (''source'', JArr [JStr ''# Notebook'', JStr (marker index)])],
                            tmpl_cells ! 1]),
           (''metadata'', JObj [(''language_info'', JObj [(''name'', JStr ''python'')])])]"
  by (simp add: generate_data_def TEMPLATE_def tmpl_cells_def obj_set_def obj_setdefault_def)

text \<open>
  C22. For counts up to 999 the sorted file names, the order in which the converter and the
  uploader read them, are the names in index order.
\<close>

theorem generate_sorted_upto_999:
  assumes "n \<le> 999" "gen_main repo_root outarg n [] zip_ok = (d, z, out)"
  shows "sort (map fst d) = map nb_name [1..n]"
proof (rule properties_for_sort)
  have "d = nb_writes [1..n] []" using assms(2) by (simp add: gen_main_eq)
  then have "distinct (map fst d)" "set (map fst d) = set (map nb_name [1..n])"
    using nb_writes_fresh by auto
  moreover have "distinct (map nb_name [1..n])" by (auto simp: distinct_map intro: inj_onI nb_name_inj)
  ultimately show "mset (map nb_name [1..n]) = mset (map fst d)" by (metis set_eq_iff_mset_eq_distinct)
  have "sorted_wrt (\<lambda>x y. nb_name x < nb_name y) [1..n]"
  proof (rule sorted_wrt_mono_rel[OF _ sorted_wrt_upto[of 1 n]])
    fix x y assume "x \<in> set [1..n]" "y \<in> set [1..n]" "x < y"
    then show "nb_name x < nb_name y" using assms(1) by (intro nb_name_mono) auto
  qed
  then have "sorted_wrt (<) (map nb_name [1..n])" by (simp add: sorted_wrt_map)
  then show "sorted (map nb_name [1..n])" by (rule strict_sorted_imp_sorted)
qed

theorem generate_sorted_upto_999_witness:
  "sort (map fst (fst (gen_main ''/repo'' ''generated_notebooks'' 3 [] True))) = map nb_name [1..3]"
  by (rule generate_sorted_upto_999[of 3 "''/repo''" "''generated_notebooks''" True
        "fst (gen_main ''/repo'' ''generated_notebooks'' 3 [] True)"
        "fst (snd (gen_main ''/repo'' ''generated_notebooks'' 3 [] True))"
        "snd (snd (gen_main ''/repo'' ''generated_notebooks'' 3 [] True))"]) simp_all

text \<open>
  C23. From 1000 notebooks on, the sorted order is no longer the index order:
  \<open>notebook_1000.ipynb\<close> sorts before \<open>notebook_101.ipynb\<close>.
\<close>

theorem generate_sort_breaks_at_1000:
  assumes "1000 \<le> n" "gen_main repo_root outarg n [] zip_ok = (d, z, out)"
  shows "sort (map fst d) \<noteq> map nb_name [1..n]"
proof
  assume "sort (map fst d) = map nb_name [1..n]"
  then have s: "sorted (map nb_name [1..n])" by (metis sorted_sort)
  have "map nb_name [1..n] ! 100 \<le> map nb_name [1..n] ! 999"
    using assms(1) by (intro sorted_nth_mono[OF s]) auto
  moreover have "[1..n] ! 100 = 101" "[1..n] ! 999 = 1000" using assms(1) by (simp_all add: nth_upto)
  ultimately have "nb_name 101 \<le> nb_name 1000" using assms(1) by simp
  then show False using nb_name_1000_before_101 by simp
qed

theorem generate_sort_breaks_at_1000_witness:
  "sort (map fst (fst (gen_main ''/repo'' ''generated_notebooks'' 1000 [] True))) \<noteq> map nb_name [1..1000]"
  by (rule generate_sort_breaks_at_1000[of 1000 "''/repo''" "''generated_notebooks''" True
        "fst (gen_main ''/repo'' ''generated_notebooks'' 1000 [] True)"
        "fst (snd (gen_main ''/repo'' ''generated_notebooks'' 1000 [] True))"
        "snd (snd (gen_main ''/repo'' ''generated_notebooks'' 1000 [] True))"]) simp_all

end
