(* ===== verification/Rewriter.thy ===== *)
theory Rewriter
  imports Json
begin

text \<open>
  Model of \<open>src/scripts/update_items_with_template.py\<close>. The file system is a list of
  directories by path, each a directory of files (\<open>fs\<close>, in the prelude). \<open>update_all\<close> optionally replaces
  the backup \<open>src_dir + "_bak"\<close> by a copy of \<open>src_dir\<close> (\<open>backup_step\<close>), overwrites every
  \<open>item_*.json\<close> of \<open>src_dir\<close>, in sorted order, with the fixed item of display name
  \<open>"Notebook i"\<close> (\<open>rewrite_files\<close>), and writes \<open>updated_items.zip\<close> into \<open>src_dir\<close>.
  Whether \<open>zipfile\<close> fails, and with which message, is the oracle \<open>zip_err\<close> (\<open>None\<close>: it
  succeeds); on a missing \<open>src_dir\<close> opening the archive always fails.
\<close>

section \<open>The template\<close>

definition tpl_payload0 :: string where
  "tpl_payload0 = ''ewogICJuYmZvcm1hdCI6IDQsCiAgIm5iZm9ybWF0X21pbm9yIjogNSwKICAiY2VsbHMiOiBbCiAgICB7CiAgICAgICJjZWxsX3R5cGUiOiAibWFya2Rvd24iLAogICAgICAibWV0YWRhdGEiOiB7CiAgICAgICAgImxhbmd1YWdlIjogIm1hcmtkb3duIgogICAgICB9LAogICAgICAic291cmNlIjogWwogICAgICAgICIjIE5vdGVib29rIiwKICAgICAgICAiR2VuZXJhdGVkIG5vdGVib29rICMxIGZvciBGYWJyaWMgaW1wb3J0LiIKICAgICAgXQogICAgfSwKICAgIHsKICAgICAgImNlbGxfdHlwZSI6ICJjb2RlIiwKICAgICAgIm1ldGFkYXRhIjogewogICAgICAgICJsYW5ndWFnZSI6ICJweXRob24iCiAgICAgIH0sCiAgICAgICJleGVjdXRpb25fY291bnQiOiBudWxsLAogICAgICAib3V0cHV0cyI6IFtdLAogICAgICAic291cmNlIjogWwogICAgICAgICIjIFNhbXBsZSBjZWxsIiwKICAgICAgICAicHJpbnQoXCJIZWxsbyBmcm9tIGdlbmVyYXRlZCBub3RlYm9va1wiKSIKICAgICAgXQogICAgfQogIF0sCiAgIm1ldGFkYXRhIjogewogICAgImxhbmd1YWdlX2luZm8iOiB7CiAgICAgICJuYW1lIjogInB5dGhvbiIKICAgIH0KICB9Cn0=''"

definition tpl_payload1 :: string where
  "tpl_payload1 = ''eyJrZXJuZWxfaW5mbyI6eyJuYW1lIjoic3luYXBzZV9weXNwYXJrIn0sImRlcGVuZGVuY2llcyI6e30sImRpc3BsYXlOYW1lIjoiR2VuZXJhdGVkIE5vdGVib29rIDEiLCJtZXRhZGF0YSI6eyJsYW5ndWFnZSI6InB5dGhvbiIsImxhbmd1YWdlX2dyb3VwIjoic3luYXBzZV9weXNwYXJrIn19''"

definition TEMPLATE_PARTS :: "json list" where
  "TEMPLATE_PARTS =
     [JObj [(''path'', JStr ''notebook-content.py''), (''payload'', JStr tpl_payload0),
            (''payloadType'', JStr ''InlineBase64'')],
      JObj [(''path'', JStr ''.platform''), (''payload'', JStr tpl_payload1),
            (''payloadType'', JStr ''InlineBase64'')]]"

section \<open>update_all\<close>

text \<open>
  The backup: \<open>shutil.rmtree\<close> of an existing backup, then \<open>shutil.copytree\<close>, which
  raises on a missing source after the old backup is gone.
\<close>

definition backup_step :: "fs \<Rightarrow> string \<Rightarrow> fs \<times> (exc + string list)" where
  "backup_step fs src_dir =
     (let backup_dir = src_dir @ ''_bak'';
          fs1 = (if backup_dir \<in> set (map fst fs) then del_dir fs backup_dir else fs)
      in case map_of fs src_dir of
           None \<Rightarrow> (fs1, Inl (FileNotFound src_dir))
         | Some d \<Rightarrow> (set_dir fs1 backup_dir d, Inr [''Backup created: '' @ backup_dir]))"

definition item_files :: "dir \<Rightarrow> string list" where
  "item_files d = sort (filter (glob_affix ''item_'' ''.json'') (map fst d))"

definition rewritten_item :: "int \<Rightarrow> json" where
  "rewritten_item i =
     JObj [(''displayName'', JStr (''Notebook '' @ py_str_of_int i)),
           (''description'', JStr ''A notebook description''),
           (''type'', JStr ''Notebook''),
           (''parts'', JArr TEMPLATE_PARTS)]"

text \<open>The loop \<open>for i, fp in enumerate(files, start=1)\<close>.\<close>

definition rewrite_files :: "string list \<Rightarrow> dir \<Rightarrow> dir" where
  "rewrite_files files d =
     fold (\<lambda>(i, fp) d. write_file d fp (Blob (json_file (rewritten_item i)))) (zip [1..int (length files)] files) d"

definition update_all :: "fs \<Rightarrow> string \<Rightarrow> bool \<Rightarrow> string option \<Rightarrow> fs \<times> (exc + string list)" where
  "update_all fs src_dir backup zip_err =
     (case (if backup then backup_step fs src_dir else (fs, Inr [])) of
        (fs1, Inl e) \<Rightarrow> (fs1, Inl e)
      | (fs1, Inr out) \<Rightarrow>
          (let zip_path = py_path_join src_dir ''updated_items.zip''
           in case map_of fs1 src_dir of
                None \<Rightarrow>
                  (fs1, Inr (out @ [''Failed to create zip: [Errno 2] No such file or directory: ''
                                    @ [CHR 0x27] @ zip_path @ [CHR 0x27]]))
              | Some d \<Rightarrow>
                  (let files = item_files d; d' = rewrite_files files d
                   in case zip_err of
                        None \<Rightarrow>
                          (set_dir fs1 src_dir
                             (write_file d' ''updated_items.zip'' (Archive (zip_members d' files))),
                           Inr (out @ [''Created zip: '' @ zip_path]))
                      | Some e \<Rightarrow> (set_dir fs1 src_dir d', Inr (out @ [''Failed to create zip: '' @ e])))))"


section \<open>Reference definitions\<close>

text \<open>The source directory after a successful rewrite, with or without the archive.\<close>

definition rewritten_dir :: "dir \<Rightarrow> string option \<Rightarrow> dir" where
  "rewritten_dir d zip_err =
     (let files = item_files d; d' = rewrite_files files d
      in case zip_err of None \<Rightarrow> write_file d' ''updated_items.zip'' (Archive (zip_members d' files))
                       | Some e \<Rightarrow> d')"

section \<open>Example\<close>

definition ex_items :: dir where
  "ex_items = [(''item_notebook_002.json'', Blob [1]), (''item_notebook_001.json'', Blob [2]),
               (''notes.txt'', Blob [3])]"

definition ex_fs :: fs where
  "ex_fs = [(''generated_items'', ex_items), (''generated_items_bak'', [(''old.json'', Blob [])])]"

section \<open>Lemmas\<close>

lemma backup_step_ok:
  "map_of fs src_dir = Some d \<Longrightarrow>
   backup_step fs src_dir = (set_dir (del_dir fs (src_dir @ ''_bak'')) (src_dir @ ''_bak'') d,
                             Inr [''Backup created: '' @ src_dir @ ''_bak''])"
  by (simp add: backup_step_def Let_def del_dir_absent)

lemma backup_step_missing:
  "map_of fs src_dir = None \<Longrightarrow>
   backup_step fs src_dir = (del_dir fs (src_dir @ ''_bak''), Inl (FileNotFound src_dir))"
  by (simp add: backup_step_def Let_def del_dir_absent)

lemma rewrite_files_fold:
  "rewrite_files files d =
     fold (\<lambda>x d. write_file d (snd x) (Blob (json_file (rewritten_item (fst x))))) (zip [1..int (length files)] files) d"
proof -
  have "(\<lambda>(i, fp) d. write_file d fp (Blob (json_file (rewritten_item i)))) =
        (\<lambda>x d. write_file d (snd x) (Blob (json_file (rewritten_item (fst x)))))"
    by (auto simp: fun_eq_iff)
  then show ?thesis by (simp add: rewrite_files_def)
qed

lemma length_upto_1: "length [1..int n] = n"
  by simp

lemma rewrite_files_nth:
  assumes "distinct files" "k < length files"
  shows "file_data (rewrite_files files d) (files ! k) = json_file (rewritten_item (int k + 1))"
proof -
  let ?xs = "zip [1..int (length files)] files"
  have "map snd ?xs = files" by (simp add: length_upto_1)
  moreover have "(int k + 1, files ! k) \<in> set ?xs"
    using assms(2) by (auto simp: in_set_conv_nth nth_upto intro!: exI[of _ k])
  ultimately show ?thesis
    using file_data_fold_write[of snd ?xs "(int k + 1, files ! k)" "\<lambda>x. json_file (rewritten_item (fst x))" d] assms(1)
    by (simp add: rewrite_files_fold)
qed

lemma rewrite_files_other:
  "m \<notin> set files \<Longrightarrow> map_of (rewrite_files files d) m = map_of d m"
  unfolding rewrite_files_fold by (subst map_of_fold_write) (auto simp: length_upto_1 image_iff
      dest: set_zip_rightD)

lemma rewrite_files_distinct: "distinct (map fst d) \<Longrightarrow> distinct (map fst (rewrite_files files d))"
  unfolding rewrite_files_fold by (rule distinct_fold_write)

lemma item_files_distinct: "distinct (map fst d) \<Longrightarrow> distinct (item_files d)"
  by (simp add: item_files_def)


lemma update_all_present:
  assumes "map_of fs src_dir = Some d"
  shows "\<exists>out. snd (update_all fs src_dir backup zip_err) = Inr out"
    "map_of (fst (update_all fs src_dir backup zip_err)) src_dir = Some (rewritten_dir d zip_err)"
    "map_of (fst (update_all fs src_dir backup zip_err)) (src_dir @ ''_bak'') =
       (if backup then Some d else map_of fs (src_dir @ ''_bak''))"
  using assms
  by (cases backup; cases zip_err;
      simp add: update_all_def backup_step_ok rewritten_dir_def Let_def map_of_set_dir map_of_del_dir)+

lemma item_file_not_zip: "fp \<in> set (item_files d) \<Longrightarrow> fp \<noteq> ''updated_items.zip''"
  by (auto simp: item_files_def glob_affix_def)

lemma rewritten_dir_distinct: "distinct (map fst d) \<Longrightarrow> distinct (map fst (rewritten_dir d zip_err))"
  by (cases zip_err) (simp_all add: rewritten_dir_def Let_def distinct_write_file rewrite_files_distinct)

lemma file_data_rewritten_dir:
  assumes "distinct (map fst d)" "k < length (item_files d)"
  shows "file_data (rewritten_dir d zip_err) (item_files d ! k) = json_file (rewritten_item (int k + 1))"
  using rewrite_files_nth[OF item_files_distinct[OF assms(1)] assms(2)] item_file_not_zip[OF nth_mem[OF assms(2)]]
  by (cases zip_err) (simp_all add: rewritten_dir_def Let_def file_data_write_other)


lemma ex_items_facts:
  "item_files ex_items = [''item_notebook_001.json'', ''item_notebook_002.json'']"
  "distinct (map fst ex_items)" "map_of ex_fs ''generated_items'' = Some ex_items"
  by code_simp+

section \<open>Properties of update_all\<close>

text \<open>
  C24. On an existing source directory (file names distinct) the rewrite never fails: the
  \<open>k\<close>-th \<open>item_*.json\<close> file in sorted order is overwritten with the fixed item whose display
  name is \<open>"Notebook (k+1)"\<close> and whose parts are \<open>TEMPLATE_PARTS\<close>, whatever the zip does;
  every other file except the archive is left as it was.
\<close>

theorem rewrite_names_by_rank:
  assumes "map_of fs src_dir = Some d" "distinct (map fst d)"
    and "update_all fs src_dir backup zip_err = (fs', r)"
  shows "(\<exists>out. r = Inr out)
         \<and> (\<exists>d'. map_of fs' src_dir = Some d'
               \<and> (\<forall>k < length (item_files d). file_data d' (item_files d ! k) = json_file (rewritten_item (int k + 1)))
               \<and> (\<forall>m. m \<notin> set (item_files d) \<and> m \<noteq> ''updated_items.zip'' \<longrightarrow> map_of d' m = map_of d m))"
proof -
  have r: "\<exists>out. r = Inr out" and d': "map_of fs' src_dir = Some (rewritten_dir d zip_err)"
    using update_all_present[OF assms(1), of backup zip_err] assms(3) by simp_all
  have "file_data (rewritten_dir d zip_err) (item_files d ! k) = json_file (rewritten_item (int k + 1))"
    if "k < length (item_files d)" for k
    using file_data_rewritten_dir[OF assms(2) that] .
  moreover have "map_of (rewritten_dir d zip_err) m = map_of d m"
    if "m \<notin> set (item_files d)" "m \<noteq> ''updated_items.zip''" for m
    using that rewrite_files_other[OF that(1)]
    by (cases zip_err) (simp_all add: rewritten_dir_def Let_def map_of_write_file)
  ultimately show ?thesis using r d' by blast
qed

theorem rewrite_names_by_rank_witness:
  "file_data (the (map_of (fst (update_all ex_fs ''generated_items'' True None)) ''generated_items''))
     ''item_notebook_002.json'' = json_file (rewritten_item 2)"
proof -
  obtain fs' r where u: "update_all ex_fs ''generated_items'' True None = (fs', r)" by fastforce
  from rewrite_names_by_rank[OF ex_items_facts(3,2) u] obtain d' where
    "map_of fs' ''generated_items'' = Some d'"
    "\<forall>k < length (item_files ex_items). file_data d' (item_files ex_items ! k) = json_file (rewritten_item (int k + 1))"
    by blast
  moreover have "file_data d' (item_files ex_items ! 1) = json_file (rewritten_item (int 1 + 1))"
    using calculation(2)[rule_format, of 1] by (simp add: ex_items_facts(1))
  ultimately show ?thesis using u by (simp add: ex_items_facts(1))
qed

text \<open>
  C25. With the backup enabled, the backup directory afterwards holds exactly the files the
  source directory held before the rewrite.
\<close>

theorem rewrite_backup_identical:
  "map_of fs src_dir = Some d \<Longrightarrow> map_of (fst (update_all fs src_dir True zip_err)) (src_dir @ ''_bak'') = Some d"
  using update_all_present(3) by simp

theorem rewrite_backup_identical_witness:
  "map_of (fst (update_all ex_fs ''generated_items'' True None)) ''generated_items_bak'' = Some ex_items"
  using rewrite_backup_identical[OF ex_items_facts(3), of None] by simp

text \<open>
  C26. Error path: with the backup enabled and no source directory, \<open>copytree\<close> raises
  after \<open>rmtree\<close> has already deleted the previous backup: the run fails and the old
  backup is gone.
\<close>

theorem rewrite_missing_src_drops_backup:
  "map_of fs src_dir = None \<Longrightarrow>
   update_all fs src_dir True zip_err = (del_dir fs (src_dir @ ''_bak''), Inl (FileNotFound src_dir))"
  by (simp add: update_all_def backup_step_missing)

theorem rewrite_missing_src_drops_backup_witness:
  "update_all [(''generated_items_bak'', ex_items)] ''generated_items'' True None
     = ([], Inl (FileNotFound ''generated_items''))"
  using rewrite_missing_src_drops_backup[of "[(''generated_items_bak'', ex_items)]" "''generated_items''" None]
  by (simp add: del_dir_def)

text \<open>
  C27. When the archive can be written, \<open>updated_items.zip\<close> in the source directory holds
  the rewritten item files, in sorted order, each with its rewritten content.
\<close>

theorem rewrite_zip_contents:
  assumes "map_of fs src_dir = Some d" "distinct (map fst d)"
    and "update_all fs src_dir backup None = (fs', r)"
  shows "\<exists>d'. map_of fs' src_dir = Some d'
           \<and> map_of d' ''updated_items.zip''
               = Some (Archive (map (\<lambda>(i, fp). (fp, json_file (rewritten_item i)))
                                  (zip [1..int (length (item_files d))] (item_files d))))"
proof -
  let ?fs = "item_files d"
  have "zip_members (rewrite_files ?fs d) ?fs
        = map (\<lambda>(i, fp). (fp, json_file (rewritten_item i))) (zip [1..int (length ?fs)] ?fs)"
    by (rule nth_equalityI)
       (simp_all add: zip_members_def length_upto_1 nth_upto rewrite_files_nth item_files_distinct[OF assms(2)]
          add.commute)
  then show ?thesis using update_all_present(2)[OF assms(1), of backup None] assms(3)
    by (simp add: rewritten_dir_def Let_def map_of_write_file)
qed

theorem rewrite_zip_contents_witness:
  "map_of (the (map_of (fst (update_all ex_fs ''generated_items'' False None)) ''generated_items''))
     ''updated_items.zip''
   = Some (Archive [(''item_notebook_001.json'', json_file (rewritten_item 1)),
                    (''item_notebook_002.json'', json_file (rewritten_item 2))])"
proof -
  obtain fs' r where u: "update_all ex_fs ''generated_items'' False None = (fs', r)" by fastforce
  from rewrite_zip_contents[OF ex_items_facts(3,2) u] u show ?thesis
    by (auto simp: ex_items_facts(1) upto.simps)
qed

end
