(* ===== verification/ItemSchema.thy ===== *)
theory ItemSchema
  imports Json Base64
begin

text \<open>
  The item definition format that the converter and the rewriter write and the uploader
  posts, as the specification states it: a top-level object with either a \<open>format\<close>
  string (the converter's shape) or \<open>displayName\<close>, \<open>description\<close> and \<open>type\<close>
  strings (the rewriter's shape), then \<open>parts\<close>, a non-empty array of parts, each
  \<open>{path: string, payload: base64 string, payloadType: "InlineBase64"}\<close> with its keys
  in that order. The schema is a predicate on \<open>json\<close> values, executable, so that a
  concrete item can be checked by evaluation.
\<close>

definition is_b64 :: "string \<Rightarrow> bool" where
  "is_b64 s \<longleftrightarrow> b64decode s \<noteq> None"

definition part_ok :: "json \<Rightarrow> bool" where
  "part_ok p =
     (case p of
        JObj [(k1, JStr path), (k2, JStr payload), (k3, JStr ty)] \<Rightarrow>
          k1 = ''path'' \<and> k2 = ''payload'' \<and> k3 = ''payloadType''
          \<and> is_b64 payload \<and> ty = ''InlineBase64''
      | _ \<Rightarrow> False)"

definition parts_ok :: "json \<Rightarrow> bool" where
  "parts_ok v = (case v of JArr ps \<Rightarrow> ps \<noteq> [] \<and> list_all part_ok ps | _ \<Rightarrow> False)"

definition item_ok :: "json \<Rightarrow> bool" where
  "item_ok v =
     (case v of
        JObj [(k1, JStr fmt), (k2, ps)] \<Rightarrow> k1 = ''format'' \<and> k2 = ''parts'' \<and> parts_ok ps
      | JObj [(k1, JStr name), (k2, JStr desc), (k3, JStr ty), (k4, ps)] \<Rightarrow>
          k1 = ''displayName'' \<and> k2 = ''description'' \<and> k3 = ''type'' \<and> k4 = ''parts''
          \<and> parts_ok ps
      | _ \<Rightarrow> False)"

text \<open>An item file on disk conforms when \<open>json.load\<close> reads it as a conforming item.\<close>

definition item_file_ok :: "dir \<Rightarrow> string \<Rightarrow> bool" where
  "item_file_ok d n = (case json_load (file_data d n) of Some v \<Rightarrow> item_ok v | None \<Rightarrow> False)"

section \<open>Lemmas\<close>

lemma is_b64_encode [simp]: "is_b64 (b64encode bs)"
  by (simp add: is_b64_def b64_roundtrip)

lemma item_file_ok_json_file: "item_ok v \<Longrightarrow> file_data d n = json_file v \<Longrightarrow> item_file_ok d n"
  by (simp add: item_file_ok_def json_load_def json_file_def ascii_decode_utf8 dumps_indent_ascii
      json_loads_dumps)

lemma item_file_ok_write_other:
  "m \<noteq> n \<Longrightarrow> item_file_ok (write_file d m f) n = item_file_ok d n"
  by (simp add: item_file_ok_def file_data_write_other)

end
