(* ===== verification/Argparse.thy ===== *)
theory Argparse
  imports Json
begin

text \<open>
  The part of Python's \<open>argparse\<close> (as in CPython 3.11) that the four scripts use: a
  parser of long options added with \<open>add_argument\<close> (\<open>store\<close> of a string or, with
  \<open>type=int\<close>, of \<open>int(s)\<close>; \<open>store_true\<close>; \<open>store_false\<close>; \<open>required\<close>),
  plus the automatic \<open>-h/--help\<close>. \<open>parse_args\<close> follows \<open>_parse_known_args\<close>:
  first every word is classified (\<open>_parse_optional\<close>: an option string, \<open>--name=value\<close>,
  a unique prefix of an option, an unknown option, or an argument; an ambiguous prefix is an
  error at once; a negative number or a word with a space is an argument; everything after
  \<open>--\<close> is an argument), then the options are taken from left to right (a store option
  takes its explicit value or the next argument, else "expected one argument"; \<open>int()\<close>
  failing is "invalid int value"; help exits), then required options are checked and
  leftover words are "unrecognized arguments". \<open>Inl\<close> is how \<open>parse_args\<close> ends the
  program: \<open>ArgError msg\<close> is \<open>parser.error(msg)\<close> (usage and message on stderr,
  exit status 2), \<open>HelpExit\<close> the help text and exit status 0. The text of usage and help
  is not modelled. A store option directly before \<open>--\<close> takes the word after it
  (its argument pattern \<open>-*A-*\<close> skips the separator); otherwise \<open>--\<close> itself is kept
  among the leftover words.
\<close>

section \<open>Actions and namespaces\<close>

datatype argval = VNone | VStr string | VInt int | VBool bool

datatype action_kind = Help | StoreStr | StoreInt | StoreTrue | StoreFalse

record opt_action =
  act_strings :: "string list"
  act_dest :: string
  act_kind :: action_kind
  act_default :: argval
  act_required :: bool

datatype cli_exit = ArgError string | HelpExit

type_synonym namespace = "(string \<times> argval) list"

definition help_action :: opt_action where
  "help_action = \<lparr>act_strings = [''-h'', ''--help''], act_dest = ''help'', act_kind = Help,
                  act_default = VNone, act_required = False\<rparr>"

definition opt_strings :: "opt_action list \<Rightarrow> (string \<times> opt_action) list" where
  "opt_strings acts = concat (map (\<lambda>a. map (\<lambda>s. (s, a)) (act_strings a)) acts)"

definition is_neg_number :: "string \<Rightarrow> bool" where
  "is_neg_number s \<longleftrightarrow>
     (case s of
        c # r \<Rightarrow> c = CHR ''-'' \<and>
          ((r \<noteq> [] \<and> list_all is_digit r)
           \<or> (let a = takeWhile is_digit r; b = drop (length a) r
              in b \<noteq> [] \<and> hd b = CHR ''.'' \<and> tl b \<noteq> [] \<and> list_all is_digit (tl b)))
      | [] \<Rightarrow> False)"

section \<open>Classifying the words of the command line\<close>

definition zero_arg :: "opt_action \<Rightarrow> bool" where
  "zero_arg a \<longleftrightarrow> act_kind a \<in> {Help, StoreTrue, StoreFalse}"

definition arg_name :: "opt_action \<Rightarrow> string" where
  "arg_name a = join ''/'' (act_strings a)"

text \<open>\<open>repr(s)\<close> of a \<open>str\<close>, as error messages quote values.\<close>

definition py_printable :: "char \<Rightarrow> bool" where
  "py_printable c \<longleftrightarrow>
     (let n = (of_char c :: nat) in (32 \<le> n \<and> n < 127) \<or> (161 \<le> n \<and> n \<noteq> 173))"

definition repr_char :: "char \<Rightarrow> char \<Rightarrow> string" where
  "repr_char q c =
     (if c = q \<or> c = CHR 0x5C then [CHR 0x5C, c]
      else if c = CHR 0x0A then [CHR 0x5C, CHR ''n'']
      else if c = CHR 0x0D then [CHR 0x5C, CHR ''r'']
      else if c = CHR 0x09 then [CHR 0x5C, CHR ''t'']
      else if py_printable c then [c]
      else [CHR 0x5C, CHR ''x'', hex_digit (of_char c div 16), hex_digit (of_char c mod 16)])"

definition py_repr :: "string \<Rightarrow> string" where
  "py_repr s =
     (let q = (if CHR 0x27 \<in> set s \<and> CHR 0x22 \<notin> set s then CHR 0x22 else CHR 0x27)
      in q # concat (map (repr_char q) s) @ [q])"

text \<open>\<open>s.startswith(p)\<close>.\<close>

definition startswith :: "string \<Rightarrow> string \<Rightarrow> bool" where
  "startswith s p \<longleftrightarrow> take (length p) s = p"

definition split_eq :: "string \<Rightarrow> string \<times> string" where
  "split_eq s = (takeWhile (\<lambda>c. c \<noteq> CHR ''='') s, drop 1 (dropWhile (\<lambda>c. c \<noteq> CHR ''='') s))"

datatype arg_tok = TArg | TSep | TOpt "opt_action option" string "string option"

definition option_tuples :: "opt_action list \<Rightarrow> string \<Rightarrow> (opt_action \<times> string \<times> string option) list" where
  "option_tuples acts s =
     (if 2 \<le> length s \<and> s ! 1 = CHR ''-'' then
        (let (pre, ex) = (if CHR ''='' \<in> set s then (fst (split_eq s), Some (snd (split_eq s))) else (s, None))
         in map (\<lambda>(ostr, a). (a, ostr, ex)) (filter (\<lambda>(ostr, a). startswith ostr pre) (opt_strings acts)))
      else
        concat (map (\<lambda>(ostr, a). if ostr = take 2 s then [(a, ostr, Some (drop 2 s))]
                              else if startswith ostr s then [(a, ostr, None)] else [])
                  (opt_strings acts)))"

definition parse_optional :: "opt_action list \<Rightarrow> string \<Rightarrow> cli_exit + arg_tok" where
  "parse_optional acts s =
     (if s = [] \<or> hd s \<noteq> CHR ''-'' then Inr TArg
      else case map_of (opt_strings acts) s of
        Some a \<Rightarrow> Inr (TOpt (Some a) s None)
      | None \<Rightarrow>
          if length s = 1 then Inr TArg
          else case (if CHR ''='' \<in> set s then map_of (opt_strings acts) (fst (split_eq s)) else None) of
            Some a \<Rightarrow> Inr (TOpt (Some a) (fst (split_eq s)) (Some (snd (split_eq s))))
          | None \<Rightarrow>
              (let tups = option_tuples acts s in
               if 1 < length tups then
                 Inl (ArgError (''ambiguous option: '' @ s @ '' could match ''
                                @ join '', '' (map (\<lambda>(a, ostr, e). ostr) tups)))
               else if length tups = 1 then (case hd tups of (a, ostr, e) \<Rightarrow> Inr (TOpt (Some a) ostr e))
               else if is_neg_number s \<or> CHR '' '' \<in> set s then Inr TArg
               else Inr (TOpt None s None)))"

text \<open>The first pass of \<open>_parse_known_args\<close>: every word before \<open>--\<close> is classified.\<close>

fun classify :: "opt_action list \<Rightarrow> string list \<Rightarrow> cli_exit + (string \<times> arg_tok) list" where
  "classify acts [] = Inr []"
| "classify acts (s # ss) =
     (if s = ''--'' then Inr ((s, TSep) # map (\<lambda>x. (x, TArg)) ss)
      else case parse_optional acts s of
        Inl e \<Rightarrow> Inl e
      | Inr t \<Rightarrow> map_sum id (Cons (s, t)) (classify acts ss))"

section \<open>Taking the options\<close>

text \<open>The namespace, the destinations of the actions taken, and the leftover words.\<close>

type_synonym parse_state = "namespace \<times> string list \<times> string list"

definition ns_set :: "namespace \<Rightarrow> string \<Rightarrow> argval \<Rightarrow> namespace" where
  "ns_set ns k v = (k, v) # filter (\<lambda>e. fst e \<noteq> k) ns"

definition take_action :: "opt_action \<Rightarrow> string \<Rightarrow> parse_state \<Rightarrow> cli_exit + parse_state" where
  "take_action a v st =
     (case st of (ns, seen, ex) \<Rightarrow>
        let seen' = seen @ [act_dest a] in
        case act_kind a of
          Help \<Rightarrow> Inl HelpExit
        | StoreTrue \<Rightarrow> Inr (ns_set ns (act_dest a) (VBool True), seen', ex)
        | StoreFalse \<Rightarrow> Inr (ns_set ns (act_dest a) (VBool False), seen', ex)
        | StoreStr \<Rightarrow> Inr (ns_set ns (act_dest a) (VStr v), seen', ex)
        | StoreInt \<Rightarrow>
            (case py_int v of
               Inl _ \<Rightarrow> Inl (ArgError (''argument '' @ arg_name a @ '': invalid int value: '' @ py_repr v))
             | Inr n \<Rightarrow> Inr (ns_set ns (act_dest a) (VInt n), seen', ex)))"

definition sbind :: "'e + 'a \<Rightarrow> ('a \<Rightarrow> 'e + 'b) \<Rightarrow> 'e + 'b" where
  "sbind x f = (case x of Inl e \<Rightarrow> Inl e | Inr a \<Rightarrow> f a)"

fun take_all :: "opt_action list \<Rightarrow> parse_state \<Rightarrow> cli_exit + parse_state" where
  "take_all [] st = Inr st"
| "take_all (a # as) st = sbind (take_action a [] st) (take_all as)"

text \<open>
  A single-dash option without arguments followed by more characters (\<open>-hh\<close>): each
  further character must be another such option, else "ignored explicit argument".
\<close>

fun short_chain :: "(string \<times> opt_action) list \<Rightarrow> opt_action \<Rightarrow> string \<Rightarrow> cli_exit + opt_action list" where
  "short_chain os a [] = Inl (ArgError (''argument '' @ arg_name a @ '': ignored explicit argument '' @ py_repr []))"
| "short_chain os a (c # e) =
     (case map_of os [CHR ''-'', c] of
        Some a' \<Rightarrow>
          if zero_arg a' then (if e = [] then Inr [a, a'] else map_sum id (Cons a) (short_chain os a' e))
          else Inl (ArgError (''argument '' @ arg_name a @ '': ignored explicit argument '' @ py_repr (c # e)))
      | None \<Rightarrow> Inl (ArgError (''argument '' @ arg_name a @ '': ignored explicit argument '' @ py_repr (c # e))))"

fun consume :: "opt_action list \<Rightarrow> (string \<times> arg_tok) list \<Rightarrow> parse_state \<Rightarrow> cli_exit + parse_state" where
  "consume acts [] st = Inr st"
| "consume acts ((raw, TArg) # ts) (ns, seen, ex) = consume acts ts (ns, seen, ex @ [raw])"
| "consume acts ((raw, TSep) # ts) (ns, seen, ex) = consume acts ts (ns, seen, ex @ [raw])"
| "consume acts ((raw, TOpt None s e) # ts) (ns, seen, ex) = consume acts ts (ns, seen, ex @ [raw])"
| "consume acts ((raw, TOpt (Some a) s e) # ts) st =
     (if zero_arg a then
        (case e of
           None \<Rightarrow> sbind (take_action a [] st) (consume acts ts)
         | Some x \<Rightarrow>
             if s ! 1 = CHR ''-'' \<or> x = [] then
               Inl (ArgError (''argument '' @ arg_name a @ '': ignored explicit argument '' @ py_repr x))
             else sbind (short_chain (opt_strings acts) a x) (\<lambda>as. sbind (take_all as st) (consume acts ts)))
      else
        (case e of
           Some x \<Rightarrow> sbind (take_action a x st) (consume acts ts)
         | None \<Rightarrow>
             (case ts of
                (v, TArg) # ts' \<Rightarrow> sbind (take_action a v st) (consume acts ts')
              | (_, TSep) # (v, TArg) # ts' \<Rightarrow> sbind (take_action a v st) (consume acts ts')
              | _ \<Rightarrow> Inl (ArgError (''argument '' @ arg_name a @ '': expected one argument'')))))"

text \<open>\<open>parser.parse_args(argv)\<close>, with the actions in the order of their \<open>add_argument\<close>.\<close>

definition parse_args :: "opt_action list \<Rightarrow> string list \<Rightarrow> cli_exit + namespace" where
  "parse_args opts argv =
     (let acts = help_action # opts;
          defaults = map (\<lambda>a. (act_dest a, act_default a)) opts
      in case classify acts argv of
           Inl e \<Rightarrow> Inl e
         | Inr toks \<Rightarrow>
             (case consume acts toks (defaults, [], []) of
                Inl e \<Rightarrow> Inl e
              | Inr (ns, seen, ex) \<Rightarrow>
                  (let missing = filter (\<lambda>a. act_required a \<and> act_dest a \<notin> set seen) acts
                   in if missing \<noteq> [] then
                        Inl (ArgError (''the following arguments are required: ''
                                       @ join '', '' (map arg_name missing)))
                      else if ex \<noteq> [] then Inl (ArgError (''unrecognized arguments: '' @ join '' '' ex))
                      else Inr ns)))"

text \<open>
  \<open>p.add_argument(name, ...)\<close> for one long option: the destination is the name without
  its leading dashes and with \<open>-\<close> replaced by \<open>_\<close>.
\<close>

definition dest_of :: "string \<Rightarrow> string" where
  "dest_of name = map (\<lambda>c. if c = CHR ''-'' then CHR ''_'' else c) (dropWhile (\<lambda>c. c = CHR ''-'') name)"

definition add_argument :: "string \<Rightarrow> action_kind \<Rightarrow> argval \<Rightarrow> bool \<Rightarrow> opt_action" where
  "add_argument name kind dflt required =
     \<lparr>act_strings = [name], act_dest = dest_of name, act_kind = kind, act_default = dflt,
      act_required = required\<rparr>"

text \<open>Reading an attribute of the namespace \<open>args\<close>.\<close>

definition ns_str :: "namespace \<Rightarrow> string \<Rightarrow> string" where
  "ns_str ns k = (case map_of ns k of Some (VStr s) \<Rightarrow> s | _ \<Rightarrow> [])"

definition ns_opt_str :: "namespace \<Rightarrow> string \<Rightarrow> string option" where
  "ns_opt_str ns k = (case map_of ns k of Some (VStr s) \<Rightarrow> Some s | _ \<Rightarrow> None)"

definition ns_int :: "namespace \<Rightarrow> string \<Rightarrow> int" where
  "ns_int ns k = (case map_of ns k of Some (VInt n) \<Rightarrow> n | _ \<Rightarrow> 0)"

definition ns_bool :: "namespace \<Rightarrow> string \<Rightarrow> bool" where
  "ns_bool ns k = (case map_of ns k of Some (VBool b) \<Rightarrow> b | _ \<Rightarrow> False)"

end
