(* ===== verification/Cli.thy ===== *)
theory Cli
  imports Uploader Converter Generator Rewriter Argparse
begin

text \<open>
  The files of a directory as \<open>Path(p).glob(...)\<close> lists them: a missing directory has
  none.
\<close>

definition dir_of :: "fs \<Rightarrow> string \<Rightarrow> dir" where
  "dir_of fs p = (case map_of fs p of Some d \<Rightarrow> d | None \<Rightarrow> [])"

text \<open>\<open>os.makedirs(path, exist_ok=True)\<close>: the directory is created when it is missing.\<close>

definition ensure_dir :: "fs \<Rightarrow> string \<Rightarrow> fs" where
  "ensure_dir fs p = (if p \<in> set (map fst fs) then fs else set_dir fs p [])"

section \<open>upload_items_to_fabric.py\<close>

text \<open>The parser of \<open>main\<close>, in the order of its \<open>add_argument\<close> calls.\<close>

definition upload_parser :: "opt_action list" where
  "upload_parser =
     [add_argument ''--endpoint'' StoreStr VNone True,
      add_argument ''--token'' StoreStr VNone False,
      add_argument ''--src'' StoreStr (VStr ''generated_items'') False,
      add_argument ''--concurrency'' StoreInt (VInt 4) False,
      add_argument ''--retries'' StoreInt (VInt 3) False,
      add_argument ''--dry-run'' StoreTrue (VBool False) False,
      add_argument ''--batch-size'' StoreInt (VInt 50) False,
      add_argument ''--sleep-after'' StoreInt (VInt 45) False]"

text \<open>The attributes \<open>args.endpoint\<close>, ..., \<open>args.sleep_after\<close> that \<open>main\<close> reads.\<close>

definition upload_args_of :: "namespace \<Rightarrow> upload_args" where
  "upload_args_of ns =
     \<lparr>arg_endpoint = ns_str ns ''endpoint'', arg_token = ns_opt_str ns ''token'',
      arg_src = ns_str ns ''src'', arg_concurrency = ns_int ns ''concurrency'',
      arg_retries = ns_int ns ''retries'', arg_dry_run = ns_bool ns ''dry_run'',
      arg_batch_size = ns_int ns ''batch_size'', arg_sleep_after = ns_int ns ''sleep_after''\<rparr>"

text \<open>
  The script run with command line \<open>argv\<close> on file system \<open>fs\<close>: \<open>parse_args\<close>, then
  \<open>main\<close> on the files of \<open>args.src\<close>. \<open>Inl\<close> is the exit of \<open>argparse\<close>.
\<close>

definition upload_cli ::
  "string list \<Rightarrow> fs \<Rightarrow> (string \<Rightarrow> int \<Rightarrow> outcome) \<Rightarrow> (nat \<Rightarrow> string list \<Rightarrow> string list)
     \<Rightarrow> cli_exit + event list \<times> upload_result list \<times> exc option" where
  "upload_cli argv fs net sched =
     (case parse_args upload_parser argv of
        Inl x \<Rightarrow> Inl x
      | Inr ns \<Rightarrow> (let a = upload_args_of ns in Inr (upload_main a (dir_of fs (arg_src a)) net sched)))"

section \<open>generate_notebooks.py\<close>

definition gen_parser :: "opt_action list" where
  "gen_parser =
     [add_argument ''--count'' StoreInt (VInt 300) False,
      add_argument ''--outdir'' StoreStr (VStr ''generated_notebooks'') False]"

text \<open>
  \<open>main()\<close> of the generator with the repository root \<open>repo_root\<close>
  (\<open>os.path.dirname(os.path.dirname(__file__))\<close>): \<open>ensure_dir(outdir)\<close>, the
  notebooks (\<open>gen_main\<close>), and the archive \<open>os.path.join(repo_root, outdir + ".zip")\<close>,
  beside \<open>outdir\<close> in a directory that \<open>os.makedirs\<close> created if it was missing.
\<close>

definition gen_cli :: "string list \<Rightarrow> string \<Rightarrow> fs \<Rightarrow> bool \<Rightarrow> cli_exit + fs \<times> string list" where
  "gen_cli argv repo_root fs zip_ok =
     (case parse_args gen_parser argv of
        Inl x \<Rightarrow> Inl x
      | Inr ns \<Rightarrow>
          (let outarg = ns_str ns ''outdir''; outdir = py_path_join repo_root outarg;
               zip_path = py_path_join repo_root (outarg @ ''.zip''); zdir = py_dirname zip_path;
               (d', z, out) = gen_main repo_root outarg (ns_int ns ''count'') (dir_of (ensure_dir fs outdir) outdir)
                                zip_ok;
               fs1 = set_dir (ensure_dir fs outdir) outdir d'
           in case z of
                Some arc \<Rightarrow>
                  Inr (set_dir fs1 zdir (write_file (dir_of fs1 zdir) (py_basename zip_path) (Archive arc)), out)
              | None \<Rightarrow> Inr (fs1, out)))"

section \<open>convert_to_fabric_items.py\<close>

definition conv_parser :: "opt_action list" where
  "conv_parser =
     [add_argument ''--src'' StoreStr (VStr ''generated_notebooks'') False,
      add_argument ''--out'' StoreStr (VStr ''generated_items'') False]"

definition conv_cli :: "string list \<Rightarrow> fs \<Rightarrow> bool \<Rightarrow> cli_exit + fs \<times> (exc + string list)" where
  "conv_cli argv fs zip_ok =
     (case parse_args conv_parser argv of
        Inl x \<Rightarrow> Inl x
      | Inr ns \<Rightarrow> Inr (conv_main fs (ns_str ns ''src'') (ns_str ns ''out'') zip_ok))"

section \<open>update_items_with_template.py\<close>

text \<open>\<open>--no-backup\<close> is \<open>action="store_false"\<close> with \<open>dest="backup"\<close>.\<close>

definition rw_parser :: "opt_action list" where
  "rw_parser =
     [add_argument ''--src'' StoreStr (VStr ''generated_items'') False,
      (add_argument ''--no-backup'' StoreFalse (VBool True) False)\<lparr>act_dest := ''backup''\<rparr>]"

definition rw_cli :: "string list \<Rightarrow> fs \<Rightarrow> string option \<Rightarrow> cli_exit + fs \<times> (exc + string list)" where
  "rw_cli argv fs zip_err =
     (case parse_args rw_parser argv of
        Inl x \<Rightarrow> Inl x
      | Inr ns \<Rightarrow> Inr (update_all fs (ns_str ns ''src'') (ns_bool ns ''backup'') zip_err))"

section \<open>Reference: a command line for given arguments\<close>

text \<open>
  The command line that states every argument of an \<open>upload_args\<close> record, each as
  \<open>--name=value\<close> (so that values beginning with \<open>-\<close> are read as values).
\<close>

definition upload_argv :: "upload_args \<Rightarrow> string list" where
  "upload_argv a =
     [''--endpoint='' @ arg_endpoint a]
     @ (case arg_token a of Some t \<Rightarrow> [''--token='' @ t] | None \<Rightarrow> [])
     @ [''--src='' @ arg_src a,
        ''--concurrency='' @ py_str_of_int (arg_concurrency a),
        ''--retries='' @ py_str_of_int (arg_retries a)]
     @ (if arg_dry_run a then [''--dry-run''] else [])
     @ [''--batch-size='' @ py_str_of_int (arg_batch_size a),
        ''--sleep-after='' @ py_str_of_int (arg_sleep_after a)]"

section \<open>Lemmas\<close>

lemma py_int_str_of_int: "py_int (py_str_of_int n) = Inr n"
  using py_int_digits[OF py_str_of_nat_nonempty py_str_of_nat_is_digit]
  by (simp add: py_str_of_int_def dec_value_py_str_of_nat)

text \<open>
  C19. Every argument record of the uploader can be given on the command line: parsing
  \<open>upload_argv a\<close> with the parser of \<open>main\<close> yields exactly \<open>a\<close>, negative numbers and
  values beginning with a dash included. Names, destinations, types and defaults of the
  \<open>add_argument\<close> calls agree with the attributes \<open>main\<close> reads.
\<close>

theorem upload_argv_roundtrip:
  "map_sum id upload_args_of (parse_args upload_parser (upload_argv a)) = Inr a"
  by (cases "arg_token a"; cases "arg_dry_run a")
     (simp_all add: upload_argv_def parse_args_def upload_parser_def add_argument_def
       help_action_def opt_strings_def parse_optional_def split_eq_def dest_of_def
       take_action_def sbind_def zero_arg_def ns_set_def py_int_str_of_int upload_args_of_def
       ns_str_def ns_opt_str_def ns_int_def ns_bool_def)

lemma rw_cli_defaults: "rw_cli [] fs zip_err = Inr (update_all fs ''generated_items'' True zip_err)"
  by (simp add: rw_cli_def rw_parser_def parse_args_def add_argument_def help_action_def dest_of_def
      ns_str_def ns_bool_def)

lemma rw_cli_no_backup:
  "rw_cli [''--no-backup''] fs zip_err = Inr (update_all fs ''generated_items'' False zip_err)"
  by (simp add: rw_cli_def rw_parser_def parse_args_def add_argument_def help_action_def dest_of_def
      ns_str_def ns_bool_def opt_strings_def parse_optional_def take_action_def sbind_def zero_arg_def
      ns_set_def)

text \<open>
  The usage line in the module docstring of \<open>update_items_with_template.py\<close> passes
  \<open>--backup\<close>; the parser has only \<open>--no-backup\<close>, which that word is not a prefix
  of, so the documented command line exits with an argument error.
\<close>

lemma rw_cli_backup_flag_rejected:
  "rw_cli [''--backup''] fs zip_err = Inl (ArgError ''unrecognized arguments: --backup'')"
  by code_simp

lemma conv_cli_defaults:
  "conv_cli [] fs zip_ok = Inr (conv_main fs ''generated_notebooks'' ''generated_items'' zip_ok)"
  by (simp add: conv_cli_def conv_parser_def parse_args_def add_argument_def help_action_def dest_of_def
      ns_str_def)

lemma upload_token_dash_rejected:
  "parse_args upload_parser [''--endpoint'', ''e'', ''--token'', ''-abc'']
     = Inl (ArgError ''argument --token: expected one argument'')"
  by code_simp

lemma upload_dry_run_needs_endpoint:
  "parse_args upload_parser [''--dry-run'']
     = Inl (ArgError ''the following arguments are required: --endpoint'')"
  by code_simp

lemma upload_negative_sleep_accepted:
  "map_sum id (arg_sleep_after \<circ> upload_args_of)
     (parse_args upload_parser [''--endpoint'', ''e'', ''--sleep-after'', ''-5'']) = Inr (-5)"
  by code_simp

lemma gen_parser_defaults:
  "parse_args gen_parser [] = Inr [(''count'', VInt 300), (''outdir'', VStr ''generated_notebooks'')]"
  by (simp add: gen_parser_def parse_args_def add_argument_def help_action_def dest_of_def)

end
