(* ===== verification/Spec2Isabelle.thy ===== *)
theory Spec2Isabelle
  imports Uploader Converter Generator Rewriter ItemSchema Cli
begin

text \<open>
  Verification development for the four command-line scripts of the repository
  (\<open>src/scripts/*.py\<close>), which form a pipeline through the file system:
  \<open>generate_notebooks.py\<close> writes notebooks, \<open>convert_to_fabric_items.py\<close> wraps each
  one into an item definition with base64 payloads, \<open>update_items_with_template.py\<close>
  rewrites the item files to a fixed template, and \<open>upload_items_to_fabric.py\<close> posts the
  item files to an HTTP endpoint in batches, with a bounded thread pool and retries.
  Each script is modelled as a function from the directories it reads to the directories it
  writes (a directory is an association list of named files) and the lines it prints.

  Theories:
  \<^item> \<open>Prelude\<close>: the Python builtins the scripts use (\<open>str(n)\<close>, \<open>f"{n:03d}"\<close>
    as \<open>fmt_03d\<close>, \<open>int(s)\<close> as \<open>py_int\<close>, \<open>range\<close>, slicing, \<open>str.split\<close>,
    \<open>fnmatch\<close>, \<open>os.path.join\<close>/\<open>basename\<close>, UTF-8 encoding), bytes as
    \<open>8 word list\<close>, directories, file systems of directories (\<open>fs\<close>,
    \<open>set_dir\<close>, \<open>del_dir\<close>), zip members, and the exceptions as the datatype
    \<open>exc\<close>. Its lemmas: \<open>int()\<close> reads back what \<open>str\<close> and \<open>03d\<close> write
    (\<open>py_int_fmt_03d\<close>), equal-length digit strings sort as their values
    (\<open>digits_less_iff\<close>), and what a sequence of file writes leaves in a directory.
  \<^item> \<open>Json\<close>: JSON values and the two serialisations the scripts use
    (\<open>json.dump(indent=2)\<close> as \<open>dumps_indent\<close>, compact \<open>json.dumps\<close> as
    \<open>dumps_compact\<close>), with \<open>ensure_ascii\<close> escapes, and a reference decoder
    \<open>json_load\<close> for \<open>json.load\<close>; its lemmas show that every written file reads
    back as the value written (the output is ASCII; the decoder inverts \<open>dumps_indent\<close>).
  \<^item> \<open>Base64\<close>: \<open>base64.b64encode\<close> on \<open>8 word\<close>s with shifts and masks, a reference
    decoder, and the round trip \<open>b64_roundtrip\<close>.
  \<^item> \<open>Generator\<close>: \<open>generate_notebooks.py\<close> (\<open>TEMPLATE\<close>, \<open>generate_notebook\<close>,
    \<open>main\<close> as \<open>gen_main\<close>); claims C20-C23.
  \<^item> \<open>Converter\<close>: \<open>convert_to_fabric_items.py\<close> (\<open>encode_file_to_base64\<close>,
    \<open>make_item\<close>, \<open>convert_all\<close>, \<open>main\<close> as \<open>conv_main\<close> on a file
    system); claims C16-C18 and C31 (an empty or missing source is not reported).
  \<^item> \<open>Rewriter\<close>: \<open>update_items_with_template.py\<close> over a file system of directories
    (\<open>TEMPLATE_PARTS\<close>, the backup, \<open>update_all\<close>); claims C24-C27.
  \<^item> \<open>Uploader\<close>: \<open>upload_items_to_fabric.py\<close> (\<open>post_item\<close>, the retry loop
    \<open>worker\<close>, \<open>chunked\<close>, the \<open>as_completed\<close> loop \<open>collect\<close>, the batch loop
    \<open>run_batches\<close>, \<open>main\<close> as \<open>upload_main\<close>), a trace of posts, sleeps and prints
    against the reference \<open>batch_segments\<close>/\<open>batch_results\<close>; claims C1-C15.
  \<^item> \<open>Argparse\<close>: Python's \<open>argparse\<close> for long options (\<open>parse_args\<close>):
    classification of the words, store, \<open>type=int\<close>, \<open>store_true\<close>/\<open>store_false\<close>,
    prefixes, required options, help, and the error messages by which it exits.
  \<^item> \<open>Cli\<close>: the command lines of the four scripts: each \<open>main\<close>'s parser
    (\<open>upload_parser\<close>, \<open>gen_parser\<close>, \<open>conv_parser\<close>, \<open>rw_parser\<close>) and the
    script as a function of \<open>argv\<close> and the file system (\<open>upload_cli\<close>, \<open>gen_cli\<close>,
    \<open>conv_cli\<close>, \<open>rw_cli\<close>). C19: every uploader argument record can be given on the
    command line (parse of its rendering is the identity); lemmas give the defaults and the
    command lines behind two findings (a dash-leading token, a dry run without endpoint).
  \<^item> \<open>ItemSchema\<close>: the item definition schema of the specification as the
    executable predicate \<open>item_ok\<close> on JSON values, and \<open>item_file_ok\<close>: a file
    that \<open>json_load\<close> reads as a conforming item.
  \<^item> this theory: the properties that span components. C28: converting the generator's
    output recovers each notebook and its index. C29: every item file the converter or the
    rewriter writes conforms to the schema. C30: after a rewrite the uploader sees the same
    files and posts the rewritten items.

  Oracles and bounds. The network (\<open>net\<close>: the outcome of each attempt), the completion
  order of a batch (\<open>sched\<close>, assumed only to be a permutation of the batch) and the success of
  \<open>zipfile\<close> (\<open>zip_ok\<close>, \<open>zip_err\<close>) are parameters. No fuel is needed in the
  model of the scripts: every loop runs over a finite list (\<open>fun\<close> and \<open>fold\<close>).
  The reference JSON decoder
  recurses over nesting and container items with fuel; \<open>json_loads\<close> gives the length
  of the text plus one, which is enough for any text \<open>dumps_indent\<close> writes because the
  size of a value never exceeds the length of its serialisation (\<open>size_le_dumps\<close>). Integers are Python's unbounded \<open>int\<close>.

  Not modelled: the \<open>if __name__\<close> guards and the imports; the threads of
  \<open>ThreadPoolExecutor\<close> and \<open>as_completed\<close> (library code: their completion order
  is the oracle \<open>sched\<close>); the usage and help texts
  of \<open>argparse\<close> and its short options other than \<open>-h\<close>, which no script adds; \<open>requests.Session\<close> beyond the request it is given (the oracle); the
  compressed bytes of zip archives (an archive is its member list); \<open>os.makedirs\<close>
  beyond creating a missing directory and its parents, so that the archive's directory
  exists after it (\<open>os.path.join\<close> is modelled with its absolute-path case, but paths are not normalised, so trailing slashes and
  \<open>..\<close> are out of scope); JSON numbers other than integers, which no script writes; file-system errors other
  than the ones the code meets on its normal paths (a missing source directory for the
  rewriter, a missing archive directory); the exact interleaving of the threads' requests
  in the trace (each file's events appear in its completion slot).
\<close>


section \<open>Names across the pipeline\<close>

lemma tpl_payload0_eq: "tpl_payload0 = b64encode (json_file (generate_data 1))"
  by code_simp

lemma tpl_payload1_eq: "tpl_payload1 = platform_b64 1"
  by code_simp

lemma fmt_03d_no_sep: "CHR ''.'' \<notin> set (fmt_03d i)" "CHR ''_'' \<notin> set (fmt_03d i)"
proof -
  have "\<not> is_digit CHR ''.''" "\<not> is_digit CHR ''_''" by (simp_all add: is_digit_def less_eq_char_def)
  then show "CHR ''.'' \<notin> set (fmt_03d i)" "CHR ''_'' \<notin> set (fmt_03d i)"
    using fmt_03d_chars[of _ i] by auto
qed

lemma nb_name_split: "nb_name i = (''notebook_'' @ fmt_03d i) @ CHR ''.'' # ''ipynb''"
  by (simp add: nb_name_def)

lemma py_stem_nb_name: "py_stem (nb_name i) = ''notebook_'' @ fmt_03d i"
proof -
  have "py_rfind CHR ''.'' (nb_name i) = Some (length (''notebook_'' @ fmt_03d i))"
    unfolding nb_name_split by (rule py_rfind_append) simp
  then show ?thesis by (simp add: py_stem_def nb_name_def)
qed

lemma stem_index_nb_name: "stem_index (nb_name i) = fmt_03d i"
proof -
  have e: "''notebook_'' @ fmt_03d i = ''notebook'' @ CHR ''_'' # fmt_03d i" by simp
  show ?thesis
    by (simp only: stem_index_def py_stem_nb_name e last_py_split_append[OF fmt_03d_no_sep(2)])
qed

lemma item_name_nb_name_inj: "item_name (nb_name i) = item_name (nb_name j) \<Longrightarrow> i = j"
  by (simp add: item_name_def py_stem_nb_name) (metis py_int_fmt_03d sum.inject(2))

lemma generated_ipynb_files:
  assumes "gen_main repo_root outarg n [] zip_ok = (d, z, out)"
  shows "set (ipynb_files d) = nb_name ` {1..n}" "distinct (ipynb_files d)"
    "file_data d (nb_name i) = (if i \<in> {1..n} then json_file (generate_data i) else [])"
proof -
  have dd: "d = nb_writes [1..n] []" using assms by (simp add: gen_main_eq)
  have g: "glob_suffix ''.ipynb'' (nb_name j)" for j
    using glob_suffix_append[of "''.ipynb''" "''notebook_'' @ fmt_03d j"] by (simp add: nb_name_def)
  have s: "set (map fst d) = nb_name ` {1..n}" unfolding dd by (rule nb_writes_fresh(2))
  then have "filter (glob_suffix ''.ipynb'') (map fst d) = map fst d" using g by (auto simp: filter_id_conv)
  then have i: "ipynb_files d = sort (map fst d)" by (simp add: ipynb_files_def)
  show "set (ipynb_files d) = nb_name ` {1..n}" using s by (simp add: i)
  have "distinct (map fst d)" unfolding dd by (rule nb_writes_fresh(1))
  then show "distinct (ipynb_files d)" by (simp add: i)
  show "file_data d (nb_name i) = (if i \<in> {1..n} then json_file (generate_data i) else [])"
  proof (cases "i \<in> {1..n}")
    case False
    then have "nb_name i \<notin> nb_name ` {1..n}" using nb_name_inj by blast
    then have "map_of d (nb_name i) = None" using s by (simp add: map_of_eq_None_iff)
    then show ?thesis using False by (auto simp: file_data_def)
  qed (simp add: dd file_data_nb_writes)
qed

subsection \<open>Items conform to the schema; the rewritten directory as the uploader sees it\<close>

lemma item_ok_make_item: "item_ok (make_item (b64encode x) (Some (b64encode y)))"
  by (simp add: make_item_def inline_part_def item_ok_def parts_ok_def part_ok_def)

lemma item_ok_rewritten_item: "item_ok (rewritten_item i)"
  by (simp add: rewritten_item_def TEMPLATE_PARTS_def item_ok_def parts_ok_def part_ok_def
      tpl_payload0_eq tpl_payload1_eq platform_b64_def)

lemma convert_loop_items_ok:
  "convert_loop src fps out created = (out', Inr c') \<Longrightarrow> \<forall>n \<in> set created. item_file_ok out n \<Longrightarrow>
   \<forall>n \<in> set c'. item_file_ok out' n"
proof (induction fps arbitrary: out created)
  case (Cons fp fps)
  show ?case
  proof (cases "py_int (stem_index fp)")
    case (Inl e)
    then show ?thesis using Cons.prems by simp
  next
    case (Inr idx)
    let ?v = "make_item (encode_file_to_base64 src fp) (Some (platform_b64 idx))"
    let ?out = "write_file out (item_name fp) (Blob (json_file ?v))"
    have "item_file_ok ?out (item_name fp)"
      using item_ok_make_item
      by (intro item_file_ok_json_file) (simp_all add: file_data_write_file encode_file_to_base64_def
          platform_b64_def)
    moreover have "item_file_ok ?out n" if "n \<in> set created" for n
      using Cons.prems(2) that item_file_ok_write_other[of "item_name fp" n out] calculation
      by (cases "n = item_name fp") auto
    ultimately have all: "\<forall>n \<in> set (created @ [item_name fp]). item_file_ok ?out n" by auto
    have "convert_loop src fps ?out (created @ [item_name fp]) = (out', Inr c')"
      using Cons.prems(1) Inr by (simp add: Let_def)
    from Cons.IH[OF this all] show ?thesis .
  qed
qed simp

lemma rewrite_files_items_ok: "n \<in> set files \<Longrightarrow> item_file_ok (rewrite_files files d) n"
proof -
  assume n: "n \<in> set files"
  have "n \<in> snd ` set (zip [1..int (length files)] files)"
    using n by (metis length_upto_1 list.set_map map_snd_zip)
  then have "\<exists>x \<in> set (zip [1..int (length files)] files). snd x = n
              \<and> file_data (rewrite_files files d) n = json_file (rewritten_item (fst x))"
    unfolding rewrite_files_fold by (rule file_data_fold_write_some)
  then show ?thesis using item_file_ok_json_file[OF item_ok_rewritten_item] by blast
qed

lemma update_all_absent:
  "map_of fs src_dir = None \<Longrightarrow> map_of (fst (update_all fs src_dir backup zip_err)) src_dir = None"
  by (cases backup) (simp_all add: update_all_def backup_step_missing map_of_del_dir)

lemma rewritten_dir_items_ok:
  assumes "m \<in> set (map fst (rewritten_dir d zip_err))" "glob_affix ''item_'' ''.json'' m"
  shows "item_file_ok (rewritten_dir d zip_err) m"
proof -
  have nz: "m \<noteq> ''updated_items.zip''" using assms(2) by (auto simp: glob_affix_def glob_suffix_def)
  let ?d = "rewrite_files (item_files d) d"
  have "m \<in> set (map fst ?d)" using assms(1) nz
    by (cases zip_err) (auto simp: rewritten_dir_def Let_def write_file_def)
  then have "m \<in> set (map fst d) \<or> m \<in> set (item_files d)"
    unfolding rewrite_files_fold names_fold_write by (auto dest: set_zip_rightD)
  then have "m \<in> set (item_files d)" using assms(2) by (auto simp: item_files_def)
  then have "item_file_ok ?d m" by (rule rewrite_files_items_ok)
  then show ?thesis using nz
    by (cases zip_err) (simp_all add: rewritten_dir_def Let_def item_file_ok_write_other)
qed

lemma names_rewritten_dir:
  "set (map fst (rewritten_dir d zip_err))
     = set (map fst d) \<union> (if zip_err = None then {''updated_items.zip''} else {})"
proof -
  have "set (item_files d) \<subseteq> set (map fst d)" by (auto simp: item_files_def)
  then have "snd ` set (zip [1..int (length (item_files d))] (item_files d)) \<subseteq> set (map fst d)"
    by (fastforce dest: set_zip_rightD)
  then show ?thesis
    unfolding rewritten_dir_def Let_def rewrite_files_fold
    by (cases zip_err; simp only: option.case names_write_file names_fold_write; auto)
qed

lemma json_files_rewritten_dir:
  assumes "distinct (map fst d)"
  shows "json_files (rewritten_dir d zip_err) = json_files d"
proof -
  have "\<not> glob_suffix ''.json'' ''updated_items.zip''" by (simp add: glob_suffix_def)
  then have "set (filter (glob_suffix ''.json'') (map fst (rewritten_dir d zip_err)))
             = set (filter (glob_suffix ''.json'') (map fst d))"
    using names_rewritten_dir[of d zip_err] by auto
  moreover have "distinct (filter (glob_suffix ''.json'') (map fst (rewritten_dir d zip_err)))"
    using rewritten_dir_distinct[OF assms] by simp
  ultimately show ?thesis using assms
    by (simp add: json_files_def sorted_distinct_set_unique)
qed

section \<open>Properties spanning components\<close>

text \<open>
  C28. Generating \<open>n\<close> notebooks and converting the result succeeds, and for each
  \<open>i \<in> {1..n}\<close> the item written for \<open>notebook_{i:03d}.ipynb\<close> carries payloads that decode
  to notebook \<open>i\<close> exactly as the generator wrote it and to the platform metadata for
  index \<open>i\<close>: the converter reads back the index the generator put into the name.
\<close>

theorem pipeline_generate_convert:
  assumes "gen_main repo_root outarg n [] zip1 = (d, z, out)" "convert_all d items zip2 = (items', r)"
    and "i \<in> {1..n}"
  shows "(\<exists>res. r = Inr res)
         \<and> (\<exists>item. file_data items' (item_name (nb_name i)) = json_file item
              \<and> map_option b64decode (part_payload item 0) = Some (Some (json_file (generate_data i)))
              \<and> map_option b64decode (part_payload item 1)
                    = Some (Some (utf8_encode (dumps_compact (platform_obj i)))))"
proof -
  note f = generated_ipynb_files[OF assms(1)]
  let ?fis = "map (\<lambda>fp. (fp, projr (py_int (stem_index fp)))) (ipynb_files d)"
  have m: "map fst ?fis = ipynb_files d" by (simp add: comp_def)
  have parse: "list_all (\<lambda>(fp, i). py_int (stem_index fp) = Inr i) ?fis"
    using f(1) by (auto simp: list_all_iff stem_index_nb_name py_int_fmt_03d)
  have "inj_on item_name (set (ipynb_files d))"
    using f(1) by (auto intro!: inj_onI dest: item_name_nb_name_inj)
  then have dist: "distinct (map (item_name \<circ> fst) ?fis)"
    using f(2) by (simp add: comp_def distinct_map)
  have mem: "(nb_name i, i) \<in> set ?fis"
    using f(1) assms(3) by (force simp: stem_index_nb_name py_int_fmt_03d)
  have "items' = write_items d ?fis items" and "\<exists>res. r = Inr res"
    using convert_all_ok[OF m parse, of items zip2] assms(2) by auto
  moreover have "file_data (write_items d ?fis items) (item_name (nb_name i)) = json_file (conv_item d (nb_name i) i)"
    by (rule file_data_write_items[OF dist mem])
  ultimately show ?thesis using conv_item_payloads[of d "nb_name i" i] f(3) assms(3)
    by (intro conjI exI[of _ "conv_item d (nb_name i) i"])
       (simp_all add: b64_roundtrip encode_file_to_base64_def platform_b64_def)
qed

theorem pipeline_generate_convert_witness:
  "\<exists>item. file_data (fst (convert_all (fst (gen_main ''/repo'' ''generated_notebooks'' 2 [] True)) [] True))
            (item_name (nb_name 1)) = json_file item
         \<and> map_option b64decode (part_payload item 0) = Some (Some (json_file (generate_data 1)))
         \<and> map_option b64decode (part_payload item 1) = Some (Some (utf8_encode (dumps_compact (platform_obj 1))))"
  using pipeline_generate_convert[of "''/repo''" "''generated_notebooks''" 2 True
          "fst (gen_main ''/repo'' ''generated_notebooks'' 2 [] True)"
          "fst (snd (gen_main ''/repo'' ''generated_notebooks'' 2 [] True))"
          "snd (snd (gen_main ''/repo'' ''generated_notebooks'' 2 [] True))"
          "[]" True "fst (convert_all (fst (gen_main ''/repo'' ''generated_notebooks'' 2 [] True)) [] True)"
          "snd (convert_all (fst (gen_main ''/repo'' ''generated_notebooks'' 2 [] True)) [] True)" 1]
  by simp


text \<open>
  C29. Type of the written items: every item file the converter reports as created, and every
  \<open>item_*.json\<close> file of the source directory after a rewrite, reads back with
  \<open>json.load\<close> as an item of the specified schema (\<open>item_ok\<close>: the converter's or the
  rewriter's shape, a non-empty \<open>parts\<close> array whose payloads are valid base64 and whose
  payload type is \<open>"InlineBase64"\<close>).
\<close>

theorem written_items_conform:
  "(snd (convert_all src out zip_ok) = Inr (created, z) \<longrightarrow>
      (\<forall>n \<in> set created. item_file_ok (fst (convert_all src out zip_ok)) n))
   \<and> (map_of (fst (update_all fs src_dir backup zip_err)) src_dir = Some d' \<longrightarrow>
      (\<forall>m \<in> set (map fst d'). glob_affix ''item_'' ''.json'' m \<longrightarrow> item_file_ok d' m))"
proof (intro conjI impI ballI)
  fix n assume c: "snd (convert_all src out zip_ok) = Inr (created, z)" and n: "n \<in> set created"
  obtain out' r where l: "convert_loop src (ipynb_files src) out [] = (out', r)" by fastforce
  then obtain cs where "r = Inr cs" "created = cs" "fst (convert_all src out zip_ok) = out'"
    using c by (cases r) (auto simp: convert_all_def)
  then show "item_file_ok (fst (convert_all src out zip_ok)) n"
    using convert_loop_items_ok[of src "ipynb_files src" out "[]" out' cs] l n by simp
next
  fix m assume d': "map_of (fst (update_all fs src_dir backup zip_err)) src_dir = Some d'"
    and m: "m \<in> set (map fst d')" and g: "glob_affix ''item_'' ''.json'' m"
  obtain d where d: "map_of fs src_dir = Some d"
    using d' update_all_absent by (cases "map_of fs src_dir") auto
  then have "d' = rewritten_dir d zip_err" using update_all_present(2)[OF d, of backup zip_err] d' by simp
  then show "item_file_ok d' m" using rewritten_dir_items_ok m g by simp
qed

theorem written_items_conform_witness:
  "item_file_ok (fst (convert_all ex_src [] False)) ''item_notebook_002.json''
   \<and> item_file_ok (rewritten_dir ex_items None) ''item_notebook_001.json''"
proof -
  have c: "snd (convert_all ex_src [] False)
             = Inr ([''item_notebook_001.json'', ''item_notebook_002.json''], None)"
    by (simp add: convert_all_def conv_eval ex_src_def make_item_def Let_def)
  have r: "map_of (fst (update_all ex_fs ''generated_items'' True None)) ''generated_items''
             = Some (rewritten_dir ex_items None)"
    by (rule update_all_present(2)[OF ex_items_facts(3)])
  have "set (map fst ex_items) \<subseteq> set (map fst (rewritten_dir ex_items None))"
    unfolding rewritten_dir_def Let_def option.case names_write_file rewrite_files_fold names_fold_write
    by auto
  then have m: "''item_notebook_001.json'' \<in> set (map fst (rewritten_dir ex_items None))"
    by (auto simp: ex_items_def)
  have g: "glob_affix ''item_'' ''.json'' ''item_notebook_001.json''"
    by (simp add: glob_affix_def glob_suffix_def)
  show ?thesis
    using written_items_conform[of ex_src "[]" False
        "[''item_notebook_001.json'', ''item_notebook_002.json'']" None ex_fs "''generated_items''" True None
        "rewritten_dir ex_items None"] c r m g
    by fastforce
qed

text \<open>
  C30. Rewriter then uploader: after a rewrite of an existing directory (names distinct),
  the uploader's file list \<open>sorted(glob("*.json"))\<close> is the one it had before (the new
  \<open>updated_items.zip\<close> is not picked up), and the request posted for the \<open>k\<close>-th item
  file in sorted order carries the rewritten item \<open>"Notebook (k+1)"\<close> as its body.
\<close>

theorem rewrite_then_upload:
  assumes "map_of fs src_dir = Some d" "distinct (map fst d)"
  shows "\<exists>d'. map_of (fst (update_all fs src_dir backup zip_err)) src_dir = Some d'
           \<and> json_files d' = json_files d
           \<and> (\<forall>k < length (item_files d).
                req_body (post_item endpoint token d' (item_files d ! k) timeout)
                  = json_file (rewritten_item (int k + 1)))"
  using update_all_present(2)[OF assms(1)] json_files_rewritten_dir[OF assms(2)]
    file_data_rewritten_dir[OF assms(2)]
  by (simp add: post_item_def)

theorem rewrite_then_upload_witness:
  "json_files (the (map_of (fst (update_all ex_fs ''generated_items'' True None)) ''generated_items''))
     = [''item_notebook_001.json'', ''item_notebook_002.json'']
   \<and> req_body (post_item ''https://api.example/items'' ''tok''
        (the (map_of (fst (update_all ex_fs ''generated_items'' True None)) ''generated_items''))
        ''item_notebook_001.json'' 30) = json_file (rewritten_item 1)"
proof -
  obtain d' where "map_of (fst (update_all ex_fs ''generated_items'' True None)) ''generated_items'' = Some d'"
    "json_files d' = json_files ex_items"
    "\<forall>k < length (item_files ex_items). req_body (post_item ''https://api.example/items'' ''tok'' d'
        (item_files ex_items ! k) 30) = json_file (rewritten_item (int k + 1))"
    using rewrite_then_upload[OF ex_items_facts(3,2), of True None "''https://api.example/items''" "''tok''" 30]
    by blast
  moreover have "json_files ex_items = [''item_notebook_001.json'', ''item_notebook_002.json'']"
    by code_simp
  ultimately show ?thesis using ex_items_facts(1) by fastforce
qed

end
